(* ===== verification/Prelude.thy ===== *)
theory Prelude
  imports Main "HOL-Library.Word" "HOL-Library.Sublist"
begin

text \<open>
  Shared vocabulary of the development: Python strings as lists of Unicode code points,
  the few string methods the program uses (\<open>strip\<close>, \<open>split\<close>, \<open>rfind\<close>, \<open>replace\<close>, \<open>startswith\<close>,
  decimal formatting, UTF-8 length), UUIDs as 128-bit words with their text form, the
  exceptions that cross component borders, and the collections of rewrite rules that the
  component theories extend.
\<close>

named_theorems row_simps \<open>lookups in and updates of the row tables\<close>
named_theorems op_defs \<open>definitions of the database operations\<close>

subsection \<open>Strings\<close>

text \<open>A Python \<open>str\<close> is a sequence of code points. \<open>u\<close> embeds ASCII literals.\<close>

type_synonym pystr = "nat list"

definition u :: "string \<Rightarrow> pystr" where
  "u s = map of_char s"

lemma u_inject [simp]: "u a = u b \<longleftrightarrow> a = b"
proof
  assume "u a = u b"
  then show "a = b"
    unfolding u_def by (rule map_injective) (auto simp: inj_def)
qed simp

lemma u_Nil [simp]: "u [] = []"
  by (simp add: u_def)

lemma u_eq_Nil [simp]: "u s = [] \<longleftrightarrow> s = []"
  by (simp add: u_def)

lemma Nil_eq_u [simp]: "[] = u s \<longleftrightarrow> s = []"
  by (auto simp: u_def)

lemma length_u [simp]: "length (u s) = length s"
  by (simp add: u_def)

lemma u_append: "u (a @ b) = u a @ u b"
  by (simp add: u_def)

lemma prefix_u [simp]: "prefix (u a) (u b) \<longleftrightarrow> prefix a b"
proof
  assume "prefix (u a) (u b)"
  then have "take (length a) (u b) = u a"
    by (auto simp: prefix_def)
  then have "u (take (length a) b) = u a"
    by (simp add: u_def take_map)
  then show "prefix a b"
    by (metis take_is_prefix u_inject)
qed (auto simp: prefix_def u_append)

abbreviation (input) nl :: nat where "nl \<equiv> 10"
abbreviation (input) tab :: nat where "tab \<equiv> 9"
abbreviation (input) space :: nat where "space \<equiv> 32"
abbreviation (input) dash :: nat where "dash \<equiv> 45"
abbreviation (input) dot :: nat where "dot \<equiv> 46"
abbreviation (input) slash :: nat where "slash \<equiv> 47"
abbreviation (input) colon :: nat where "colon \<equiv> 58"
abbreviation (input) underscore :: nat where "underscore \<equiv> 95"
abbreviation (input) backtick :: nat where "backtick \<equiv> 96"
abbreviation (input) nul :: nat where "nul \<equiv> 0"

text \<open>The code points \<open>str.isspace\<close> accepts, which \<open>str.strip\<close> removes at both ends.\<close>

definition is_space :: "nat \<Rightarrow> bool" where
  "is_space c \<longleftrightarrow> (9 \<le> c \<and> c \<le> 13) \<or> (28 \<le> c \<and> c \<le> 32) \<or> c = 133 \<or> c = 160 \<or> c = 5760
     \<or> (8192 \<le> c \<and> c \<le> 8202) \<or> c = 8232 \<or> c = 8233 \<or> c = 8239 \<or> c = 8287 \<or> c = 12288"

definition lstrip_by :: "(nat \<Rightarrow> bool) \<Rightarrow> pystr \<Rightarrow> pystr" where
  "lstrip_by P s = dropWhile P s"

definition rstrip_by :: "(nat \<Rightarrow> bool) \<Rightarrow> pystr \<Rightarrow> pystr" where
  "rstrip_by P s = rev (dropWhile P (rev s))"

definition strip_by :: "(nat \<Rightarrow> bool) \<Rightarrow> pystr \<Rightarrow> pystr" where
  "strip_by P s = rstrip_by P (lstrip_by P s)"

definition py_strip :: "pystr \<Rightarrow> pystr" where
  "py_strip s = strip_by is_space s"

lemma rstrip_by_idem [simp]: "rstrip_by P (rstrip_by P s) = rstrip_by P s"
  by (simp add: rstrip_by_def)

lemma length_dropWhile_rev_le: "length (rstrip_by P s) \<le> length s"
  by (metis length_dropWhile_le length_rev rstrip_by_def)

lemma length_strip_by_le: "length (strip_by P s) \<le> length s"
  by (metis le_trans length_dropWhile_le length_dropWhile_rev_le lstrip_by_def strip_by_def)

lemma rstrip_by_prefix: "prefix (rstrip_by P s) s"
proof -
  have "suffix (dropWhile P (rev s)) (rev s)"
    by (rule suffix_dropWhile)
  then show ?thesis
    by (simp add: rstrip_by_def suffix_to_prefix)
qed

lemma hd_strip_by:
  assumes "strip_by P s \<noteq> []"
  shows "\<not> P (hd (strip_by P s))"
proof -
  obtain t where t: "lstrip_by P s = strip_by P s @ t"
    using rstrip_by_prefix [of P "lstrip_by P s"] by (auto simp: strip_by_def prefix_def)
  have "lstrip_by P s \<noteq> []"
    using assms t by auto
  then have "\<not> P (hd (lstrip_by P s))"
    unfolding lstrip_by_def by (rule hd_dropWhile)
  then show ?thesis
    using assms t by simp
qed


lemma last_strip_by:
  assumes "strip_by P s \<noteq> []"
  shows "\<not> P (last (strip_by P s))"
proof -
  let ?d = "dropWhile P (rev (lstrip_by P s))"
  have ne: "?d \<noteq> []"
    using assms by (simp add: strip_by_def rstrip_by_def)
  have "\<not> P (hd ?d)"
    using ne by (rule hd_dropWhile)
  moreover have "last (strip_by P s) = hd ?d"
    using ne by (simp add: strip_by_def rstrip_by_def last_rev)
  ultimately show ?thesis
    by simp
qed

text \<open>\<open>s.split(c)\<close> for a one-character separator, \<open>c.join(parts)\<close> and \<open>s.rfind(c, 0, n)\<close>.\<close>

fun split_on :: "nat \<Rightarrow> pystr \<Rightarrow> pystr list" where
  "split_on c [] = [[]]"
| "split_on c (x # xs) =
     (if x = c then [] # split_on c xs
      else (case split_on c xs of [] \<Rightarrow> [[x]] | y # ys \<Rightarrow> (x # y) # ys))"

fun join_with :: "nat \<Rightarrow> pystr list \<Rightarrow> pystr" where
  "join_with c [] = []"
| "join_with c [x] = x"
| "join_with c (x # y # zs) = x @ c # join_with c (y # zs)"

lemma split_on_ne [simp]: "split_on c s \<noteq> []"
  by (induction s) (auto split: list.splits)

lemma join_split_on [simp]: "join_with c (split_on c s) = s"
proof (induction s)
  case (Cons x xs)
  obtain y ys where ys: "split_on c xs = y # ys"
    by (cases "split_on c xs") auto
  then show ?case
    using Cons.IH by (cases ys) auto
qed simp

lemma split_on_append:
  "split_on c (xs @ c # ys) = split_on c xs @ split_on c ys"
  by (induction xs) (auto split: list.splits)

lemma split_on_no_sep: "w \<in> set (split_on c s) \<Longrightarrow> c \<notin> set w"
proof (induction s arbitrary: w)
  case (Cons x xs)
  then show ?case
    by (cases "split_on c xs") (auto split: if_splits)
qed auto

lemma split_on_no_sep_id: "c \<notin> set s \<Longrightarrow> split_on c s = [s]"
  by (induction s) auto

text \<open>The largest \<open>i < n\<close> with \<open>s[i] = c\<close>, if any (Python returns \<open>-1\<close>).\<close>

fun rfind_below :: "nat \<Rightarrow> pystr \<Rightarrow> nat \<Rightarrow> nat option" where
  "rfind_below c s 0 = None"
| "rfind_below c s (Suc n) =
     (if n < length s \<and> s ! n = c then Some n else rfind_below c s n)"

lemma rfind_below_SomeD:
  "rfind_below c s n = Some i \<Longrightarrow> i < n \<and> i < length s \<and> s ! i = c"
  by (induction n) (auto split: if_splits)

text \<open>\<open>s.replace(old, new)\<close> for a nonempty \<open>old\<close>: leftmost, non-overlapping.\<close>

function replace_all :: "pystr \<Rightarrow> pystr \<Rightarrow> pystr \<Rightarrow> pystr" where
  "replace_all old new s =
     (if old = [] \<or> s = [] then s
      else if prefix old s then new @ replace_all old new (drop (length old) s)
      else hd s # replace_all old new (tl s))"
  by pat_completeness auto
termination
  by (relation "measure (\<lambda>(old, new, s). length s)") (auto intro!: diff_less)

declare replace_all.simps [simp del]

lemma replace_all_Nil [simp]: "replace_all old new [] = []"
  by (simp add: replace_all.simps)

lemma replace_all_Cons:
  "old \<noteq> [] \<Longrightarrow> replace_all old new (c # s) =
     (if prefix old (c # s) then new @ replace_all old new (drop (length old - 1) s)
      else c # replace_all old new s)"
  by (subst replace_all.simps) (cases old, auto)

lemma replace_all_self: "old \<noteq> [] \<Longrightarrow> replace_all old new old = new"
  by (subst replace_all.simps) simp

lemma replace_all_id: "old \<noteq> [] \<Longrightarrow> hd old \<notin> set s \<Longrightarrow> replace_all old new s = s"
proof (induction s)
  case (Cons c s)
  have "\<not> prefix old (c # s)"
    using Cons.prems by (cases old) auto
  then show ?case
    using Cons by (simp add: replace_all_Cons)
qed simp

text \<open>UTF-8 length of a string of Unicode scalar values; decimal text of integers.\<close>

definition utf8_width :: "nat \<Rightarrow> nat" where
  "utf8_width c = (if c < 128 then 1 else if c < 2048 then 2 else if c < 65536 then 3 else 4)"

definition utf8_len :: "pystr \<Rightarrow> nat" where
  "utf8_len s = sum_list (map utf8_width s)"

lemma utf8_len_append [simp]: "utf8_len (a @ b) = utf8_len a + utf8_len b"
  by (simp add: utf8_len_def)

lemma length_le_utf8_len: "length s \<le> utf8_len s"
  by (induction s) (auto simp: utf8_len_def utf8_width_def)

fun nat_str :: "nat \<Rightarrow> pystr" where
  "nat_str n = (if n < 10 then [48 + n] else nat_str (n div 10) @ [48 + n mod 10])"

declare nat_str.simps [simp del]

definition int_str :: "int \<Rightarrow> pystr" where
  "int_str i = (if i < 0 then dash # nat_str (nat (- i)) else nat_str (nat i))"

subsection \<open>Exceptions\<close>

text \<open>
  The exceptions that leave a modelled function. \<open>ValueErr\<close>, \<open>KeyErr\<close>, \<open>RuntimeErr\<close> carry the
  message or key; \<open>IntegrityErr\<close> is a violated database constraint; \<open>ExecutionDenied\<close> a refusal by
  the execution policy; \<open>CreateJobErr\<close>, \<open>UnknownToolErr\<close>, \<open>BadToolErr\<close>, \<open>BadConfigErr\<close>,
  \<open>AmbiguousPromptErr\<close> the program's own classes; \<open>HttpErr\<close> an \<open>HTTPException\<close> with its
  status; \<open>PermanentErr\<close> a \<open>DiscordPermanentError\<close>; \<open>ExternalErr\<close> any failure of a service
  or library the program calls.
\<close>

datatype exc =
    ValueErr pystr
  | KeyErr pystr
  | RuntimeErr pystr
  | IntegrityErr pystr
  | ExecutionDenied pystr
  | CreateJobErr pystr
  | UnknownToolErr pystr
  | BadToolErr pystr
  | BadConfigErr pystr
  | AmbiguousPromptErr
  | HttpErr int pystr
  | PermanentErr int
  | ExternalErr pystr

type_synonym 'a result = "exc + 'a"

text \<open>\<open>ExecutionDenied\<close> and \<open>AmbiguousPrompt\<close> are subclasses of \<open>ValueError\<close>.\<close>

fun is_value_error :: "exc \<Rightarrow> bool" where
  "is_value_error (ValueErr m) = True"
| "is_value_error (ExecutionDenied m) = True"
| "is_value_error AmbiguousPromptErr = True"
| "is_value_error _ = False"

end
