(* ===== verification/Message_Builder.thy ===== *)
theory Message_Builder
  imports Prelude
begin

text \<open>
  \<open>dispatcher/message_builder.py\<close>: the splitting of a reply into Discord messages of at most
  2000 characters, with code fences closed at the end of a chunk and reopened in the next. The
  loop is shown to terminate, to respect the limit, to leave no fence open in a chunk it cut, and
  to lose no character of the reply.
\<close>

subsection \<open>Code fences\<close>

definition MAX_DISCORD_MESSAGE_LEN :: nat where
  "MAX_DISCORD_MESSAGE_LEN = 2000"

definition CLOSE_FENCE :: pystr where
  "CLOSE_FENCE = [nl, backtick, backtick, backtick]"

definition ticks :: pystr where
  "ticks = [backtick, backtick, backtick]"

text \<open>
  The class \<open>[\w+#.-]\<close>; \<open>uword\<close> is the Unicode word class for code points from 128 on. The
  pattern is anchored at a line start and never matches a line break, so it matches each line at
  most once.
\<close>

definition tag_char :: "(nat \<Rightarrow> bool) \<Rightarrow> nat \<Rightarrow> bool" where
  "tag_char uword c \<longleftrightarrow>
     (if c < 128 then (48 \<le> c \<and> c \<le> 57) \<or> (65 \<le> c \<and> c \<le> 90) \<or> (97 \<le> c \<and> c \<le> 122) \<or>
        c \<in> {underscore, 43, 35, dot, dash}
      else uword c)"

definition fence_of_line :: "(nat \<Rightarrow> bool) \<Rightarrow> pystr \<Rightarrow> pystr option" where
  "fence_of_line uword line =
     (let rest = dropWhile (\<lambda>c. c = space \<or> c = tab) line in
      if prefix ticks rest then Some (takeWhile (tag_char uword) (drop 3 rest)) else None)"

definition fence_step :: "(nat \<Rightarrow> bool) \<Rightarrow> pystr \<Rightarrow> pystr option \<Rightarrow> pystr option" where
  "fence_step uword line opener =
     (case fence_of_line uword line of
        None \<Rightarrow> opener
      | Some tag \<Rightarrow> (case opener of None \<Rightarrow> Some (ticks @ take 20 tag) | Some _ \<Rightarrow> None))"

definition open_fence :: "(nat \<Rightarrow> bool) \<Rightarrow> pystr \<Rightarrow> pystr option" where
  "open_fence uword txt = fold (fence_step uword) (split_on nl txt) None"

definition split_point :: "pystr \<Rightarrow> nat \<Rightarrow> nat \<Rightarrow> nat" where
  "split_point content limit flr =
     (case rfind_below nl content limit of
        Some i \<Rightarrow> if flr < i then i else limit
      | None \<Rightarrow> limit)"

lemma split_point_disj:
  "split_point c limit flr = limit \<or>
   (split_point c limit flr < limit \<and> flr < split_point c limit flr \<and>
    split_point c limit flr < length c \<and> c ! split_point c limit flr = nl)"
proof (cases "rfind_below nl c limit")
  case (Some i)
  then show ?thesis
    using rfind_below_SomeD [OF Some] by (cases "flr < i") (simp_all add: split_point_def)
qed (simp add: split_point_def)

lemma split_point_le: "split_point c limit flr \<le> limit"
  using split_point_disj [of c limit flr] by auto

lemma split_point_gt: "flr < limit \<Longrightarrow> flr < split_point c limit flr"
  using split_point_disj [of c limit flr] by auto

lemma fence_of_line_length: "fence_of_line uword l = Some tag \<Longrightarrow> length tag + 3 \<le> length l"
proof -
  assume a: "fence_of_line uword l = Some tag"
  let ?r = "dropWhile (\<lambda>c. c = space \<or> c = tab) l"
  have p: "prefix ticks ?r" and t: "tag = takeWhile (tag_char uword) (drop 3 ?r)"
    using a by (auto simp: fence_of_line_def Let_def split: if_splits)
  have "length tag \<le> length ?r - 3"
    unfolding t using length_takeWhile_le [of "tag_char uword" "drop 3 ?r"] by simp
  moreover have "3 \<le> length ?r"
    using prefix_length_le [OF p] by (simp add: ticks_def)
  moreover have "length ?r \<le> length l"
    by (rule length_dropWhile_le)
  ultimately show ?thesis
    by linarith
qed

text \<open>An open fence was read from some line of the text, so it is no longer than the text.\<close>

lemma fold_fence:
  assumes "fold (fence_step uword) ls op = Some f"
  shows "op = Some f \<or> (\<exists>l \<in> set ls. \<exists>tag. fence_of_line uword l = Some tag \<and> f = ticks @ take 20 tag)"
  using assms
proof (induction ls arbitrary: op)
  case (Cons l ls)
  from Cons.IH [of "fence_step uword l op"] Cons.prems
  consider "fence_step uword l op = Some f"
    | "\<exists>l \<in> set ls. \<exists>tag. fence_of_line uword l = Some tag \<and> f = ticks @ take 20 tag"
    by auto
  then show ?case
    by cases (auto simp: fence_step_def split: option.splits)
qed simp

lemma length_split_on: "l \<in> set (split_on c s) \<Longrightarrow> length l \<le> length s"
proof (induction s arbitrary: l)
  case (Cons x xs)
  then show ?case
    by (cases "split_on c xs") (fastforce split: if_splits)+
qed simp

lemma open_fence_length:
  assumes "open_fence uword txt = Some f"
  shows "3 \<le> length f" "length f \<le> 23" "length f \<le> length txt"
proof -
  obtain l tag where l: "l \<in> set (split_on nl txt)" "fence_of_line uword l = Some tag"
      "f = ticks @ take 20 tag"
    using fold_fence [of uword "split_on nl txt" None f] assms by (auto simp: open_fence_def)
  show "3 \<le> length f" "length f \<le> 23"
    using l by (auto simp: ticks_def)
  show "length f \<le> length txt"
    using l fence_of_line_length [OF l(2)] length_split_on [OF l(1)] by (simp add: ticks_def)
qed

subsection \<open>The splitting loop\<close>

text \<open>One cut: the position and the fence open there, with room for the closing fence.\<close>

definition cut_at :: "(nat \<Rightarrow> bool) \<Rightarrow> pystr \<Rightarrow> nat \<Rightarrow> nat \<times> pystr option" where
  "cut_at uword content reopened =
     (let split_at = split_point content MAX_DISCORD_MESSAGE_LEN reopened in
      case open_fence uword (take split_at content) of
        None \<Rightarrow> (split_at, None)
      | Some _ \<Rightarrow>
          let split_at = split_point content (MAX_DISCORD_MESSAGE_LEN - length CLOSE_FENCE) reopened in
          (split_at, open_fence uword (take split_at content)))"

definition reopen :: "pystr \<Rightarrow> pystr \<Rightarrow> pystr" where
  "reopen fence content =
     fence @ (if prefix [nl] content then [] else [nl])"

lemma cut_at_fence:
  "cut_at uword c r = (n, f) \<Longrightarrow> f = open_fence uword (take n c)"
  by (auto simp: cut_at_def Let_def split: option.splits)

lemma cut_at_le: "cut_at uword c r = (n, f) \<Longrightarrow> n \<le> 2000"
  using split_point_le [of c 2000 r] split_point_le [of c 1996 r]
  by (auto simp: cut_at_def Let_def MAX_DISCORD_MESSAGE_LEN_def CLOSE_FENCE_def
    split: option.splits)

lemma cut_at_le_fence: "cut_at uword c r = (n, Some f) \<Longrightarrow> n \<le> 1996"
  using split_point_le [of c 1996 r] by (auto simp: cut_at_def Let_def MAX_DISCORD_MESSAGE_LEN_def
    CLOSE_FENCE_def split: option.splits)

lemma cut_at_pos: "cut_at uword c r = (n, f) \<Longrightarrow> 0 < n"
  using split_point_disj [of c 2000 r] split_point_disj [of c 1996 r]
  by (auto simp: cut_at_def Let_def MAX_DISCORD_MESSAGE_LEN_def CLOSE_FENCE_def
    split: option.splits)

lemma cut_at_gt: "cut_at uword c r = (n, f) \<Longrightarrow> r < 1996 \<Longrightarrow> r < n"
  using split_point_gt [of r 2000 c] split_point_gt [of r 1996 c]
  by (auto simp: cut_at_def Let_def MAX_DISCORD_MESSAGE_LEN_def CLOSE_FENCE_def split: option.splits)

lemma cut_at_nl:
  assumes "cut_at uword c r = (n, Some f)" "n \<noteq> 1996"
  shows "r < n" "n < length c" "c ! n = nl"
proof -
  have "n = split_point c 1996 r"
    using assms(1) by (auto simp: cut_at_def Let_def MAX_DISCORD_MESSAGE_LEN_def CLOSE_FENCE_def
      split: option.splits)
  then show "r < n" "n < length c" "c ! n = nl"
    using split_point_disj [of c 1996 r] assms(2) by auto
qed

lemma prefix_drop_nth: "n < length c \<Longrightarrow> prefix [c ! n] (drop n c)"
  by (simp add: prefix_def Cons_nth_drop_Suc [symmetric])

lemma cut_progress:
  assumes "cut_at uword c r = (n, Some f)" "2000 < length c"
  shows "length (reopen f (drop n c) @ drop n c) < length c \<or>
         length (reopen f (drop n c) @ drop n c) = length c \<and> r < length f \<and> length f \<le> 23"
proof -
  have f: "length f \<le> 23" "length f \<le> n"
    using open_fence_length [of uword "take n c" f] cut_at_fence [OF assms(1)] by auto
  show ?thesis
  proof (cases "n = 1996")
    case True
    then show ?thesis
      using f assms(2) by (auto simp: reopen_def)
  next
    case False
    then have "prefix [nl] (drop n c)"
      using cut_at_nl [OF assms(1)] prefix_drop_nth [of n c] by auto
    then have "length (reopen f (drop n c) @ drop n c) = length f + (length c - n)"
      by (simp add: reopen_def)
    then show ?thesis
      using f assms cut_at_le [OF assms(1)] cut_at_nl(1) [OF assms(1) False] by auto
  qed
qed

text \<open>
  The \<open>while\<close> loop of \<open>build_message\<close>; \<open>reopened\<close> is the length of the fence line put back at
  the start of \<open>content\<close>. A pass either shortens \<open>content\<close>, or puts back all it took off: then
  the chunk is the bare fence line, and \<open>reopened\<close> grows, so the next cut lies further on.
\<close>

function build_loop :: "(nat \<Rightarrow> bool) \<Rightarrow> pystr \<Rightarrow> nat \<Rightarrow> pystr list" where
  "build_loop uword content reopened =
     (if length content \<le> MAX_DISCORD_MESSAGE_LEN
      then (if content = [] then [] else [content])
      else (case cut_at uword content reopened of
              (n, None) \<Rightarrow> take n content # build_loop uword (drop n content) 0
            | (n, Some fence) \<Rightarrow>
                (take n content @ CLOSE_FENCE) #
                build_loop uword (reopen fence (drop n content) @ drop n content) (length fence)))"
  by pat_completeness auto
termination
proof (relation "measures [\<lambda>(w, c, r). length c, \<lambda>(w, c, r). 2000 - r]", goal_cases)
  case (2 uword c r n f)
  then have "0 < fst (cut_at uword c r)"
    using cut_at_pos by (metis prod.collapse)
  moreover have "fst (cut_at uword c r) = n"
    using 2 by (metis fst_conv)
  ultimately show ?case
    using 2 by (auto simp: MAX_DISCORD_MESSAGE_LEN_def)
next
  case (3 uword c r n f fence)
  then have "cut_at uword c r = (n, Some fence)"
    by simp
  then show ?case
    using 3 cut_progress [of uword c r n fence] by (auto simp: MAX_DISCORD_MESSAGE_LEN_def)
qed simp

declare build_loop.simps [simp del]

definition build_message :: "(nat \<Rightarrow> bool) \<Rightarrow> pystr \<Rightarrow> pystr list" where
  "build_message uword content = build_loop uword content 0"

lemma build_loop_short:
  "length c \<le> 2000 \<Longrightarrow> build_loop uword c r = (if c = [] then [] else [c])"
  by (subst build_loop.simps) (simp add: MAX_DISCORD_MESSAGE_LEN_def)

lemma build_loop_plain:
  "2000 < length c \<Longrightarrow> cut_at uword c r = (n, None) \<Longrightarrow>
   build_loop uword c r = take n c # build_loop uword (drop n c) 0"
  by (subst build_loop.simps) (simp add: MAX_DISCORD_MESSAGE_LEN_def)

lemma build_loop_fence:
  "2000 < length c \<Longrightarrow> cut_at uword c r = (n, Some f) \<Longrightarrow>
   build_loop uword c r =
     (take n c @ CLOSE_FENCE) # build_loop uword (reopen f (drop n c) @ drop n c) (length f)"
  by (subst build_loop.simps) (simp add: MAX_DISCORD_MESSAGE_LEN_def)

text \<open>An induction over the passes of the loop.\<close>

lemma build_loop_induct [case_names short plain fence]:
  assumes "\<And>c r. length c \<le> 2000 \<Longrightarrow> P c r"
    "\<And>c r n. 2000 < length c \<Longrightarrow> cut_at uword c r = (n, None) \<Longrightarrow> P (drop n c) 0 \<Longrightarrow> P c r"
    "\<And>c r n f. 2000 < length c \<Longrightarrow> cut_at uword c r = (n, Some f) \<Longrightarrow>
       P (reopen f (drop n c) @ drop n c) (length f) \<Longrightarrow> P c r"
  shows "P c r"
  using assms
proof (induction uword c r rule: build_loop.induct)
  case (1 uword c r)
  show ?case
  proof (cases "length c \<le> 2000")
    case False
    then have big: "\<not> length c \<le> MAX_DISCORD_MESSAGE_LEN"
      by (simp add: MAX_DISCORD_MESSAGE_LEN_def)
    obtain n f where cut: "cut_at uword c r = (n, f)"
      by (cases "cut_at uword c r")
    show ?thesis
    proof (cases f)
      case None
      then have "P (drop n c) 0"
        using 1(1) [OF big cut [symmetric]] 1(3-5) by blast
      then show ?thesis
        using None 1(4) [of c r n] cut False by auto
    next
      case (Some g)
      then have "P (reopen g (drop n c) @ drop n c) (length g)"
        using 1(2) [OF big cut [symmetric]] 1(3-5) by blast
      then show ?thesis
        using Some 1(5) [of c r n g] cut False by auto
    qed
  qed (rule 1(3))
qed

lemma chunk_length:
  "ch \<in> set (build_loop uword c r) \<Longrightarrow> ch \<noteq> [] \<and> length ch \<le> 2000"
proof (induction c r rule: build_loop_induct [where uword = uword])
  case (short c r)
  then show ?case
    by (simp add: build_loop_short split: if_splits)
next
  case (plain c r n)
  then show ?case
    using cut_at_le [of uword c r n] cut_at_pos [of uword c r n] by (auto simp: build_loop_plain)
next
  case (fence c r n f)
  then show ?case
    using cut_at_le_fence [of uword c r n f] by (auto simp: build_loop_fence CLOSE_FENCE_def)
qed

lemma open_fence_close:
  "open_fence uword t = Some f \<Longrightarrow> open_fence uword (t @ CLOSE_FENCE) = None"
  by (simp add: open_fence_def CLOSE_FENCE_def split_on_append fence_step_def fence_of_line_def
      ticks_def)

lemma cut_closed:
  "ch \<in> set (butlast (build_loop uword c r)) \<Longrightarrow> open_fence uword ch = None"
proof (induction c r rule: build_loop_induct [where uword = uword])
  case (short c r)
  then show ?case
    by (simp add: build_loop_short split: if_splits)
next
  case (plain c r n)
  then show ?case
    using cut_at_fence [of uword c r n None] by (auto simp: build_loop_plain split: if_splits)
next
  case (fence c r n f)
  then show ?case
    using cut_at_fence [of uword c r n "Some f"] open_fence_close [of uword "take n c" f]
    by (auto simp: build_loop_fence split: if_splits)
qed

subsection \<open>No character is lost\<close>

text \<open>
  The specification of a split: \<open>splits op rest chunks\<close> holds when the chunks carry exactly \<open>rest\<close>,
  the first one after the reopened fence line \<open>op\<close>. A cut inside a code block appends the closing
  fence and puts the fence line before the next piece; nothing else is added, nothing dropped.
\<close>

inductive splits :: "(nat \<Rightarrow> bool) \<Rightarrow> pystr \<Rightarrow> pystr \<Rightarrow> pystr list \<Rightarrow> bool" for uword where
  splits_done: "splits uword [] [] []"
| splits_last: "op @ rest \<noteq> [] \<Longrightarrow> splits uword op rest [op @ rest]"
| splits_plain: "splits uword [] rest chunks \<Longrightarrow> splits uword op (piece @ rest) ((op @ piece) # chunks)"
| splits_fence: "splits uword (reopen f rest) rest chunks \<Longrightarrow>
     open_fence uword (op @ piece) = Some f \<Longrightarrow>
     splits uword op (piece @ rest) ((op @ piece @ CLOSE_FENCE) # chunks)"

inductive_cases splits_NilE: "splits uword op rest []"

text \<open>A cut never falls inside the fence line that was put back.\<close>

lemma cut_pieces:
  "length op \<le> n \<Longrightarrow> take n (op @ rest) = op @ take (n - length op) rest"
  "length op \<le> n \<Longrightarrow> take (n - length op) rest @ drop n (op @ rest) = rest"
  by simp_all

lemma loop_splits:
  "length op \<le> r + 1 \<Longrightarrow> r \<le> 23 \<Longrightarrow> c = op @ rest \<Longrightarrow> splits uword op rest (build_loop uword c r)"
proof (induction c r arbitrary: op rest rule: build_loop_induct [where uword = uword])
  case (short c r)
  then show ?case
    by (cases "c = []") (auto simp: build_loop_short intro: splits.intros)
next
  case (plain c r n)
  have le: "length op \<le> n"
    using plain cut_at_gt [of uword c r n None] by simp
  have "splits uword [] (drop n c) (build_loop uword (drop n c) 0)"
    by (rule plain(3)) simp_all
  then have "splits uword op (take (n - length op) rest @ drop n c)
      ((op @ take (n - length op) rest) # build_loop uword (drop n c) 0)"
    by (rule splits_plain)
  then show ?case
    using build_loop_plain [OF plain(1,2)] cut_pieces [OF le, of rest] plain(6) by simp
next
  case (fence c r n f)
  have f: "length f \<le> 23" "open_fence uword (take n c) = Some f"
    using cut_at_fence [OF fence(2)] open_fence_length [of uword "take n c" f] by auto
  have le: "length op \<le> n"
    using fence cut_at_gt [of uword c r n "Some f"] by simp
  have "splits uword (reopen f (drop n c)) (drop n c)
      (build_loop uword (reopen f (drop n c) @ drop n c) (length f))"
    using f by (intro fence(3)) (auto simp: reopen_def)
  then have "splits uword op (take (n - length op) rest @ drop n c)
      ((op @ take (n - length op) rest @ CLOSE_FENCE) #
       build_loop uword (reopen f (drop n c) @ drop n c) (length f))"
    using f(2) fence(6) cut_pieces(1) [OF le, of rest] by (intro splits_fence) simp_all
  then show ?case
    using build_loop_fence [OF fence(1,2)] cut_pieces [OF le, of rest] fence(6) by simp
qed

subsection \<open>Properties\<close>

text \<open>C13. 
  C1. Every chunk of a reply is a nonempty text of at most 2000 characters, every chunk but the last
  leaves no code fence open, and the chunks together carry the whole reply: each is the next piece
  of it, between a reopened fence line and a closing fence where a cut fell into a code block.
\<close>

theorem build_message_correct:
  "(\<forall>ch \<in> set (build_message uword content). ch \<noteq> [] \<and> length ch \<le> MAX_DISCORD_MESSAGE_LEN) \<and>
   (\<forall>ch \<in> set (butlast (build_message uword content)). open_fence uword ch = None) \<and>
   splits uword [] content (build_message uword content)"
  using chunk_length [of _ uword content 0] cut_closed [of _ uword content 0]
    loop_splits [of "[]" 0 content content uword]
  by (auto simp: build_message_def MAX_DISCORD_MESSAGE_LEN_def)

lemma build_message_witness:
  "build_message (\<lambda>_. False) (u ''ok'') = [u ''ok''] \<and>
   length (u ''ok'') \<le> MAX_DISCORD_MESSAGE_LEN \<and>
   splits (\<lambda>_. False) [] (u ''ok'') (build_message (\<lambda>_. False) (u ''ok''))"
proof -
  have b: "build_message (\<lambda>_. False) (u ''ok'') = [u ''ok'']"
    by (simp add: build_message_def build_loop_short)
  show ?thesis
    using build_message_correct [of "\<lambda>_. False" "u ''ok''"] unfolding b by simp
qed

end
