(* ===== verification/Rate_Limiter.thy ===== *)
theory Rate_Limiter
  imports Prelude Complex_Main
begin

text \<open>
  \<open>dispatcher/rate_limiter.py\<close>: the token bucket of every channel. Clock readings and token counts
  are rationals. \<open>asyncio.sleep(d)\<close> returns at some later time, never before \<open>d\<close> has passed; how much
  later is an input of each call. The lock of a channel makes its calls sequential, so the calls
  of a run are applied one after the other.
\<close>

record limiter =
  l_capacity :: rat
  l_refill :: rat
  l_tokens :: "(pystr \<times> rat) list"
  l_last :: "(pystr \<times> rat) list"
  l_cooloff :: "(pystr \<times> rat) list"

definition new_limiter :: "rat \<Rightarrow> rat \<Rightarrow> limiter" where
  "new_limiter capacity refill_per_second =
     \<lparr>l_capacity = capacity, l_refill = refill_per_second, l_tokens = [], l_last = [], l_cooloff = []\<rparr>"

definition dict_get :: "(pystr \<times> rat) list \<Rightarrow> pystr \<Rightarrow> rat \<Rightarrow> rat" where
  "dict_get m k dflt = (case map_of m k of None \<Rightarrow> dflt | Some v \<Rightarrow> v)"

text \<open>Assignment to a key; the newest binding of a key is the first.\<close>

definition dict_set :: "(pystr \<times> rat) list \<Rightarrow> pystr \<Rightarrow> rat \<Rightarrow> (pystr \<times> rat) list" where
  "dict_set m k v = (k, v) # filter (\<lambda>(k', _). k' \<noteq> k) m"

definition note_retry_after :: "rat \<Rightarrow> pystr \<Rightarrow> rat \<Rightarrow> limiter \<Rightarrow> limiter" where
  "note_retry_after now ch seconds l = l\<lparr>l_cooloff := dict_set (l_cooloff l) ch (now + max 0 seconds)\<rparr>"

text \<open>
  \<open>acquire\<close>, entered at time \<open>now\<close>; \<open>o1\<close> and \<open>o2\<close> are the delays beyond the two requested sleeps.
  Returns the state and the clock at which the caller may send.
\<close>

definition cooled :: "limiter \<Rightarrow> pystr \<Rightarrow> rat \<Rightarrow> rat \<Rightarrow> rat" where
  "cooled l ch now0 o1 =
     (let cooloff = dict_get (l_cooloff l) ch 0 in if now0 < cooloff then cooloff + o1 else now0)"

definition refilled :: "limiter \<Rightarrow> pystr \<Rightarrow> rat \<Rightarrow> rat" where
  "refilled l ch now =
     (let tokens = dict_get (l_tokens l) ch (l_capacity l);
          last = dict_get (l_last l) ch now
      in min (l_capacity l) (tokens + (now - last) * l_refill l))"

definition acquire :: "rat \<Rightarrow> rat \<Rightarrow> rat \<Rightarrow> pystr \<Rightarrow> limiter \<Rightarrow> limiter \<times> rat" where
  "acquire now0 o1 o2 ch l =
     (let now = cooled l ch now0 o1;
          tokens = refilled l ch now;
          (tokens, now) = (if tokens < 1 then (1, now + (1 - tokens) / l_refill l + o2)
                           else (tokens, now))
      in (l\<lparr>l_tokens := dict_set (l_tokens l) ch (tokens - 1), l_last := dict_set (l_last l) ch now\<rparr>, now))"

lemma acquire_wait:
  "refilled l ch (cooled l ch t o1) < 1 \<Longrightarrow> w = cooled l ch t o1 + (1 - refilled l ch (cooled l ch t o1)) / l_refill l + o2 \<Longrightarrow>
   acquire t o1 o2 ch l =
     (l\<lparr>l_tokens := dict_set (l_tokens l) ch 0, l_last := dict_set (l_last l) ch w\<rparr>, w)"
  by (simp add: acquire_def Let_def)

lemma acquire_now:
  "\<not> refilled l ch (cooled l ch t o1) < 1 \<Longrightarrow>
   acquire t o1 o2 ch l =
     (l\<lparr>l_tokens := dict_set (l_tokens l) ch (refilled l ch (cooled l ch t o1) - 1),
        l_last := dict_set (l_last l) ch (cooled l ch t o1)\<rparr>, cooled l ch t o1)"
  by (simp add: acquire_def Let_def)

lemma dict_get_set [simp]: "dict_get (dict_set m k v) k' d = (if k = k' then v else dict_get m k' d)"
proof -
  have "map_of (filter (\<lambda>(a, b). a \<noteq> k) m) k' = map_of m k'" if "k \<noteq> k'"
    using that by (induction m) auto
  then show ?thesis
    by (simp add: dict_get_def dict_set_def)
qed

subsection \<open>Runs\<close>

text \<open>
  What happens on a limiter: a send permit is asked for \<open>delay\<close> after the previous operation
  ended, or the server announces a cool-off. \<open>run\<close> returns the clock and the times of the permits
  given for the channel.
\<close>

datatype limiter_op = Acquire pystr rat rat rat | RetryAfter pystr rat rat

fun op_ok :: "limiter_op \<Rightarrow> bool" where
  "op_ok (Acquire ch d o1 o2) = (0 \<le> d \<and> 0 \<le> o1 \<and> 0 \<le> o2)"
| "op_ok (RetryAfter ch d s) = (0 \<le> d)"

fun run :: "pystr \<Rightarrow> limiter_op list \<Rightarrow> rat \<times> limiter \<Rightarrow> rat list \<times> rat \<times> limiter" where
  "run ch [] (t, l) = ([], t, l)"
| "run ch (Acquire c d o1 o2 # ops) (t, l) =
     (let (l', t') = acquire (t + d) o1 o2 c l;
          (sent, st) = run ch ops (t', l')
      in (if c = ch then t' # sent else sent, st))"
| "run ch (RetryAfter c d s # ops) (t, l) = run ch ops (t + d, note_retry_after (t + d) c s l)"

text \<open>The bucket of a channel: \<open>None\<close> before its first permit.\<close>

definition bucket :: "pystr \<Rightarrow> limiter \<Rightarrow> (rat \<times> rat) option" where
  "bucket ch l =
     (case (map_of (l_tokens l) ch, map_of (l_last l) ch) of
        (Some n, Some t) \<Rightarrow> Some (n, t) | _ \<Rightarrow> None)"

lemma map_of_dict_set [simp]: "map_of (dict_set m k v) k' = (if k = k' then Some v else map_of m k')"
proof -
  have "map_of (filter (\<lambda>(a, b). a \<noteq> k) m) k' = map_of m k'" if "k \<noteq> k'"
    using that by (induction m) auto
  then show ?thesis
    by (simp add: dict_set_def)
qed

lemma acquire_other:
  "c \<noteq> ch \<Longrightarrow> bucket ch (fst (acquire t o1 o2 c l)) = bucket ch l"
  by (cases "refilled l c (cooled l c t o1) < 1") (simp_all add: acquire_wait acquire_now bucket_def)

lemma acquire_rates [simp]:
  "l_capacity (fst (acquire t o1 o2 c l)) = l_capacity l"
  "l_refill (fst (acquire t o1 o2 c l)) = l_refill l"
  by (cases "refilled l c (cooled l c t o1) < 1"; simp add: acquire_wait acquire_now)+

lemma cooled_ge: "0 \<le> o1 \<Longrightarrow> t \<le> cooled l c t o1" "0 \<le> o1 \<Longrightarrow> dict_get (l_cooloff l) c 0 \<le> cooled l c t o1"
  by (auto simp: cooled_def Let_def)

lemma acquire_cooled:
  assumes "0 \<le> o2" "0 < l_refill l"
  shows "cooled l c t o1 \<le> snd (acquire t o1 o2 c l)"
proof (cases "refilled l c (cooled l c t o1) < 1")
  case True
  then have "0 \<le> (1 - refilled l c (cooled l c t o1)) / l_refill l"
    using assms by simp
  then show ?thesis
    using assms by (simp add: acquire_wait [OF True refl])
qed (simp add: acquire_now)

text \<open>One permit: the credit \<open>tokens\<close> grows at most at the refill rate and pays one unit.\<close>

lemma acquire_first:
  assumes "map_of (l_tokens l) ch = None" "map_of (l_last l) ch = None" "1 \<le> l_capacity l"
  shows "bucket ch (fst (acquire t o1 o2 ch l)) = Some (l_capacity l - 1, snd (acquire t o1 o2 ch l))"
proof -
  have "refilled l ch (cooled l ch t o1) = l_capacity l"
    using assms by (simp add: refilled_def dict_get_def)
  then show ?thesis
    using assms by (simp add: acquire_now bucket_def)
qed

lemma acquire_next:
  assumes "bucket ch l = Some (n, s)" "0 \<le> o2" "1 \<le> l_capacity l" "0 < l_refill l"
  obtains m where "bucket ch (fst (acquire t o1 o2 ch l)) = Some (m, snd (acquire t o1 o2 ch l))"
    "0 \<le> m" "m \<le> l_capacity l - 1"
    "m \<le> n + (snd (acquire t o1 o2 ch l) - s) * l_refill l - 1"
proof -
  let ?now = "cooled l ch t o1"
  let ?tk = "refilled l ch ?now"
  have b: "map_of (l_tokens l) ch = Some n" "map_of (l_last l) ch = Some s"
    using assms(1) by (auto simp: bucket_def split: option.splits)
  then have tk: "?tk = min (l_capacity l) (n + (?now - s) * l_refill l)"
    by (simp add: refilled_def dict_get_def)
  show thesis
  proof (cases "?tk < 1")
    case True
    let ?w = "?now + (1 - ?tk) / l_refill l + o2"
    have t1: "?tk = n + (?now - s) * l_refill l"
      using True tk assms(3) by (auto simp: min_def split: if_splits)
    have "(?w - s) * l_refill l = (?now - s) * l_refill l + (1 - ?tk) + o2 * l_refill l"
      using assms(4) by (simp add: field_simps)
    then have "0 \<le> n + (?w - s) * l_refill l - 1"
      using t1 assms(2,4) by simp
    then show thesis
      using that [of 0] acquire_wait [OF True refl, of o2] assms(3) by (simp add: bucket_def)
  next
    case False
    then show thesis
      using that [of "?tk - 1"] tk by (simp add: acquire_now bucket_def)
  qed
qed

subsection \<open>The send rate of a channel\<close>

definition limiter_ok :: "pystr \<Rightarrow> limiter \<Rightarrow> bool" where
  "limiter_ok ch l \<longleftrightarrow>
     1 \<le> l_capacity l \<and> 0 < l_refill l \<and>
     (case (map_of (l_tokens l) ch, map_of (l_last l) ch) of
        (None, None) \<Rightarrow> True
      | (Some n, Some s) \<Rightarrow> 0 \<le> n \<and> n \<le> l_capacity l - 1
      | _ \<Rightarrow> False)"

lemma acquire_ok:
  assumes "limiter_ok ch l" "0 \<le> o2"
  shows "limiter_ok ch (fst (acquire t o1 o2 c l))"
proof (cases "c = ch")
  case True
  have k: "1 \<le> l_capacity l" "0 < l_refill l"
    using assms by (auto simp: limiter_ok_def)
  have "\<exists>m s. bucket ch (fst (acquire t o1 o2 ch l)) = Some (m, s) \<and> 0 \<le> m \<and> m \<le> l_capacity l - 1"
  proof (cases "bucket ch l")
    case None
    then have "map_of (l_tokens l) ch = None" "map_of (l_last l) ch = None"
      using assms by (auto simp: bucket_def limiter_ok_def split: option.splits)
    then show ?thesis
      using acquire_first [of l ch t o1 o2] k by auto
  next
    case (Some b)
    then show ?thesis
      using acquire_next [of ch l "fst b" "snd b" o2 t o1] assms(2) k by (metis prod.collapse)
  qed
  then show ?thesis
    using True k by (auto simp: limiter_ok_def bucket_def split: option.splits)
next
  case False
  then have "map_of (l_tokens (fst (acquire t o1 o2 c l))) ch = map_of (l_tokens l) ch"
    "map_of (l_last (fst (acquire t o1 o2 c l))) ch = map_of (l_last l) ch"
    by (cases "refilled l c (cooled l c t o1) < 1"; simp add: acquire_wait acquire_now)+
  then show ?thesis
    using assms by (auto simp: limiter_ok_def split: option.splits)
qed

lemma note_retry_same [simp]:
  "limiter_ok ch (note_retry_after t c s l) = limiter_ok ch l"
  "bucket ch (note_retry_after t c s l) = bucket ch l"
  "l_refill (note_retry_after t c s l) = l_refill l"
  "l_capacity (note_retry_after t c s l) = l_capacity l"
  by (auto simp: note_retry_after_def limiter_ok_def bucket_def split: option.splits)

text \<open>
  Permits after a first one cost one token each: with \<open>n\<close> tokens left at time \<open>s\<close>, the permits up to
  the last one, at time \<open>e\<close>, number at most \<open>n + (e - s) * refill\<close>.
\<close>

lemma permits_from:
  assumes "run ch ops (t, l) = (sent, st)" "limiter_ok ch l" "bucket ch l = Some (n, s)"
    "\<forall>x \<in> set ops. op_ok x" "sent \<noteq> []"
  shows "of_nat (length sent) \<le> n + (last sent - s) * l_refill l"
  using assms
proof (induction ch ops "(t, l)" arbitrary: t l sent st n s rule: run.induct)
  case (2 ch c d o1 o2 ops t l)
  let ?a = "acquire (t + d) o1 o2 c l"
  obtain l' t' where a: "?a = (l', t')"
    by (cases ?a)
  obtain sent' st' where r: "run ch ops (t', l') = (sent', st')"
    by (cases "run ch ops (t', l')")
  have ok: "limiter_ok ch l'" and rf: "l_refill l' = l_refill l"
    using acquire_ok [OF 2(3), of o2 "t + d" o1 c] 2(5) a acquire_rates(2) [of "t + d" o1 o2 c l] by auto
  have ih: "bucket ch l' = Some (n', s') \<Longrightarrow> sent' \<noteq> [] \<Longrightarrow>
      of_nat (length sent') \<le> n' + (last sent' - s') * l_refill l" for n' s'
    using 2(1) [OF refl a [symmetric] r ok] 2(5) rf by simp
  show ?case
  proof (cases "c = ch")
    case True
    obtain m where m: "bucket ch l' = Some (m, t')" "m \<le> n + (t' - s) * l_refill l - 1" "0 \<le> m"
      using acquire_next [OF 2(4), of o2 "t + d" o1] 2(3,5) a True by (auto simp: limiter_ok_def)
    have sent: "sent = t' # sent'"
      using 2(2) a r True by simp
    show ?thesis
    proof (cases "sent' = []")
      case False
      then have "of_nat (length sent') \<le> m + (last sent' - t') * l_refill l"
        using ih m by simp
      then show ?thesis
        using m sent False by (simp add: left_diff_distrib)
    qed (use m sent in simp)
  next
    case False
    then show ?thesis
      using 2(2,4,6) a r ih [of n s] acquire_other [of c ch "t + d" o1 o2 l] by simp
  qed
qed auto

text \<open>The same from a limiter that has not served the channel yet.\<close>

lemma permits_window:
  assumes "run ch ops (t, l) = (sent, st)" "limiter_ok ch l" "bucket ch l = None"
    "\<forall>x \<in> set ops. op_ok x" "sent \<noteq> []"
  shows "of_nat (length sent) \<le> l_capacity l + (last sent - hd sent) * l_refill l"
  using assms
proof (induction ch ops "(t, l)" arbitrary: t l sent st rule: run.induct)
  case (2 ch c d o1 o2 ops t l)
  let ?a = "acquire (t + d) o1 o2 c l"
  obtain l' t' where a: "?a = (l', t')"
    by (cases ?a)
  obtain sent' st' where r: "run ch ops (t', l') = (sent', st')"
    by (cases "run ch ops (t', l')")
  have ok: "limiter_ok ch l'" and rf: "l_refill l' = l_refill l" "l_capacity l' = l_capacity l"
    using acquire_ok [OF 2(3), of o2 "t + d" o1 c] 2(5) a acquire_rates [of "t + d" o1 o2 c l] by auto
  show ?case
  proof (cases "c = ch")
    case True
    have n: "map_of (l_tokens l) ch = None" "map_of (l_last l) ch = None" "1 \<le> l_capacity l"
      using 2(3,4) by (auto simp: limiter_ok_def bucket_def split: option.splits)
    have b: "bucket ch l' = Some (l_capacity l - 1, t')"
      using acquire_first [OF n, of "t + d" o1 o2] a True by simp
    have sent: "sent = t' # sent'"
      using 2(2) a r True by simp
    show ?thesis
    proof (cases "sent' = []")
      case False
      then show ?thesis
        using permits_from [OF r ok b _ False] 2(5) rf sent by simp
    qed (use sent n in simp)
  next
    case False
    then show ?thesis
      using 2 a r ok rf acquire_other [of c ch "t + d" o1 o2 l] by simp
  qed
qed auto

text \<open>C29. The limiter bounds the send rate of a channel: the permits a fresh limiter gives to a channel, from
  the first to the last, number at most the capacity plus the refill of the time between them, whatever
  other channels, delays and server cool-offs do.\<close>

theorem channel_rate_is_bounded:
  assumes "run ch ops (t, new_limiter capacity refill) = (sent, st)" "1 \<le> capacity" "0 < refill"
    "\<forall>x \<in> set ops. op_ok x" "sent \<noteq> []"
  shows "of_nat (length sent) \<le> capacity + (last sent - hd sent) * refill"
  using permits_window [OF assms(1) _ _ assms(4,5)] assms(2,3)
  by (simp add: limiter_ok_def bucket_def new_limiter_def)

theorem channel_rate_is_bounded_witness:
  "of_nat (length [0, 1 :: rat]) \<le> (1 :: rat) + (last [0, 1] - hd [0, 1]) * 1"
proof -
  have "fst (run (u ''c'') [Acquire (u ''c'') 0 0 0, Acquire (u ''c'') 0 0 0] (0, new_limiter 1 1)) = [0, 1]"
    by (simp add: acquire_def cooled_def refilled_def dict_get_def dict_set_def new_limiter_def)
  then show ?thesis
    using channel_rate_is_bounded [of "u ''c''" "[Acquire (u ''c'') 0 0 0, Acquire (u ''c'') 0 0 0]" 0 1 1 "[0, 1]"]
    by (cases "run (u ''c'') [Acquire (u ''c'') 0 0 0, Acquire (u ''c'') 0 0 0] (0, new_limiter 1 1)") auto
qed

end
