(* ===== verification/Config.thy ===== *)
theory Config
  imports Prelude
begin

text \<open>
  \<open>config.py\<close> and \<open>security/quotas.py\<close>: the validated settings of a process, the field
  constraints and validators that the constructor runs, the two comma-separated identifier
  sets, and the lookup of a quota (process environment first, then settings, then default).
\<close>

subsection \<open>Settings\<close>

datatype isolation = TrustedHost | UidPool | UserNamespace | PlatformEquivalent

datatype log_level = LogDebug | LogInfo | LogWarning | LogError | LogCritical

text \<open>The float \<open>JANITOR_SWEEP_INTERVAL_SECONDS\<close> is kept in milliseconds.\<close>

record settings =
  DISCORD_TOKEN :: pystr
  DATABASE_URL :: pystr
  REDIS_URL :: pystr
  DEPLOYMENT_SECRET_KEY :: pystr
  SESSION_ISOLATION_MODE :: isolation
  SESSION_CREATE_TIMEOUT_SECONDS :: int
  RUNNER_JOB_PEL_IDLE_MS :: int
  RUNNER_CONTROL_BIND :: pystr
  RUNNER_CONTROL_AUTH :: pystr
  ENABLE_MESSAGE_CONTENT_INPUT :: bool
  EMERGENCY_STOP :: int
  PLATFORM_ADMIN_USER_IDS :: pystr
  ALLOWED_GUILD_IDS :: pystr
  DISCORD_GUILD_COMMANDS_ONLY :: bool
  RUNNER_HOST_ID :: pystr
  RUNNER_HEARTBEAT_INTERVAL_SECONDS :: int
  RUNNER_HEARTBEAT_STALE_SECONDS :: int
  RUNNER_DRAIN_TIMEOUT_SECONDS :: int
  RUNNER_JOB_MAX_DELIVERIES :: int
  DISPATCHER_PEL_IDLE_MS :: int
  DISPATCHER_MAX_DELIVERIES :: int
  OUTBOX_BATCH_SIZE :: int
  OUTBOX_IDLE_SLEEP_MS :: int
  OUTBOX_MAX_ATTEMPTS :: int
  OUTBOX_BASE_BACKOFF_MS :: int
  OUTBOX_MAX_BACKOFF_MS :: int
  RESUME_STUCK_THRESHOLD_SECONDS :: int
  STOP_STUCK_THRESHOLD_SECONDS :: int
  INPUT_IDEMPOTENCY_RETENTION :: pystr
  DEFAULT_IDLE_TIMEOUT_MINUTES :: int
  DEFAULT_ARCHIVE_TIMEOUT_MINUTES :: int
  DEFAULT_STOP_TIMEOUT_HOURS :: int
  EVENT_RETENTION_DAYS :: int
  OUTBOX_RETENTION_DAYS :: int
  ORPHAN_RECOVERY_TTL_HOURS :: int
  MAX_ACTIVE_SESSIONS_PER_USER :: int
  MAX_OUTPUT_BYTES_PER_SESSION_PER_MIN :: int
  MAX_INPUT_MESSAGES_PER_SESSION_PER_MIN :: int
  MAX_INPUT_BYTES_PER_MESSAGE :: int
  MAX_INPUT_BYTES_PER_SESSION_PER_MIN :: int
  BOT_METRICS_BIND :: pystr
  RUNNER_METRICS_BIND :: pystr
  DISPATCHER_METRICS_BIND :: pystr
  JANITOR_METRICS_BIND :: pystr
  JANITOR_SWEEP_INTERVAL_MS :: int
  REDIS_STREAM_RETENTION_HOURS :: int
  RETENTION_BATCH_SIZE :: int
  LOG_LEVEL :: log_level
  DB_POOL_SIZE :: int
  DB_MAX_OVERFLOW :: int

text \<open>The settings of a process that gives the required fields only.\<close>

definition default_settings :: "pystr \<Rightarrow> pystr \<Rightarrow> pystr \<Rightarrow> pystr \<Rightarrow> isolation \<Rightarrow> settings" where
  "default_settings token db_url redis_url key mode =
     \<lparr>DISCORD_TOKEN = token, DATABASE_URL = db_url, REDIS_URL = redis_url,
      DEPLOYMENT_SECRET_KEY = key, SESSION_ISOLATION_MODE = mode,
      SESSION_CREATE_TIMEOUT_SECONDS = 60, RUNNER_JOB_PEL_IDLE_MS = 60000,
      RUNNER_CONTROL_BIND = u ''127.0.0.1:8788'', RUNNER_CONTROL_AUTH = [],
      ENABLE_MESSAGE_CONTENT_INPUT = False, EMERGENCY_STOP = 0, PLATFORM_ADMIN_USER_IDS = [],
      ALLOWED_GUILD_IDS = [], DISCORD_GUILD_COMMANDS_ONLY = True, RUNNER_HOST_ID = u ''local-dev'',
      RUNNER_HEARTBEAT_INTERVAL_SECONDS = 5, RUNNER_HEARTBEAT_STALE_SECONDS = 15,
      RUNNER_DRAIN_TIMEOUT_SECONDS = 25, RUNNER_JOB_MAX_DELIVERIES = 5, DISPATCHER_PEL_IDLE_MS = 60000,
      DISPATCHER_MAX_DELIVERIES = 5, OUTBOX_BATCH_SIZE = 64, OUTBOX_IDLE_SLEEP_MS = 200,
      OUTBOX_MAX_ATTEMPTS = 50, OUTBOX_BASE_BACKOFF_MS = 100, OUTBOX_MAX_BACKOFF_MS = 60000,
      RESUME_STUCK_THRESHOLD_SECONDS = 300, STOP_STUCK_THRESHOLD_SECONDS = 600,
      INPUT_IDEMPOTENCY_RETENTION = u ''30d'', DEFAULT_IDLE_TIMEOUT_MINUTES = 60,
      DEFAULT_ARCHIVE_TIMEOUT_MINUTES = 120, DEFAULT_STOP_TIMEOUT_HOURS = 24,
      EVENT_RETENTION_DAYS = 90, OUTBOX_RETENTION_DAYS = 7, ORPHAN_RECOVERY_TTL_HOURS = 24,
      MAX_ACTIVE_SESSIONS_PER_USER = 10, MAX_OUTPUT_BYTES_PER_SESSION_PER_MIN = 262144,
      MAX_INPUT_MESSAGES_PER_SESSION_PER_MIN = 20, MAX_INPUT_BYTES_PER_MESSAGE = 8192,
      MAX_INPUT_BYTES_PER_SESSION_PER_MIN = 163840, BOT_METRICS_BIND = u ''127.0.0.1:9101'',
      RUNNER_METRICS_BIND = u ''127.0.0.1:9102'', DISPATCHER_METRICS_BIND = u ''127.0.0.1:9103'',
      JANITOR_METRICS_BIND = u ''127.0.0.1:9104'', JANITOR_SWEEP_INTERVAL_MS = 60000,
      REDIS_STREAM_RETENTION_HOURS = 24, RETENTION_BATCH_SIZE = 1000, LOG_LEVEL = LogInfo,
      DB_POOL_SIZE = 20, DB_MAX_OVERFLOW = 10\<rparr>"

definition placeholders :: "pystr list" where
  "placeholders = [u '''', u ''REPLACE_ME_WITH_RANDOM'', u ''REPLACE_ME_WITH_FERNET_KEY'',
     u ''DISCORD_TOKEN'', u ''DEPLOYMENT_SECRET_KEY'']"

subsection \<open>Validators\<close>

definition reject_placeholders :: "pystr \<Rightarrow> pystr result" where
  "reject_placeholders v =
     (if v \<in> set placeholders then Inl (ValueErr (u ''field value is a placeholder or empty''))
      else Inr v)"

text \<open>\<open>fernet_ok\<close> tells whether \<open>Fernet(k)\<close> accepts a key.\<close>

definition validate_fernet_key :: "(pystr \<Rightarrow> bool) \<Rightarrow> pystr \<Rightarrow> pystr result" where
  "validate_fernet_key fernet_ok v =
     (if v \<in> set placeholders then
        Inl (ValueErr (u ''DEPLOYMENT_SECRET_KEY is a placeholder or empty''))
      else if list_all (\<lambda>k. fernet_ok (py_strip k)) (split_on 44 v) then Inr v
      else Inl (ValueErr (u ''DEPLOYMENT_SECRET_KEY is not a valid Fernet key CSV'')))"

text \<open>
  Decimal digits: \<open>int\<close> of an ASCII digit string. \<open>str.isdigit\<close> also accepts digits of other
  scripts, whose values the parameter \<open>udigit\<close> gives; a digit without a decimal value makes
  \<open>int\<close> raise, which the validator reports in the same way as a value it refuses.
\<close>

definition digit_of :: "(nat \<Rightarrow> nat option) \<Rightarrow> nat \<Rightarrow> nat option" where
  "digit_of udigit c =
     (if c < 128 then if 48 \<le> c \<and> c \<le> 57 then Some (c - 48) else None else udigit c)"

fun int_of_digits :: "(nat \<Rightarrow> nat option) \<Rightarrow> nat \<Rightarrow> pystr \<Rightarrow> nat option" where
  "int_of_digits udigit acc [] = Some acc"
| "int_of_digits udigit acc (c # s) =
     (case digit_of udigit c of None \<Rightarrow> None
      | Some d \<Rightarrow> int_of_digits udigit (10 * acc + d) s)"

definition validate_retention :: "(nat \<Rightarrow> nat option) \<Rightarrow> pystr \<Rightarrow> pystr result" where
  "validate_retention udigit v =
     (if v = u ''never'' \<or>
         (v \<noteq> [] \<and> last v = 100 \<and> butlast v \<noteq> [] \<and>
          (case int_of_digits udigit 0 (butlast v) of None \<Rightarrow> False | Some n \<Rightarrow> 0 < n))
      then Inr v
      else Inl (ValueErr (u ''INPUT_IDEMPOTENCY_RETENTION must be positive days, e.g. 30d, or never'')))"

definition upper_ascii :: "nat \<Rightarrow> nat" where
  "upper_ascii c = (if 97 \<le> c \<and> c \<le> 122 then c - 32 else c)"

definition log_level_of :: "pystr \<Rightarrow> log_level option" where
  "log_level_of v =
     map_of [(u ''DEBUG'', LogDebug), (u ''INFO'', LogInfo), (u ''WARNING'', LogWarning),
             (u ''ERROR'', LogError), (u ''CRITICAL'', LogCritical)] v"

text \<open>
  \<open>value.strip().upper()\<close>; \<open>upper\<close> is Python's case mapping, which agrees with \<open>upper_ascii\<close> on
  ASCII letters.
\<close>

definition normalize_log_level :: "(pystr \<Rightarrow> pystr) \<Rightarrow> pystr \<Rightarrow> log_level result" where
  "normalize_log_level upper v =
     (case log_level_of (upper (py_strip v)) of
        Some l \<Rightarrow> Inr l
      | None \<Rightarrow> Inl (ValueErr (u ''LOG_LEVEL'')))"

text \<open>The numeric field constraints \<open>gt=0\<close>, \<open>ge\<close> and \<open>le\<close>.\<close>

definition fields_in_range :: "settings \<Rightarrow> bool" where
  "fields_in_range s \<longleftrightarrow>
     list_all (\<lambda>f. 0 < f s)
       [SESSION_CREATE_TIMEOUT_SECONDS, RUNNER_JOB_PEL_IDLE_MS, RUNNER_HEARTBEAT_INTERVAL_SECONDS,
        RUNNER_HEARTBEAT_STALE_SECONDS, RUNNER_DRAIN_TIMEOUT_SECONDS, RUNNER_JOB_MAX_DELIVERIES,
        DISPATCHER_PEL_IDLE_MS, DISPATCHER_MAX_DELIVERIES, OUTBOX_BATCH_SIZE,
        OUTBOX_IDLE_SLEEP_MS, OUTBOX_MAX_ATTEMPTS, OUTBOX_BASE_BACKOFF_MS, OUTBOX_MAX_BACKOFF_MS,
        RESUME_STUCK_THRESHOLD_SECONDS, STOP_STUCK_THRESHOLD_SECONDS,
        DEFAULT_IDLE_TIMEOUT_MINUTES, DEFAULT_ARCHIVE_TIMEOUT_MINUTES, DEFAULT_STOP_TIMEOUT_HOURS,
        EVENT_RETENTION_DAYS, OUTBOX_RETENTION_DAYS, ORPHAN_RECOVERY_TTL_HOURS,
        MAX_ACTIVE_SESSIONS_PER_USER, MAX_OUTPUT_BYTES_PER_SESSION_PER_MIN,
        MAX_INPUT_MESSAGES_PER_SESSION_PER_MIN, MAX_INPUT_BYTES_PER_MESSAGE,
        MAX_INPUT_BYTES_PER_SESSION_PER_MIN, JANITOR_SWEEP_INTERVAL_MS,
        REDIS_STREAM_RETENTION_HOURS, RETENTION_BATCH_SIZE, DB_POOL_SIZE] \<and>
     EMERGENCY_STOP s \<in> {0, 1} \<and> OUTBOX_BATCH_SIZE s \<le> 10000 \<and>
     RETENTION_BATCH_SIZE s \<le> 10000 \<and> 0 \<le> DB_MAX_OVERFLOW s"

text \<open>A \<open>Settings\<close> instance exists only when every validator accepts its field.\<close>

definition settings_valid :: "(pystr \<Rightarrow> bool) \<Rightarrow> (nat \<Rightarrow> nat option) \<Rightarrow> settings \<Rightarrow> bool" where
  "settings_valid fernet_ok udigit s \<longleftrightarrow>
     \<not> isl (reject_placeholders (DISCORD_TOKEN s)) \<and> \<not> isl (reject_placeholders (DATABASE_URL s)) \<and>
     \<not> isl (reject_placeholders (REDIS_URL s)) \<and>
     \<not> isl (validate_fernet_key fernet_ok (DEPLOYMENT_SECRET_KEY s)) \<and>
     \<not> isl (validate_retention udigit (INPUT_IDEMPOTENCY_RETENTION s)) \<and> fields_in_range s"

subsection \<open>Comma-separated identifier sets\<close>

definition csv_ids :: "pystr \<Rightarrow> pystr list" where
  "csv_ids v = map py_strip (filter (\<lambda>x. py_strip x \<noteq> []) (split_on 44 v))"

definition platform_admin_user_ids :: "settings \<Rightarrow> pystr list" where
  "platform_admin_user_ids s = csv_ids (PLATFORM_ADMIN_USER_IDS s)"

definition allowed_guild_ids :: "settings \<Rightarrow> pystr list" where
  "allowed_guild_ids s = csv_ids (ALLOWED_GUILD_IDS s)"

lemma csv_ids_ne: "x \<in> set (csv_ids v) \<Longrightarrow> x \<noteq> []"
  by (auto simp: csv_ids_def)

lemma csv_ids_Nil [simp]: "csv_ids [] = []"
  by (simp add: csv_ids_def py_strip_def strip_by_def lstrip_by_def rstrip_by_def)

lemma in_set_dropWhileD': "x \<in> set (dropWhile P s) \<Longrightarrow> x \<in> set s"
  by (induction s) (auto split: if_splits)

lemma set_py_strip: "set (py_strip s) \<subseteq> set s"
proof
  fix x
  assume "x \<in> set (py_strip s)"
  then have "x \<in> set (dropWhile is_space (rev (dropWhile is_space s)))"
    by (simp add: py_strip_def strip_by_def lstrip_by_def rstrip_by_def)
  then have "x \<in> set (dropWhile is_space s)"
    by (auto dest: in_set_dropWhileD')
  then show "x \<in> set s"
    by (rule in_set_dropWhileD')
qed

lemma csv_ids_no_comma: "x \<in> set (csv_ids v) \<Longrightarrow> 44 \<notin> set x"
  using set_py_strip by (fastforce simp: csv_ids_def dest: split_on_no_sep)

subsection \<open>Quotas\<close>

text \<open>
  \<open>get_quota\<close>: \<open>env\<close> is the process environment with the value \<open>int\<close> gives each variable (\<open>None\<close>
  when \<open>int\<close> raises), \<open>loaded\<close> the value of the settings field, absent when the settings
  cannot be built.
\<close>

definition get_quota :: "(pystr \<Rightarrow> int option option) \<Rightarrow> int option \<Rightarrow> pystr \<Rightarrow> int \<Rightarrow> int result" where
  "get_quota env loaded name dflt =
     (case env name of
        Some (Some n) \<Rightarrow> Inr n
      | Some None \<Rightarrow> Inl (ValueErr name)
      | None \<Rightarrow> Inr (case loaded of Some n \<Rightarrow> n | None \<Rightarrow> dflt))"

end
