(* ===== verification/Security.thy ===== *)
theory Security
  imports Config
begin

text \<open>
  \<open>security/*.py\<close>: the environment allowlist, the emergency stop and isolation gate, input
  normalisation, path denial and containment, and redaction of secrets. \<open>os.path.realpath\<close>, the
  regular-expression rules for common secret formats and the operating system environment are
  parameters.
\<close>

subsection \<open>Environment scrubbing\<close>

text \<open>A Python \<open>dict\<close> of strings is an association list with distinct keys.\<close>

type_synonym env = "(pystr \<times> pystr) list"

definition FORBIDDEN_ENV :: "pystr list" where
  "FORBIDDEN_ENV = [u ''DISCORD_TOKEN'', u ''DATABASE_URL'', u ''REDIS_URL'',
     u ''DEPLOYMENT_SECRET_KEY'', u ''RUNNER_CONTROL_AUTH'', u ''PLATFORM_ADMIN_USER_IDS'',
     u ''EMERGENCY_STOP'']"

definition BASE_ALLOWED :: "pystr list" where
  "BASE_ALLOWED = [u ''PATH'', u ''HOME'', u ''LANG'', u ''TERM'', u ''DISCORD_AGENT_SESSION_ID'',
     u ''DISCORD_AGENT_HOOK_URL'', u ''DISCORD_AGENT_HOOK_SECRET'', u ''DAB_SESSION_ID'']"

definition scrub_env :: "env \<Rightarrow> pystr list \<Rightarrow> env" where
  "scrub_env raw_env extra_allowed =
     filter (\<lambda>(k, v). (k \<in> set BASE_ALLOWED \<or> k \<in> set extra_allowed) \<and> k \<notin> set FORBIDDEN_ENV) raw_env"

lemma scrub_env_keys:
  "k \<in> fst ` set (scrub_env e x) \<longleftrightarrow>
     k \<in> fst ` set e \<and> (k \<in> set BASE_ALLOWED \<or> k \<in> set x) \<and> k \<notin> set FORBIDDEN_ENV"
  by (force simp: scrub_env_def)

lemma scrub_env_mono: "set (scrub_env e x) \<subseteq> set e"
  by (auto simp: scrub_env_def)

lemma base_not_forbidden: "set BASE_ALLOWED \<inter> set FORBIDDEN_ENV = {}"
  by (simp add: BASE_ALLOWED_def FORBIDDEN_ENV_def)

subsection \<open>Execution policy\<close>

definition ensure_outbound_allowed :: "settings \<Rightarrow> unit result" where
  "ensure_outbound_allowed s =
     (if EMERGENCY_STOP s \<noteq> 0
      then Inl (ExecutionDenied (u ''emergency_stop: side effects are disabled'')) else Inr ())"

definition ensure_execution_allowed :: "settings \<Rightarrow> unit result" where
  "ensure_execution_allowed s =
     (case ensure_outbound_allowed s of
        Inl e \<Rightarrow> Inl e
      | Inr _ \<Rightarrow>
          if SESSION_ISOLATION_MODE s \<noteq> TrustedHost
          then Inl (ExecutionDenied (u ''unsupported_isolation_mode: no OS sandbox is implemented; use a dedicated disposable host with trusted users and explicitly select trusted_host''))
          else Inr ())"

lemma execution_allowed_iff:
  "ensure_execution_allowed s = Inr () \<longleftrightarrow> EMERGENCY_STOP s = 0 \<and> SESSION_ISOLATION_MODE s = TrustedHost"
  by (simp add: ensure_execution_allowed_def ensure_outbound_allowed_def)

subsection \<open>Input normalisation\<close>

datatype normalization_error = EmptyInput | InputTooLarge

definition normalize_input :: "pystr \<Rightarrow> nat \<Rightarrow> normalization_error + pystr" where
  "normalize_input txt max_bytes =
     (let stripped = py_strip txt in
      if stripped = [] then Inl EmptyInput
      else if max_bytes < utf8_len stripped then Inl InputTooLarge
      else Inr stripped)"

lemma py_strip_idem_on:
  "s \<noteq> [] \<Longrightarrow> \<not> is_space (hd s) \<Longrightarrow> \<not> is_space (last s) \<Longrightarrow> py_strip s = s"
proof -
  assume a: "s \<noteq> []" "\<not> is_space (hd s)" "\<not> is_space (last s)"
  then have "dropWhile is_space s = s"
    by (cases s) auto
  moreover have "dropWhile is_space (rev s) = rev s"
    using a by (cases s rule: rev_cases) auto
  ultimately show ?thesis
    by (simp add: py_strip_def strip_by_def lstrip_by_def rstrip_by_def)
qed

lemma py_strip_idem [simp]: "py_strip (py_strip s) = py_strip s"
proof (cases "py_strip s = []")
  case True
  have "py_strip [] = []"
    by (simp add: py_strip_def strip_by_def lstrip_by_def rstrip_by_def)
  then show ?thesis
    using True by simp
next
  case False
  then show ?thesis
    using hd_strip_by [of is_space s] last_strip_by [of is_space s]
    by (intro py_strip_idem_on) (auto simp: py_strip_def)
qed

subsection \<open>Paths\<close>

definition DENYLIST_SEGMENTS :: "pystr list" where
  "DENYLIST_SEGMENTS = map u [''.ssh'', ''.aws'', ''.gnupg'', ''.config'', ''.docker'', ''.kube'',
     ''.local'', ''.gcloud'', ''.azure'', ''.npm'']"

definition DENYLIST_ROOTS :: "pystr list" where
  "DENYLIST_ROOTS = map u [''/proc'', ''/sys'', ''/dev'', ''/etc'', ''/root'', ''/boot'',
     ''/private/etc'', ''/private/var/root'', ''/var/root'']"

definition DENYLIST_FILENAMES :: "pystr list" where
  "DENYLIST_FILENAMES = map u [''.netrc'', ''.npmrc'', ''.git-credentials'', ''.pgpass'']"

definition is_denied_filename :: "pystr \<Rightarrow> bool" where
  "is_denied_filename name \<longleftrightarrow>
     name \<in> set DENYLIST_FILENAMES \<or> name = u ''.env'' \<or> prefix (u ''.env.'') name"

datatype deny = DeniedSystemPath pystr | DeniedSegment pystr | DeniedFile pystr

fun deny_segments :: "pystr list \<Rightarrow> deny option" where
  "deny_segments [] = None"
| "deny_segments (seg # parts) =
     (if seg = [] then deny_segments parts
      else if seg \<in> set DENYLIST_SEGMENTS then Some (DeniedSegment seg)
      else if is_denied_filename seg then Some (DeniedFile seg)
      else deny_segments parts)"

definition under_root :: "pystr \<Rightarrow> pystr \<Rightarrow> bool" where
  "under_root real root \<longleftrightarrow> real = root \<or> prefix (root @ [slash]) real"

definition deny_reason :: "pystr \<Rightarrow> deny option" where
  "deny_reason real =
     (case find (under_root real) DENYLIST_ROOTS of
        Some root \<Rightarrow> Some (DeniedSystemPath root)
      | None \<Rightarrow> deny_segments (split_on slash real))"

definition canonicalize :: "(pystr \<Rightarrow> pystr) \<Rightarrow> pystr \<Rightarrow> pystr \<times> deny option" where
  "canonicalize realpath path = (let real = realpath path in (real, deny_reason real))"

definition is_within_root :: "pystr \<Rightarrow> pystr \<Rightarrow> bool" where
  "is_within_root path root \<longleftrightarrow>
     path = root \<or> prefix (rstrip_by (\<lambda>c. c = slash) root @ [slash]) path"

definition denied_segment :: "pystr \<Rightarrow> bool" where
  "denied_segment seg \<longleftrightarrow> seg \<noteq> [] \<and> (seg \<in> set DENYLIST_SEGMENTS \<or> is_denied_filename seg)"

lemma deny_segments_iff: "deny_segments ss \<noteq> None \<longleftrightarrow> (\<exists>s \<in> set ss. denied_segment s)"
  by (induction ss) (auto simp: denied_segment_def)

lemma find_None_bex: "find P xs \<noteq> None \<longleftrightarrow> (\<exists>x \<in> set xs. P x)"
  by (induction xs) auto

lemma deny_reason_iff:
  "deny_reason real \<noteq> None \<longleftrightarrow>
     (\<exists>root \<in> set DENYLIST_ROOTS. under_root real root) \<or>
     (\<exists>s \<in> set (split_on slash real). denied_segment s)"
  using deny_segments_iff [of "split_on slash real"] find_None_bex [of "under_root real"]
  by (cases "find (under_root real) DENYLIST_ROOTS") (force simp: deny_reason_def)+

text \<open>A trailing run of separators is what \<open>rstrip\<close> removes.\<close>

lemma rstrip_by_decomp:
  obtains t where "s = rstrip_by P s @ t" "\<forall>c \<in> set t. P c"
proof
  show "s = rstrip_by P s @ rev (takeWhile P (rev s))"
    unfolding rstrip_by_def by (metis rev_append rev_rev_ident takeWhile_dropWhile_id)
  show "\<forall>c \<in> set (rev (takeWhile P (rev s))). P c"
    by (auto dest: set_takeWhileD)
qed

lemma split_on_all_sep: "\<forall>x \<in> set t. x = c \<Longrightarrow> set (split_on c t) = {[]}"
  by (induction t) auto

lemma split_on_trailing:
  assumes "\<forall>x \<in> set t. x = c"
  shows "set (split_on c (a @ t)) - {[]} = set (split_on c a) - {[]}"
proof (cases t)
  case (Cons x t')
  then have "split_on c (a @ t) = split_on c a @ split_on c t'"
    using assms by (simp add: split_on_append)
  then show ?thesis
    using split_on_all_sep [of t' c] assms Cons by auto
qed simp

lemma DENYLIST_ROOTS_last: "root \<in> set DENYLIST_ROOTS \<Longrightarrow> root \<noteq> [] \<and> last root \<noteq> slash"
  by (auto simp: DENYLIST_ROOTS_def u_def)

lemma under_root_rstrip:
  assumes "under_root r root" "root \<noteq> []" "last root \<noteq> slash"
  shows "under_root (rstrip_by (\<lambda>c. c = slash) r) root"
proof -
  let ?b = "rstrip_by (\<lambda>c. c = slash) r"
  obtain t where t: "r = ?b @ t" "\<forall>c \<in> set t. c = slash"
    by (rule rstrip_by_decomp)
  have "prefix root r"
    using assms(1) by (auto simp: under_root_def dest: append_prefixD)
  then have "prefix root ?b"
  proof (rule contrapos_pp)
    assume n: "\<not> prefix root ?b"
    show "\<not> prefix root r"
    proof
      assume "prefix root r"
      then have "prefix root (?b @ t)"
        using t(1) by simp
      then obtain us where us: "root = ?b @ us" "prefix us t" "us \<noteq> []"
        using n by (auto simp: prefix_append)
      then have "last root = last us" "last us \<in> set t"
        using set_mono_prefix [OF us(2)] last_in_set [OF us(3)] by auto
      then show False
        using t(2) assms(3) by auto
    qed
  qed
  then obtain v where v: "?b = root @ v"
    by (auto simp: prefix_def)
  show ?thesis
  proof (cases v)
    case Nil
    then show ?thesis
      using v by (simp add: under_root_def)
  next
    case (Cons x v')
    have "r = root @ x # v' @ t"
      using t(1) v Cons by simp
    then have "x = slash"
      using assms(1) by (auto simp: under_root_def)
    then show ?thesis
      using v Cons by (simp add: under_root_def)
  qed
qed

lemma denied_within:
  assumes "deny_reason r \<noteq> None" "is_within_root p r"
  shows "deny_reason p \<noteq> None"
proof (cases "p = r")
  case False
  let ?b = "rstrip_by (\<lambda>c. c = slash) r"
  obtain rest where p: "p = ?b @ slash # rest"
    using assms(2) False by (auto simp: is_within_root_def prefix_def)
  obtain t where t: "r = ?b @ t" "\<forall>c \<in> set t. c = slash"
    by (rule rstrip_by_decomp)
  from assms(1) consider
      root where "root \<in> set DENYLIST_ROOTS" "under_root r root"
    | s where "s \<in> set (split_on slash r)" "denied_segment s"
    unfolding deny_reason_iff by blast
  then show ?thesis
  proof cases
    case 1
    then have "under_root ?b root"
      using under_root_rstrip DENYLIST_ROOTS_last by blast
    then have "under_root p root"
      unfolding p by (auto simp: under_root_def prefix_def)
    then show ?thesis
      using 1 deny_reason_iff by blast
  next
    case 2
    then have "s \<in> set (split_on slash ?b)"
      using split_on_trailing [OF t(2), of ?b] t(1) by (auto simp: denied_segment_def)
    then have "s \<in> set (split_on slash p)"
      unfolding p by (simp add: split_on_append)
    then show ?thesis
      using 2 deny_reason_iff by blast
  qed
qed (use assms in simp)

text \<open>
  Canonical paths, the values \<open>realpath\<close> returns: absolute, no empty segment; \<open>path_segs\<close> are
  the names from the root down.
\<close>

definition canonical_path :: "pystr \<Rightarrow> bool" where
  "canonical_path p \<longleftrightarrow>
     p = [slash] \<or> (p \<noteq> [] \<and> hd p = slash \<and> list_all (\<lambda>s. s \<noteq> []) (split_on slash (tl p)))"

definition path_segs :: "pystr \<Rightarrow> pystr list" where
  "path_segs p = filter (\<lambda>s. s \<noteq> []) (split_on slash p)"

lemma path_segs_canonical:
  "canonical_path p \<Longrightarrow> p \<noteq> [slash] \<Longrightarrow> path_segs p = split_on slash (tl p)"
  by (cases p) (auto simp: canonical_path_def path_segs_def list_all_iff intro: filter_True)

lemma canonical_path_last:
  assumes "canonical_path p" "p \<noteq> [slash]"
  shows "p \<noteq> [] \<and> last p \<noteq> slash"
proof -
  obtain q where q: "p = slash # q" "list_all (\<lambda>s. s \<noteq> []) (split_on slash q)"
    using assms by (cases p) (auto simp: canonical_path_def)
  have "q \<noteq> []"
    using q(2) by auto
  have "last q \<noteq> slash"
  proof
    assume "last q = slash"
    then have "q = butlast q @ slash # []"
      using \<open>q \<noteq> []\<close> by (metis append_butlast_last_id)
    then have "split_on slash q = split_on slash (butlast q) @ [[]]"
      by (metis split_on_append split_on.simps(1))
    then show False
      using q(2) by simp
  qed
  then show ?thesis
    using q(1) \<open>q \<noteq> []\<close> by simp
qed

lemma rstrip_canonical:
  assumes "canonical_path p" "p \<noteq> [slash]"
  shows "rstrip_by (\<lambda>c. c = slash) p = p"
  using canonical_path_last [OF assms]
  by (cases p rule: rev_cases) (auto simp: rstrip_by_def)

lemma prefix_split_iff:
  "prefix (split_on c r) (split_on c p) \<longleftrightarrow> p = r \<or> prefix (r @ [c]) p"
proof
  assume "prefix (split_on c r) (split_on c p)"
  then obtain zs where zs: "split_on c p = split_on c r @ zs"
    by (auto simp: prefix_def)
  show "p = r \<or> prefix (r @ [c]) p"
  proof (cases zs)
    case Nil
    then show ?thesis
      using zs by (metis append_Nil2 join_split_on)
  next
    case (Cons z zs')
    have j: "join_with c (xs @ z # zs') = join_with c xs @ c # join_with c (z # zs')"
      if "xs \<noteq> []" for xs
      using that by (induction xs rule: join_with.induct) auto
    have "p = r @ c # join_with c (z # zs')"
      using j [of "split_on c r"] zs Cons by (metis join_split_on split_on_ne)
    then show ?thesis
      by simp
  qed
next
  assume "p = r \<or> prefix (r @ [c]) p"
  then show "prefix (split_on c r) (split_on c p)"
    by (auto simp: prefix_def split_on_append)
qed

lemma within_root_segs:
  assumes "canonical_path p" "canonical_path r"
  shows "is_within_root p r \<longleftrightarrow> prefix (path_segs r) (path_segs p)"
proof (cases "r = [slash]")
  case True
  have "prefix [slash] p"
    using assms(1) by (cases p) (auto simp: canonical_path_def)
  then show ?thesis
    using True by (simp add: is_within_root_def rstrip_by_def path_segs_def)
next
  case False
  obtain r' where r': "r = slash # r'" "path_segs r = split_on slash r'"
    using path_segs_canonical [OF assms(2) False] assms(2) False
    by (cases r) (auto simp: canonical_path_def)
  have nr: "path_segs r \<noteq> []"
    using r' by simp
  have w: "is_within_root p r \<longleftrightarrow> p = r \<or> prefix (r @ [slash]) p"
    using rstrip_canonical [OF assms(2) False] by (simp add: is_within_root_def)
  show ?thesis
  proof (cases "p = [slash]")
    case True
    then show ?thesis
      using w nr r' False by (auto simp: path_segs_def)
  next
    case pn: False
    obtain p' where p': "p = slash # p'" "path_segs p = split_on slash p'"
      using path_segs_canonical [OF assms(1) pn] assms(1) pn
      by (cases p) (auto simp: canonical_path_def)
    show ?thesis
      using w r' p' prefix_split_iff [of slash r' p'] by simp
  qed
qed

text \<open>C25. For canonical paths, the textual containment test is containment of path segments: a path is within
  a root exactly when the segments of the root are a prefix of its own.\<close>

theorem containment_is_by_segments:
  assumes "canonical_path p" "canonical_path r"
  shows "is_within_root p r \<longleftrightarrow> prefix (path_segs r) (path_segs p)"
  using assms by (rule within_root_segs)

lemma sample_canonical: "canonical_path (u ''/srv/a'')" "canonical_path (u ''/srv'')" "canonical_path (u ''/srv2'')"
  by (simp_all add: canonical_path_def u_def)

theorem containment_is_by_segments_witness:
  "is_within_root (u ''/srv/a'') (u ''/srv'') \<and> \<not> is_within_root (u ''/srv2'') (u ''/srv'')"
  using containment_is_by_segments [OF sample_canonical(1,2)] containment_is_by_segments [OF sample_canonical(3,2)]
  by (simp add: path_segs_def u_def)

text \<open>A denied directory denies everything below it: a path within a denied path is denied.\<close>

theorem denial_is_inherited:
  assumes "deny_reason r \<noteq> None" "is_within_root p r"
  shows "deny_reason p \<noteq> None"
  using assms by (rule denied_within)

theorem denial_is_inherited_witness: "deny_reason (u ''/home/a/.ssh/keys/id'') \<noteq> None"
proof (rule denial_is_inherited)
  show "deny_reason (u ''/home/a/.ssh'') \<noteq> None"
    unfolding deny_reason_iff by (simp add: denied_segment_def DENYLIST_SEGMENTS_def u_def)
  show "is_within_root (u ''/home/a/.ssh/keys/id'') (u ''/home/a/.ssh'')"
    by (simp add: is_within_root_def u_def rstrip_by_def)
qed

end
