(* ===== verification/Discord_Rest.thy ===== *)
theory Discord_Rest
  imports Security Complex_Main
begin

text \<open>
  \<open>dispatcher/discord_client.py\<close>: the retry loop of \<open>send_message\<close> with the nonce it sends, and the
  single-request calls. The HTTP exchanges are parameters: the \<open>n\<close>-th answer to the POST, and
  the result of the PATCH that unarchives a thread. Every externally visible action is recorded.
\<close>

datatype action =
    Post pystr "pystr option"    \<comment> \<open>content, nonce\<close>
  | Unarchive
  | CoolOff rat                  \<comment> \<open>the callback fed to the rate limiter\<close>
  | Sleep rat

text \<open>
  A response: its status, the message id of its JSON body if there is one, and the two places the
  retry delay may come from: \<open>float(body["retry_after"])\<close>, absent when the body is not such an object
  or the conversion raises, and the header, whose text may fail to parse. \<open>NonFinite\<close> is a float
  that is infinite or not a number.
\<close>

datatype float_val = Fin rat | NonFinite

record response =
  rs_status :: int
  rs_id :: "pystr option"
  rs_body_retry :: "float_val option"
  rs_header_retry :: "float_val option option"

definition resp_ok :: "response \<Rightarrow> bool" where
  "resp_ok r \<longleftrightarrow> rs_status r < 400"

definition extract_retry_after :: "response \<Rightarrow> float_val" where
  "extract_retry_after r =
     (case rs_body_retry r of
        Some v \<Rightarrow> v
      | None \<Rightarrow> (case rs_header_retry r of Some (Some v) \<Rightarrow> v | _ \<Rightarrow> Fin 1))"

text \<open>\<open>digest\<close> is \<open>hashlib.blake2b(.., digest_size=12).hexdigest()\<close>, 24 hexadecimal digits.\<close>

definition body_nonce :: "(pystr \<Rightarrow> pystr) \<Rightarrow> pystr option \<Rightarrow> pystr option" where
  "body_nonce digest nonce =
     map_option (\<lambda>n. if length n \<le> 25 then n else digest n) nonce"

text \<open>\<open>_unarchive_thread\<close> under an active emergency stop raises; every other failure is \<open>False\<close>.\<close>

datatype sender = Sender
  (max_retries: nat)
  (backoff_base: rat)

text \<open>
  The loop: \<open>k\<close> counts the POSTs made, \<open>answer k\<close> is the response to the next one, or the failure of the
  exchange itself; \<open>unarchives\<close> is what the PATCH returns and \<open>jitter k\<close> the random part of a
  back-off.
\<close>

function send_loop ::
  "sender \<Rightarrow> (nat \<Rightarrow> exc + response) \<Rightarrow> bool \<Rightarrow> (nat \<Rightarrow> rat) \<Rightarrow> pystr \<Rightarrow> pystr option \<Rightarrow>
   nat \<Rightarrow> nat \<Rightarrow> bool \<Rightarrow> action list \<times> pystr result" where
  "send_loop c answer unarchives jitter content nonce k attempt unarchived =
     (case answer k of
        Inl e \<Rightarrow> ([Post content nonce], Inl e)
      | Inr r \<Rightarrow>
          if resp_ok r then
            ([Post content nonce],
             case rs_id r of Some i \<Rightarrow> Inr i | None \<Rightarrow> Inl (KeyErr (u ''id'')))
          else if rs_status r = 405 \<and> \<not> unarchived \<and> unarchives then
            (let (acts, res) = send_loop c answer unarchives jitter content nonce (Suc k) attempt True
             in ([Post content nonce, Unarchive] @ acts, res))
          else
            (let pre = Post content nonce # (if rs_status r = 405 \<and> \<not> unarchived then [Unarchive] else []) in
             if rs_status r = 429 then
               (if max_retries c \<le> attempt then
                  (pre, Inl (RuntimeErr (u ''Discord send_message rate-limit retry budget exhausted'')))
                else
                  (case extract_retry_after r of
                     NonFinite \<Rightarrow>
                       (pre, Inl (RuntimeErr (u ''Discord Retry-After is outside the local retry budget'')))
                   | Fin d \<Rightarrow>
                       if d < 0 \<or> 60 < d then
                         (pre, Inl (RuntimeErr (u ''Discord Retry-After is outside the local retry budget'')))
                       else
                         (let (acts, res) = send_loop c answer unarchives jitter content nonce (Suc k)
                                (Suc attempt) unarchived
                          in (pre @ [CoolOff d, Sleep d] @ acts, res))))
             else if 500 \<le> rs_status r \<and> rs_status r < 600 then
               (if max_retries c \<le> attempt then
                  (pre, Inl (RuntimeErr (u ''Discord send_message failed after retries: '' @ int_str (rs_status r))))
                else
                  (let (acts, res) = send_loop c answer unarchives jitter content nonce (Suc k)
                         (Suc attempt) unarchived
                   in (pre @ [Sleep (backoff_base c * 2 ^ attempt + jitter k)] @ acts, res)))
             else (pre, Inl (PermanentErr (rs_status r)))))"
  by pat_completeness auto
termination
  by (relation "measures [\<lambda>(c, a, un, j, ct, nn, k, attempt, unarchived). max_retries c - attempt,
        \<lambda>(c, a, un, j, ct, nn, k, attempt, unarchived). if unarchived then 0 else 1]") auto

declare send_loop.simps [simp del]

text \<open>
  \<open>send_message\<close>. The settings of a process do not change, so the policy check of every pass has
  the same outcome as the first.
\<close>

definition send_message ::
  "settings \<Rightarrow> (pystr \<Rightarrow> pystr) \<Rightarrow> sender \<Rightarrow> (nat \<Rightarrow> exc + response) \<Rightarrow> bool \<Rightarrow> (nat \<Rightarrow> rat) \<Rightarrow>
   pystr \<Rightarrow> pystr option \<Rightarrow> action list \<times> pystr result" where
  "send_message cfg digest c answer unarchives jitter content nonce =
     (case ensure_outbound_allowed cfg of
        Inl e \<Rightarrow> ([], Inl e)
      | Inr _ \<Rightarrow> send_loop c answer unarchives jitter content (body_nonce digest nonce) 0 0 False)"

text \<open>\<open>_unarchive_thread\<close>: whether the PATCH succeeded; a failed exchange is only logged.\<close>

definition unarchive_thread :: "(exc + response) \<Rightarrow> bool" where
  "unarchive_thread answer = (case answer of Inl e \<Rightarrow> False | Inr r \<Rightarrow> resp_ok r)"

text \<open>The value of the header \<open>Authorization\<close>.\<close>

definition auth_header :: "pystr \<Rightarrow> pystr" where
  "auth_header token = (if prefix (u ''Bot '') token then token else u ''Bot '' @ token)"

text \<open>\<open>archive_thread\<close> and \<open>trigger_typing\<close>: one request; typing failures are only logged.\<close>

definition archive_thread_rest :: "settings \<Rightarrow> (exc + response) \<Rightarrow> unit result" where
  "archive_thread_rest cfg answer =
     (case ensure_outbound_allowed cfg of
        Inl e \<Rightarrow> Inl e
      | Inr _ \<Rightarrow>
          (case answer of
             Inl e \<Rightarrow> Inl e
           | Inr r \<Rightarrow> if resp_ok r then Inr ()
                     else Inl (RuntimeErr (u ''Discord archive_thread failed: '' @ int_str (rs_status r)))))"

definition trigger_typing :: "settings \<Rightarrow> (exc + response) \<Rightarrow> unit result" where
  "trigger_typing cfg answer =
     (case ensure_outbound_allowed cfg of
        Inl e \<Rightarrow> Inl e
      | Inr _ \<Rightarrow> (case answer of Inl e \<Rightarrow> Inl e | Inr r \<Rightarrow> Inr ()))"

subsection \<open>Bounded effort\<close>

fun is_post :: "action \<Rightarrow> bool" where
  "is_post (Post c n) = True"
| "is_post _ = False"

definition posts :: "action list \<Rightarrow> nat" where
  "posts acts = length (filter is_post acts)"

lemma posts_simps [simp]:
  "posts [] = 0" "posts (Post c n # acts) = Suc (posts acts)" "posts (Unarchive # acts) = posts acts"
  "posts (CoolOff d # acts) = posts acts" "posts (Sleep d # acts) = posts acts"
  "posts (a @ b) = posts a + posts b"
  by (simp_all add: posts_def)

text \<open>Induction over the passes: the next one has a retry less, or the thread was unarchived.\<close>

lemma send_induct [case_names pass]:
  assumes "\<And>k attempt unarchived.
     (\<And>k'. attempt < max_retries c \<Longrightarrow> P k' (Suc attempt) unarchived) \<Longrightarrow>
     (\<And>k'. \<not> unarchived \<Longrightarrow> P k' attempt True) \<Longrightarrow> P k attempt unarchived"
  shows "P k attempt unarchived"
proof (induction "2 * (max_retries c - attempt) + (if unarchived then 0 else 1)"
    arbitrary: k attempt unarchived rule: less_induct)
  case less
  show ?case
    by (rule assms) (rule less; simp)+
qed

definition same_message :: "pystr \<Rightarrow> pystr option \<Rightarrow> action \<Rightarrow> bool" where
  "same_message ct nn a = (case a of Post c n \<Rightarrow> c = ct \<and> n = nn | _ \<Rightarrow> True)"

text \<open>What one pass does: it ends the call, or sends one POST and goes round again.\<close>

lemma send_pass:
  obtains (stop) pre res where
      "send_loop c answer un j ct nn k attempt unarchived = (pre, res)"
      "posts pre = 1" "list_all (same_message ct nn) pre"
      "\<And>i. res = Inr i \<Longrightarrow> \<exists>r. answer k = Inr r \<and> resp_ok r \<and> rs_id r = Some i"
  | (retry) pre where
      "send_loop c answer un j ct nn k attempt unarchived =
         (pre @ fst (send_loop c answer un j ct nn (Suc k) (Suc attempt) unarchived),
          snd (send_loop c answer un j ct nn (Suc k) (Suc attempt) unarchived))"
      "posts pre = 1" "list_all (same_message ct nn) pre" "attempt < max_retries c"
  | (unarchive) pre where
      "send_loop c answer un j ct nn k attempt unarchived =
         (pre @ fst (send_loop c answer un j ct nn (Suc k) attempt True),
          snd (send_loop c answer un j ct nn (Suc k) attempt True))"
      "posts pre = 1" "list_all (same_message ct nn) pre" "\<not> unarchived"
proof -
  note step = send_loop.simps [of c answer un j ct nn k attempt unarchived]
  define pre where "pre r = Post ct nn # (if rs_status r = 405 \<and> \<not> unarchived then [Unarchive] else [])" for r :: response
  have pre: "posts (pre r) = 1" "list_all (same_message ct nn) (pre r)" for r :: response
    by (simp_all add: pre_def same_message_def)
  have sm: "same_message ct nn (Post ct nn)" "same_message ct nn Unarchive"
    "same_message ct nn (CoolOff d)" "same_message ct nn (Sleep d)" for d
    by (simp_all add: same_message_def)
  show thesis
  proof (cases "answer k")
    case (Inl e)
    then show ?thesis
      using sm by (intro stop [of "[Post ct nn]" "Inl e"]) (simp_all add: step)
  next
    case (Inr r)
    consider "resp_ok r" | "\<not> resp_ok r" "rs_status r = 405 \<and> \<not> unarchived \<and> un"
      | "\<not> resp_ok r" "\<not> (rs_status r = 405 \<and> \<not> unarchived \<and> un)"
      by blast
    then show ?thesis
    proof cases
      case 1
      then show ?thesis
        using Inr sm by (cases "rs_id r") (auto simp: step intro: stop)
    next
      case 2
      then have "send_loop c answer un j ct nn k attempt unarchived =
         ([Post ct nn, Unarchive] @ fst (send_loop c answer un j ct nn (Suc k) attempt True),
          snd (send_loop c answer un j ct nn (Suc k) attempt True))"
        using Inr by (subst step) (simp add: split_beta Let_def)
      then show ?thesis
        using 2 sm by (intro unarchive [of "[Post ct nn, Unarchive]"]) simp_all
    next
      case 3
      note st = step [unfolded Inr, simplified 3 if_False sum.case, folded pre_def, unfolded Let_def split_beta]
      consider "rs_status r = 429" "attempt < max_retries c" "\<exists>d. extract_retry_after r = Fin d \<and> \<not> (d < 0 \<or> 60 < d)"
        | "500 \<le> rs_status r" "rs_status r < 600" "attempt < max_retries c" "rs_status r \<noteq> 429"
        | "\<exists>e. send_loop c answer un j ct nn k attempt unarchived = (pre r, Inl e)"
      proof (cases "rs_status r = 429")
        case True
        then show thesis
          using that(1) that(3)
          by (cases "max_retries c \<le> attempt"; cases "extract_retry_after r";
              cases "\<exists>d. extract_retry_after r = Fin d \<and> (d < 0 \<or> 60 < d)")
            (auto simp: st not_le)
      next
        case False
        then show thesis
          using that(2) that(3) by (cases "500 \<le> rs_status r \<and> rs_status r < 600 \<and> attempt < max_retries c")
            (auto simp: st not_le)
      qed
      then show ?thesis
      proof cases
        case 1
        then obtain d where d: "extract_retry_after r = Fin d" "\<not> (d < 0 \<or> 60 < d)"
          by blast
        show ?thesis
          using 1 d pre sm by (intro retry [of "pre r @ [CoolOff d, Sleep d]"]) (simp_all add: st)
      next
        case 2
        then show ?thesis
          using pre sm
          by (intro retry [of "pre r @ [Sleep (backoff_base c * 2 ^ attempt + j k)]"]) (simp_all add: st)
      next
        case 3
        then show ?thesis
          using pre by (auto intro: stop)
      qed
    qed
  qed
qed

lemma send_loop_posts:
  "posts (fst (send_loop c answer un j ct nn k attempt unarchived))
     \<le> Suc (max_retries c - attempt) + (if unarchived then 0 else 1)"
proof (induction k attempt unarchived rule: send_induct [where c = c])
  case (pass k attempt unarchived)
  show ?case
    by (rule send_pass [of c answer un j ct nn k attempt unarchived])
      (use pass(1) [of "Suc k"] pass(2) [of "Suc k"] in auto)
qed

text \<open>Every POST carries the same content and nonce.\<close>

lemma send_loop_same:
  "list_all (same_message ct nn) (fst (send_loop c answer un j ct nn k attempt unarchived))"
proof (induction k attempt unarchived rule: send_induct [where c = c])
  case (pass k attempt unarchived)
  show ?case
    by (rule send_pass [of c answer un j ct nn k attempt unarchived])
      (use pass(1) [of "Suc k"] pass(2) [of "Suc k"] in auto)
qed

text \<open>A message id is returned only for a POST that Discord accepted.\<close>

lemma send_loop_ok:
  "snd (send_loop c answer un j ct nn k attempt unarchived) = Inr i \<Longrightarrow>
   \<exists>n \<ge> k. \<exists>r. answer n = Inr r \<and> resp_ok r \<and> rs_id r = Some i"
proof (induction k attempt unarchived rule: send_induct [where c = c])
  case (pass k attempt unarchived)
  show ?case
    by (rule send_pass [of c answer un j ct nn k attempt unarchived])
      (use pass(1) [of "Suc k"] pass(2) [of "Suc k"] pass(3) in \<open>auto dest: Suc_leD\<close>)
qed

lemma send_message_is_bounded_parts:
  assumes "send_message cfg digest c answer unarchives jitter content nonce = (acts, res)"
  shows "posts acts \<le> max_retries c + 2"
    "list_all (same_message content (body_nonce digest nonce)) acts"
    "res = Inr i \<Longrightarrow> \<exists>k r. answer k = Inr r \<and> resp_ok r \<and> rs_id r = Some i"
    "EMERGENCY_STOP cfg \<noteq> 0 \<Longrightarrow> acts = [] \<and> isl res"
proof -
  let ?l = "send_loop c answer unarchives jitter content (body_nonce digest nonce) 0 0 False"
  have cases: "(acts, res) = ?l \<or> acts = [] \<and> isl res"
    using assms by (auto simp: send_message_def split: sum.splits)
  then show "posts acts \<le> max_retries c + 2" "list_all (same_message content (body_nonce digest nonce)) acts"
    using send_loop_posts [of c answer unarchives jitter content "body_nonce digest nonce" 0 0 False]
      send_loop_same [of content "body_nonce digest nonce" c answer unarchives jitter 0 0 False]
    by (auto simp: prod_eq_iff)
  show "res = Inr i \<Longrightarrow> \<exists>k r. answer k = Inr r \<and> resp_ok r \<and> rs_id r = Some i"
    using cases send_loop_ok [of c answer unarchives jitter content "body_nonce digest nonce" 0 0 False i]
    by (auto simp: prod_eq_iff)
  show "EMERGENCY_STOP cfg \<noteq> 0 \<Longrightarrow> acts = [] \<and> isl res"
    using assms by (auto simp: send_message_def ensure_outbound_allowed_def)
qed

text \<open>C30. A message is posted at most \<open>max_retries + 2\<close> times (one pass more than the retries, and one after
  the thread was unarchived), every POST carries the same text and the same nonce, and a success is the
  id of an answer that Discord accepted.\<close>

theorem send_message_is_bounded:
  assumes "send_message cfg digest c answer unarchives jitter content nonce = (acts, res)"
  shows "(posts acts \<le> max_retries c + 2) \<and>
     (list_all (same_message content (body_nonce digest nonce)) acts) \<and>
     ((res = Inr i) \<longrightarrow> (\<exists>k r. answer k = Inr r \<and> resp_ok r \<and> rs_id r = Some i)) \<and>
     (EMERGENCY_STOP cfg \<noteq> 0 \<longrightarrow> (acts = [] \<and> isl res))"
proof -
  have c1: "(posts acts \<le> max_retries c + 2)"
    by (rule send_message_is_bounded_parts(1) [OF assms])
  have c2: "(list_all (same_message content (body_nonce digest nonce)) acts)"
    by (rule send_message_is_bounded_parts(2) [OF assms])
  have c3: "((res = Inr i) \<longrightarrow> (\<exists>k r. answer k = Inr r \<and> resp_ok r \<and> rs_id r = Some i))"
    by ((rule impI)+, rule send_message_is_bounded_parts(3) [OF assms], assumption+)
  have c4: "(EMERGENCY_STOP cfg \<noteq> 0 \<longrightarrow> (acts = [] \<and> isl res))"
    by ((rule impI)+, rule send_message_is_bounded_parts(4) [OF assms], assumption+)
  show ?thesis
    by (rule conjI [OF c1 conjI [OF c2 conjI [OF c3 c4]]])
qed

definition sample_answers :: "nat \<Rightarrow> exc + response" where
  "sample_answers k =
     Inr (if k = 0 then \<lparr>rs_status = 503, rs_id = None, rs_body_retry = None, rs_header_retry = None\<rparr>
          else \<lparr>rs_status = 200, rs_id = Some (u ''m1''), rs_body_retry = None, rs_header_retry = None\<rparr>)"

theorem send_message_is_bounded_witness:
  "posts (fst (send_message (default_settings [] [] [] [] TrustedHost) (\<lambda>s. s) (Sender 3 1) sample_answers True
     (\<lambda>_. 0) (u ''hi'') (Some (u ''n'')))) \<le> 5"
  using send_message_is_bounded [THEN conjunct1, of "default_settings [] [] [] [] TrustedHost" "\<lambda>s. s" "Sender 3 1" sample_answers True
      "\<lambda>_. 0" "u ''hi''" "Some (u ''n'')"]
  by (cases "send_message (default_settings [] [] [] [] TrustedHost) (\<lambda>s. s) (Sender 3 1) sample_answers True
     (\<lambda>_. 0) (u ''hi'') (Some (u ''n''))") auto

end
