(* ===== verification/Url.thy ===== *)
theory Url
  imports Prelude
begin

text \<open>
  What the program uses of \<open>urllib.parse\<close> and \<open>ipaddress\<close>: the scheme, network location, user
  password and host name of a URL, and the parsing and classification of IPv4 addresses. The
  checks \<open>urlsplit\<close> makes of bracketed or non-ASCII network locations, and IPv6 addresses, are
  parameters.
\<close>

subsection \<open>Splitting\<close>

definition lower_ascii :: "nat \<Rightarrow> nat" where
  "lower_ascii c = (if 65 \<le> c \<and> c \<le> 90 then c + 32 else c)"

definition alpha_ascii :: "nat \<Rightarrow> bool" where
  "alpha_ascii c \<longleftrightarrow> (97 \<le> c \<and> c \<le> 122) \<or> (65 \<le> c \<and> c \<le> 90)"

definition scheme_char :: "nat \<Rightarrow> bool" where
  "scheme_char c \<longleftrightarrow> alpha_ascii c \<or> (48 \<le> c \<and> c \<le> 57) \<or> c \<in> {43, 45, 46}"

text \<open>\<open>s.partition(c)\<close> and \<open>s.rpartition(c)\<close>: the part after the first, before the last separator.\<close>

definition after_first :: "nat \<Rightarrow> pystr \<Rightarrow> pystr option" where
  "after_first c s = (case dropWhile (\<lambda>x. x \<noteq> c) s of [] \<Rightarrow> None | _ # t \<Rightarrow> Some t)"

definition before_first :: "nat \<Rightarrow> pystr \<Rightarrow> pystr" where
  "before_first c s = takeWhile (\<lambda>x. x \<noteq> c) s"

definition before_last :: "nat \<Rightarrow> pystr \<Rightarrow> pystr option" where
  "before_last c s = map_option rev (after_first c (rev s))"

definition after_last :: "nat \<Rightarrow> pystr \<Rightarrow> pystr" where
  "after_last c s = rev (takeWhile (\<lambda>x. x \<noteq> c) (rev s))"

definition url_clean :: "pystr \<Rightarrow> pystr" where
  "url_clean url = filter (\<lambda>c. c \<notin> {9, 10, 13}) (lstrip_by (\<lambda>c. c \<le> 32) url)"

definition cut_scheme :: "pystr \<Rightarrow> pystr \<times> pystr" where
  "cut_scheme url =
     (let scheme = before_first colon url in
      case after_first colon url of
        Some rest \<Rightarrow>
          if scheme \<noteq> [] \<and> alpha_ascii (hd scheme) \<and> list_all scheme_char scheme
          then (map lower_ascii scheme, rest) else ([], url)
      | None \<Rightarrow> ([], url))"

text \<open>\<open>None\<close> stands for the \<open>ValueError\<close> of an invalid network location.\<close>

definition urlsplit :: "(pystr \<Rightarrow> bool) \<Rightarrow> pystr \<Rightarrow> (pystr \<times> pystr) option" where
  "urlsplit netloc_ok url0 =
     (let (scheme, url) = cut_scheme (url_clean url0);
          netloc = (if prefix [slash, slash] url then takeWhile (\<lambda>c. c \<notin> {47, 63, 35}) (drop 2 url) else [])
      in if (91 \<in> set netloc) \<noteq> (93 \<in> set netloc) \<or>
            ((91 \<in> set netloc \<or> list_ex (\<lambda>c. 128 \<le> c) netloc) \<and> \<not> netloc_ok netloc)
         then None else Some (scheme, netloc))"

definition netloc_password :: "pystr \<Rightarrow> pystr option" where
  "netloc_password netloc =
     (case before_last 64 netloc of None \<Rightarrow> None | Some userinfo \<Rightarrow> after_first colon userinfo)"

definition netloc_hostname :: "pystr \<Rightarrow> pystr option" where
  "netloc_hostname netloc =
     (let hostinfo = after_last 64 netloc;
          host = (case after_first 91 hostinfo of
                    Some b \<Rightarrow> before_first 93 b | None \<Rightarrow> before_first colon hostinfo)
      in if host = [] then None
         else Some (map lower_ascii (before_first 37 host) @
                    (case after_first 37 host of None \<Rightarrow> [] | Some zone \<Rightarrow> 37 # zone)))"

subsection \<open>IPv4 addresses\<close>

type_synonym ipv4 = "32 word"

definition octet :: "pystr \<Rightarrow> nat option" where
  "octet s =
     (if s = [] \<or> 3 < length s \<or> \<not> list_all (\<lambda>c. 48 \<le> c \<and> c \<le> 57) s \<or> (hd s = 48 \<and> 1 < length s) then None
      else (let n = foldl (\<lambda>acc c. 10 * acc + (c - 48)) 0 s in if 255 < n then None else Some n))"

definition ipv4_of :: "pystr \<Rightarrow> ipv4 option" where
  "ipv4_of s =
     (case map octet (split_on dot s) of
        [Some a, Some b, Some c, Some d] \<Rightarrow>
          Some (of_nat (((a * 256 + b) * 256 + c) * 256 + d))
      | _ \<Rightarrow> None)"

definition in_net :: "ipv4 \<Rightarrow> nat \<Rightarrow> ipv4 \<Rightarrow> bool" where
  "in_net net len ip \<longleftrightarrow> drop_bit (32 - len) ip = drop_bit (32 - len) net"

definition quad :: "nat \<Rightarrow> nat \<Rightarrow> nat \<Rightarrow> nat \<Rightarrow> ipv4" where
  "quad a b c d = of_nat (((a * 256 + b) * 256 + c) * 256 + d)"

text \<open>\<open>is_private\<close>, \<open>is_loopback\<close>, \<open>is_link_local\<close>, \<open>is_reserved\<close>, \<open>is_unspecified\<close>, \<open>is_multicast\<close>.\<close>

definition private_nets :: "(ipv4 \<times> nat) list" where
  "private_nets = [(quad 0 0 0 0, 8), (quad 10 0 0 0, 8), (quad 127 0 0 0, 8), (quad 169 254 0 0, 16),
     (quad 172 16 0 0, 12), (quad 192 0 0 0, 24), (quad 192 0 0 170, 31), (quad 192 0 2 0, 24),
     (quad 192 168 0 0, 16), (quad 198 18 0 0, 15), (quad 198 51 100 0, 24), (quad 203 0 113 0, 24),
     (quad 240 0 0 0, 4), (quad 255 255 255 255, 32)]"

definition private_exceptions :: "ipv4 list" where
  "private_exceptions = [quad 192 0 0 9, quad 192 0 0 10]"

definition ipv4_blocked :: "ipv4 \<Rightarrow> bool" where
  "ipv4_blocked ip \<longleftrightarrow>
     (list_ex (\<lambda>(net, len). in_net net len ip) private_nets \<and> ip \<notin> set private_exceptions) \<or>
     in_net (quad 127 0 0 0) 8 ip \<or> in_net (quad 169 254 0 0) 16 ip \<or> in_net (quad 240 0 0 0) 4 ip \<or>
     ip = 0 \<or> in_net (quad 224 0 0 0) 4 ip"

text \<open>
  \<open>ipaddress.ip_address\<close> and the six flags together: \<open>None\<close> for a text that is no address; \<open>ip6\<close> does
  the same for IPv6.
\<close>

definition ip_blocked :: "(pystr \<Rightarrow> bool option) \<Rightarrow> pystr \<Rightarrow> bool option" where
  "ip_blocked ip6 s = (case ipv4_of s of Some ip \<Rightarrow> Some (ipv4_blocked ip) | None \<Rightarrow> ip6 s)"

lemma metadata_blocked: "ip_blocked ip6 (u ''169.254.169.254'') = Some True"
  by (simp add: ip_blocked_def ipv4_of_def octet_def u_def ipv4_blocked_def in_net_def quad_def)

end
