(* ===== verification/Regex.thy ===== *)
theory Regex
  imports Prelude
begin

text \<open>
  The part of Python's \<open>re\<close> that the redaction rules use: a backtracking matcher that lists all ends of a match in
  the order in which Python tries them, so that the first is the match Python reports, and \<open>Pattern.sub\<close>. The
  matcher is shown equal to the declarative meaning of expressions.
\<close>

subsection \<open>Expressions\<close>

text \<open>
  \<open>Star True\<close> is the greedy repetition, \<open>Star False\<close> the lazy one; \<open>Bound\<close> is the escape for a word boundary, \<open>AtEnd\<close>
  that for the end of the text, and \<open>Keep\<close> the one group that is read after a match.
\<close>

datatype regex =
    Chars "nat \<Rightarrow> bool"
  | Eps
  | Seq regex regex
  | Alt regex regex
  | Star bool regex
  | Bound
  | AtEnd
  | Keep regex

text \<open>A place in the text and the span of the group, if it has taken part.\<close>

type_synonym re_place = "nat \<times> (nat \<times> nat) option"

text \<open>
  The escape \<open>w\<close>: ASCII letters, digits and the underscore; \<open>uword\<close> is the Unicode word class for code points from 128 on.
\<close>

definition word_char :: "(nat \<Rightarrow> bool) \<Rightarrow> nat \<Rightarrow> bool" where
  "word_char uword c \<longleftrightarrow>
     (if c < 128 then (48 \<le> c \<and> c \<le> 57) \<or> (65 \<le> c \<and> c \<le> 90) \<or> (97 \<le> c \<and> c \<le> 122) \<or> c = underscore
      else uword c)"

definition word_at :: "(nat \<Rightarrow> bool) \<Rightarrow> pystr \<Rightarrow> nat \<Rightarrow> bool" where
  "word_at uword s i \<longleftrightarrow> i < length s \<and> word_char uword (s ! i)"

definition re_boundary :: "(nat \<Rightarrow> bool) \<Rightarrow> pystr \<Rightarrow> nat \<Rightarrow> bool" where
  "re_boundary uword s i \<longleftrightarrow> (0 < i \<and> word_at uword s (i - 1)) \<noteq> word_at uword s i"

text \<open>
  Repetition: an iteration must advance, so \<open>fuel\<close> above the length of what is left is enough
  (\<open>reach_star_ends\<close>).
\<close>

fun re_repeat :: "nat \<Rightarrow> bool \<Rightarrow> (re_place \<Rightarrow> re_place list) \<Rightarrow> re_place \<Rightarrow> re_place list" where
  "re_repeat 0 greedy f x = [x]"
| "re_repeat (Suc fuel) greedy f x =
     (let more = concat (map (re_repeat fuel greedy f) (filter (\<lambda>y. fst x < fst y) (f x)))
      in if greedy then more @ [x] else x # more)"

fun re_ends :: "(nat \<Rightarrow> bool) \<Rightarrow> pystr \<Rightarrow> regex \<Rightarrow> re_place \<Rightarrow> re_place list" where
  "re_ends uword s (Chars P) (i, k) = (if i < length s \<and> P (s ! i) then [(Suc i, k)] else [])"
| "re_ends uword s Eps x = [x]"
| "re_ends uword s (Seq a b) x = concat (map (re_ends uword s b) (re_ends uword s a x))"
| "re_ends uword s (Alt a b) x = re_ends uword s a x @ re_ends uword s b x"
| "re_ends uword s (Star greedy a) x = re_repeat (Suc (length s - fst x)) greedy (re_ends uword s a) x"
| "re_ends uword s Bound (i, k) = (if re_boundary uword s i then [(i, k)] else [])"
| "re_ends uword s AtEnd (i, k) = (if i = length s then [(i, k)] else [])"
| "re_ends uword s (Keep a) (i, k) = map (\<lambda>(j, _). (j, Some (i, j))) (re_ends uword s a (i, k))"

text \<open>
  \<open>Pattern.sub\<close> from place \<open>i\<close> on; \<open>new\<close> is the replacement of a match, a function of the text of the group. A match
  that is empty would be replaced too; no rule of the program has one (\<open>ends_advance\<close>).
\<close>

definition re_span :: "pystr \<Rightarrow> nat \<times> nat \<Rightarrow> pystr" where
  "re_span s ab = take (snd ab - fst ab) (drop (fst ab) s)"

function sub_from :: "(nat \<Rightarrow> bool) \<Rightarrow> regex \<Rightarrow> (pystr option \<Rightarrow> pystr) \<Rightarrow> pystr \<Rightarrow> nat \<Rightarrow> pystr" where
  "sub_from uword r new s i =
     (if length s \<le> i then []
      else (case re_ends uword s r (i, None) of
              (j, k) # _ \<Rightarrow>
                if i < j then new (map_option (re_span s) k) @ sub_from uword r new s j
                else s ! i # sub_from uword r new s (Suc i)
            | [] \<Rightarrow> s ! i # sub_from uword r new s (Suc i)))"
  by pat_completeness auto
termination
  by (relation "measure (\<lambda>(uword, r, new, s, i). length s - i)") auto

declare sub_from.simps [simp del]

definition re_sub :: "(nat \<Rightarrow> bool) \<Rightarrow> regex \<Rightarrow> (pystr option \<Rightarrow> pystr) \<Rightarrow> pystr \<Rightarrow> pystr" where
  "re_sub uword r new s = sub_from uword r new s 0"

subsection \<open>Derived expressions\<close>

fun re_seqs :: "regex list \<Rightarrow> regex" where
  "re_seqs [] = Eps"
| "re_seqs [r] = r"
| "re_seqs (r # r' # rs) = Seq r (re_seqs (r' # rs))"

fun re_alts :: "regex list \<Rightarrow> regex" where
  "re_alts [] = Chars (\<lambda>_. False)"
| "re_alts [r] = r"
| "re_alts (r # r' # rs) = Alt r (re_alts (r' # rs))"

definition re_opt :: "regex \<Rightarrow> regex" where "re_opt r = Alt r Eps"
definition re_many :: "regex \<Rightarrow> regex" where "re_many r = Star True r"
definition re_some :: "regex \<Rightarrow> regex" where "re_some r = Seq r (re_many r)"
definition re_exactly :: "nat \<Rightarrow> regex \<Rightarrow> regex" where "re_exactly n r = re_seqs (replicate n r)"
definition re_at_least :: "nat \<Rightarrow> regex \<Rightarrow> regex" where "re_at_least n r = Seq (re_exactly n r) (re_many r)"
definition re_lit :: "string \<Rightarrow> regex" where "re_lit t = re_seqs (map (\<lambda>c. Chars (\<lambda>x. x = of_char c)) t)"
definition char_in :: "string \<Rightarrow> nat \<Rightarrow> bool" where "char_in t x \<longleftrightarrow> x \<in> set (u t)"
definition char_between :: "char \<Rightarrow> char \<Rightarrow> nat \<Rightarrow> bool" where "char_between a b x \<longleftrightarrow> of_char a \<le> x \<and> x \<le> of_char b"

text \<open>
  The flag \<open>IGNORECASE\<close>: a letter matches both its cases, and the four letters outside ASCII that fold to \<open>i\<close>, \<open>k\<close> and
  \<open>s\<close>.
\<close>

definition fold_case :: "nat \<Rightarrow> nat" where
  "fold_case x =
     (if 65 \<le> x \<and> x \<le> 90 then x + 32 else if x = 304 \<or> x = 305 then 105 else if x = 8490 then 107
      else if x = 383 then 115 else x)"

definition re_lit_ci :: "string \<Rightarrow> regex" where
  "re_lit_ci t = re_seqs (map (\<lambda>c. Chars (\<lambda>x. fold_case x = of_char c)) t)"

subsection \<open>The matcher is sound\<close>

lemma repeat_sound:
  assumes "\<And>x y. y \<in> set (f x) \<Longrightarrow> R x y" "y \<in> set (re_repeat n g f x)"
  shows "(\<lambda>x y. R x y \<and> fst x < fst y)\<^sup>*\<^sup>* x y"
  using assms(2)
proof (induction n arbitrary: x)
  case (Suc n)
  then have "y = x \<or> (\<exists>z \<in> set (f x). fst x < fst z \<and> y \<in> set (re_repeat n g f z))"
    by (auto simp: Let_def split: if_splits)
  then show ?case
  proof
    assume "\<exists>z \<in> set (f x). fst x < fst z \<and> y \<in> set (re_repeat n g f z)"
    then obtain z where "z \<in> set (f x)" "fst x < fst z" "y \<in> set (re_repeat n g f z)"
      by blast
    then show ?case
      using Suc.IH [of z] assms(1) by (blast intro: converse_rtranclp_into_rtranclp)
  qed simp
qed simp

lemma star_sound:
  assumes "y \<in> set (re_ends w s (Star g r) x)" "\<And>x y. y \<in> set (re_ends w s r x) \<Longrightarrow> R x y"
    "\<And>x. Q x x" "\<And>x y z. Q x y \<Longrightarrow> R y z \<Longrightarrow> fst y < fst z \<Longrightarrow> Q x z"
  shows "Q x y"
proof -
  have "(\<lambda>x y. R x y \<and> fst x < fst y)\<^sup>*\<^sup>* x y"
    by (rule repeat_sound [OF assms(2)]) (use assms(1) in \<open>simp_all del: re_repeat.simps\<close>)
  then show ?thesis
    by (induction rule: rtranclp_induct) (use assms(3,4) in blast)+
qed

text \<open>A match does not go back, ends in the text, and consumes at least the minimal length.\<close>

fun re_min_len :: "regex \<Rightarrow> nat" where
  "re_min_len (Chars P) = 1"
| "re_min_len (Seq a b) = re_min_len a + re_min_len b"
| "re_min_len (Alt a b) = min (re_min_len a) (re_min_len b)"
| "re_min_len (Keep a) = re_min_len a"
| "re_min_len _ = 0"

definition re_advance :: "pystr \<Rightarrow> nat \<Rightarrow> re_place \<Rightarrow> re_place \<Rightarrow> bool" where
  "re_advance s n x y \<longleftrightarrow> fst x + n \<le> fst y \<and> (fst x \<le> length s \<longrightarrow> fst y \<le> length s)"

lemma ends_advance: "y \<in> set (re_ends w s r x) \<Longrightarrow> re_advance s (re_min_len r) x y"
proof (induction r arbitrary: x y)
  case (Seq a b)
  then obtain z where "z \<in> set (re_ends w s a x)" "y \<in> set (re_ends w s b z)"
    by auto
  then have "re_advance s (re_min_len a) x z" "re_advance s (re_min_len b) z y"
    using Seq.IH by auto
  then show ?case
    by (auto simp: re_advance_def)
next
  case (Alt a b)
  then consider "y \<in> set (re_ends w s a x)" | "y \<in> set (re_ends w s b x)"
    by auto
  then show ?case
    by cases (auto dest!: Alt.IH simp: re_advance_def)
next
  case (Star g r)
  show ?case
    by (rule star_sound [OF Star.prems Star.IH]) (auto simp: re_advance_def)
next
  case (Keep r)
  obtain i k where "x = (i, k)"
    by (cases x)
  with Keep show ?case
    by (fastforce simp: re_advance_def)
qed (cases x; auto simp: re_advance_def split: if_splits)+

fun re_no_keep :: "regex \<Rightarrow> bool" where
  "re_no_keep (Keep a) = False"
| "re_no_keep (Seq a b) \<longleftrightarrow> re_no_keep a \<and> re_no_keep b"
| "re_no_keep (Alt a b) \<longleftrightarrow> re_no_keep a \<and> re_no_keep b"
| "re_no_keep (Star g a) \<longleftrightarrow> re_no_keep a"
| "re_no_keep _ = True"

lemma ends_no_keep: "re_no_keep r \<Longrightarrow> y \<in> set (re_ends w s r x) \<Longrightarrow> snd y = snd x"
proof (induction r arbitrary: x y)
  case (Seq a b)
  then obtain z where "z \<in> set (re_ends w s a x)" "y \<in> set (re_ends w s b z)"
    by auto
  then show ?case
    using Seq.IH(1) [of z x] Seq.IH(2) [of y z] Seq.prems(1) by simp
next
  case (Alt a b)
  from Alt.prems consider "y \<in> set (re_ends w s a x)" "re_no_keep a" | "y \<in> set (re_ends w s b x)" "re_no_keep b"
    by auto
  then show ?case
    by cases (rule Alt.IH; assumption)+
next
  case (Star g r)
  show ?case
    by (rule star_sound [OF Star.prems(2), where R = "\<lambda>x y. snd y = snd x"]) (use Star in auto)
qed (cases x; auto split: if_splits)+

text \<open>The derived expressions.\<close>

lemma no_keep_seqs [simp]: "re_no_keep (re_seqs rs) \<longleftrightarrow> list_all re_no_keep rs"
  by (induction rs rule: re_seqs.induct) auto

lemma min_len_seqs [simp]: "re_min_len (re_seqs rs) = sum_list (map re_min_len rs)"
  by (induction rs rule: re_seqs.induct) auto

lemma no_keep_alts [simp]: "re_no_keep (re_alts rs) \<longleftrightarrow> list_all re_no_keep rs"
  by (induction rs rule: re_alts.induct) auto

lemma derived_simps [simp]:
  "re_no_keep (re_lit t)" "re_no_keep (re_lit_ci t)" "re_no_keep (re_opt r) = re_no_keep r" "re_no_keep (re_many r) = re_no_keep r"
  "re_no_keep (re_some r) = re_no_keep r" "re_no_keep (re_exactly n r) \<longleftrightarrow> n = 0 \<or> re_no_keep r" "re_no_keep (re_at_least n r) = re_no_keep r"
  "re_min_len (re_lit t) = length t" "re_min_len (re_lit_ci t) = length t" "re_min_len (re_opt r) = 0" "re_min_len (re_many r) = 0"
  "re_min_len (re_some r) = re_min_len r" "re_min_len (re_exactly n r) = n * re_min_len r" "re_min_len (re_at_least n r) = n * re_min_len r"
  by (auto simp: re_lit_def re_lit_ci_def re_opt_def re_many_def re_some_def re_exactly_def re_at_least_def list_all_iff
      sum_list_replicate o_def sum_list_triv)

text \<open>The group is read only where it is the start of the expression.\<close>

fun re_keeps_start :: "regex \<Rightarrow> bool" where
  "re_keeps_start (Seq (Keep a) b) \<longleftrightarrow> re_no_keep a \<and> re_no_keep b"
| "re_keeps_start r \<longleftrightarrow> re_no_keep r"

lemma plain_keeps_start [simp]: "re_no_keep r \<Longrightarrow> re_keeps_start r"
  by (cases r rule: re_keeps_start.cases) auto

lemma ends_keeps_start:
  assumes "re_keeps_start r" "(j, k) \<in> set (re_ends w s r (i, None))" "i \<le> length s"
  shows "k = None \<or> (\<exists>m. k = Some (i, m) \<and> i \<le> m \<and> m \<le> j)" "j \<le> length s"
proof -
  show "j \<le> length s"
    using ends_advance [OF assms(2)] assms(3) by (simp add: re_advance_def)
  show "k = None \<or> (\<exists>m. k = Some (i, m) \<and> i \<le> m \<and> m \<le> j)"
  proof (cases "re_no_keep r")
    case True
    then show ?thesis
      using ends_no_keep assms(2) by fastforce
  next
    case False
    then obtain a b where r: "r = Seq (Keep a) b" "re_no_keep a" "re_no_keep b"
      using assms(1) by (cases r rule: re_keeps_start.cases) auto
    then obtain m k' where m: "(m, k') \<in> set (re_ends w s a (i, None))" "(j, k) \<in> set (re_ends w s b (m, Some (i, m)))"
      using assms(2) by auto
    then have "k = Some (i, m)"
      using ends_no_keep [OF r(3) m(2)] by simp
    then show ?thesis
      using ends_advance [OF m(1)] ends_advance [OF m(2)] by (simp add: re_advance_def)
  qed
qed


subsection \<open>The matcher is complete\<close>

text \<open>The meaning of an expression: the pairs of places between which it matches.\<close>

inductive re_reach :: "(nat \<Rightarrow> bool) \<Rightarrow> pystr \<Rightarrow> regex \<Rightarrow> nat \<Rightarrow> nat \<Rightarrow> bool" for uword s where
  chars: "i < length s \<Longrightarrow> P (s ! i) \<Longrightarrow> re_reach uword s (Chars P) i (Suc i)"
| eps: "re_reach uword s Eps i i"
| seq: "re_reach uword s a i j \<Longrightarrow> re_reach uword s b j l \<Longrightarrow> re_reach uword s (Seq a b) i l"
| alt1: "re_reach uword s a i j \<Longrightarrow> re_reach uword s (Alt a b) i j"
| alt2: "re_reach uword s b i j \<Longrightarrow> re_reach uword s (Alt a b) i j"
| star_nil: "re_reach uword s (Star g a) i i"
| star_more: "re_reach uword s a i j \<Longrightarrow> re_reach uword s (Star g a) j l \<Longrightarrow> re_reach uword s (Star g a) i l"
| bound: "re_boundary uword s i \<Longrightarrow> re_reach uword s Bound i i"
| at_end: "re_reach uword s AtEnd (length s) (length s)"
| keep: "re_reach uword s a i j \<Longrightarrow> re_reach uword s (Keep a) i j"

lemma ends_reach: "y \<in> set (re_ends w s r x) \<Longrightarrow> re_reach w s r (fst x) (fst y)"
proof (induction r arbitrary: x y)
  case (Seq a b)
  then obtain z where "z \<in> set (re_ends w s a x)" "y \<in> set (re_ends w s b z)"
    by auto
  then show ?case
    using Seq.IH by (blast intro: re_reach.seq)
next
  case (Alt a b)
  from Alt.prems consider "y \<in> set (re_ends w s a x)" | "y \<in> set (re_ends w s b x)"
    by auto
  then show ?case
    using Alt.IH by cases (blast intro: re_reach.alt1 re_reach.alt2)+
next
  case (Star g r)
  have "(\<lambda>x y. re_reach w s r (fst x) (fst y) \<and> fst x < fst y)\<^sup>*\<^sup>* x y"
    by (rule repeat_sound [where R = "\<lambda>x y. re_reach w s r (fst x) (fst y)", OF Star.IH])
      (use Star.prems in \<open>simp_all del: re_repeat.simps\<close>)
  then show ?case
    by (induction rule: converse_rtranclp_induct) (auto intro: re_reach.star_nil re_reach.star_more)
next
  case (Keep r)
  obtain i k where "x = (i, k)"
    by (cases x)
  then obtain j k' where "y = (j, Some (i, j))" "(j, k') \<in> set (re_ends w s r (i, k))"
    using Keep.prems by auto
  then show ?case
    using Keep.IH [of "(j, k')" "(i, k)"] \<open>x = (i, k)\<close> by (simp add: re_reach.keep)
qed (cases x; auto intro: re_reach.intros split: if_splits)+

lemma reach_le: "re_reach w s r i j \<Longrightarrow> i \<le> j \<and> (i \<le> length s \<longrightarrow> j \<le> length s)"
  by (induction rule: re_reach.induct) auto

lemma repeat_start: "x \<in> set (re_repeat n g f x)"
  by (cases n) (auto simp: Let_def)

lemma reach_star_ends:
  assumes "\<And>i j k. re_reach w s a i j \<Longrightarrow> i \<le> length s \<Longrightarrow> \<exists>k'. (j, k') \<in> set (re_ends w s a (i, k))"
    "re_reach w s (Star g a) i j" "length s - i < n" "i \<le> length s"
  shows "\<exists>k'. (j, k') \<in> set (re_repeat n h (re_ends w s a) (i, k))"
  using assms(2-)
proof (induction "Star g a" i j arbitrary: n k rule: re_reach.induct)
  case (star_nil i)
  then show ?case
    using repeat_start by blast
next
  case (star_more i m l)
  then obtain k1 where k1: "(m, k1) \<in> set (re_ends w s a (i, k))"
    using assms(1) by blast
  have "i \<le> m" "m \<le> length s"
    using reach_le [OF star_more(1)] star_more.prems by auto
  show ?case
  proof (cases "i = m")
    case True
    then show ?thesis
      using star_more by blast
  next
    case False
    obtain n' where n: "n = Suc n'"
      using star_more.prems(1) by (cases n) auto
    have "length s - m < n'" "i < m"
      using star_more.prems False \<open>i \<le> m\<close> \<open>m \<le> length s\<close> unfolding n by simp_all
    then obtain k' where l: "(l, k') \<in> set (re_repeat n' h (re_ends w s a) (m, k1))"
      using star_more.hyps(4) [of n' k1] \<open>m \<le> length s\<close> by blast
    have "(l, k') \<in> set (concat (map (re_repeat n' h (re_ends w s a)) (filter (\<lambda>y. i < fst y) (re_ends w s a (i, k)))))"
      using l k1 \<open>i < m\<close> by auto
    then have "(l, k') \<in> set (re_repeat n h (re_ends w s a) (i, k))"
      unfolding n by (cases h) (simp_all add: Let_def)
    then show ?thesis
      by blast
  qed
qed

lemma reach_ends: "re_reach w s r i j \<Longrightarrow> i \<le> length s \<Longrightarrow> \<exists>k'. (j, k') \<in> set (re_ends w s r (i, k))"
proof (induction r arbitrary: i j k)
  case (Star g a)
  show ?case
    using reach_star_ends [OF Star.IH Star.prems(1), of "Suc (length s - i)" g k] Star.prems(2)
    by (simp del: re_repeat.simps)
next
  case (Seq a b)
  then obtain m where m: "re_reach w s a i m" "re_reach w s b m j"
    by (auto elim: re_reach.cases)
  then show ?case
    using Seq.IH(1) [OF m(1) Seq.prems(2)] Seq.IH(2) [OF m(2)] reach_le [OF m(1)] Seq.prems(2) by fastforce
next
  case (Keep a)
  then have "re_reach w s a i j"
    by (auto elim: re_reach.cases)
  then show ?case
    using Keep by fastforce
next
  case (Alt a b)
  from Alt.prems(1) consider "re_reach w s a i j" | "re_reach w s b i j"
    by (auto elim: re_reach.cases)
  then show ?case
    using Alt.IH Alt.prems(2) by cases (simp; blast)+
qed (auto elim: re_reach.cases)

text \<open>The matcher finds exactly the matches of the expression.\<close>

theorem ends_are_matches:
  assumes "i \<le> length s"
  shows "fst ` set (re_ends w s r (i, k)) = {j. re_reach w s r i j}"
proof
  show "fst ` set (re_ends w s r (i, k)) \<subseteq> {j. re_reach w s r i j}"
    using ends_reach [of _ w s r "(i, k)"] by auto
  show "{j. re_reach w s r i j} \<subseteq> fst ` set (re_ends w s r (i, k))"
  proof
    fix j
    assume "j \<in> {j. re_reach w s r i j}"
    then obtain k' where "(j, k') \<in> set (re_ends w s r (i, k))"
      using reach_ends [OF _ assms] by blast
    then show "j \<in> fst ` set (re_ends w s r (i, k))"
      by (force simp: image_iff)
  qed
qed

subsection \<open>What substitution leaves behind\<close>

text \<open>
  A substitution whose replacement keeps the group and adds a text that starts and ends with a separator puts no
  word without separators into the text.
\<close>

lemma sub_from_nil: "length s \<le> i \<Longrightarrow> sub_from w r new s i = []"
  by (simp add: sub_from.simps)

lemma sub_from_cases:
  assumes "re_keeps_start r" "i < length s"
  obtains "sub_from w r new s i = s ! i # sub_from w r new s (Suc i)"
  | j m where "i < j" "j \<le> length s" "i \<le> m" "m \<le> j"
      "sub_from w r new s i = new (Some (re_span s (i, m))) @ sub_from w r new s j"
  | j where "i < j" "j \<le> length s" "sub_from w r new s i = new None @ sub_from w r new s j"
proof (cases "re_ends w s r (i, None)")
  case Nil
  then show ?thesis
    using assms that(1) by (simp add: sub_from.simps)
next
  case (Cons y ys)
  obtain j k where y: "y = (j, k)"
    by (cases y)
  then have k: "k = None \<or> (\<exists>m. k = Some (i, m) \<and> i \<le> m \<and> m \<le> j)" "j \<le> length s"
    using ends_keeps_start [OF assms(1), of j k w s i] assms(2) Cons by auto
  show ?thesis
  proof (cases "i < j")
    case True
    then show ?thesis
      using k assms(2) Cons y that(2,3) sub_from.simps [of w r new s i] by auto
  next
    case False
    then show ?thesis
      using assms(2) Cons y that(1) sub_from.simps [of w r new s i] by simp
  qed
qed

text \<open>
  \<open>re_separated new\<close>: the replacement is the text of the group followed by a text that starts and ends with a separator
  and has no part \<open>v\<close> between them.
\<close>

definition re_separated :: "nat \<Rightarrow> nat \<Rightarrow> pystr \<Rightarrow> (pystr option \<Rightarrow> pystr) \<Rightarrow> bool" where
  "re_separated c1 c2 v new \<longleftrightarrow> c1 \<notin> set v \<and> c2 \<notin> set v \<and> v \<noteq> [] \<and>
     (\<exists>mid. \<not> sublist v mid \<and> (\<forall>k. \<exists>pre. new k = pre @ c1 # mid @ [c2] \<and> prefix pre (case k of None \<Rightarrow> [] | Some t \<Rightarrow> t)))"

lemma prefix_span: "i \<le> m \<Longrightarrow> m \<le> length s \<Longrightarrow> drop i s = re_span s (i, m) @ drop m s"
  using append_take_drop_id [of "m - i" "drop i s"] by (simp add: re_span_def)

lemma prefix_cut:
  assumes "c \<notin> set x" "prefix x (a @ c # b)"
  shows "prefix x a"
proof -
  from assms(2) have "prefix x a \<or> (\<exists>q. x = a @ q \<and> prefix q (c # b))"
    by (simp add: prefix_append)
  then show ?thesis
  proof
    assume "\<exists>q. x = a @ q \<and> prefix q (c # b)"
    then obtain q where "x = a @ q" "prefix q (c # b)"
      by blast
    then show ?thesis
      using assms(1) by (cases q) simp_all
  qed
qed

lemma separatedE:
  assumes "re_separated c1 c2 v new"
  obtains pre mid where "new k = pre @ c1 # mid @ [c2]" "prefix pre (case k of None \<Rightarrow> [] | Some t \<Rightarrow> t)"
    "\<not> sublist v mid"
proof -
  obtain mid where m: "\<not> sublist v mid"
    "\<forall>k. \<exists>pre. new k = pre @ c1 # mid @ [c2] \<and> prefix pre (case k of None \<Rightarrow> [] | Some t \<Rightarrow> t)"
    using assms unfolding re_separated_def by blast
  from m(2) [rule_format, of k] show thesis
    using that m(1) by blast
qed

lemma sublist_sep:
  assumes "c \<notin> set v" "sublist v (a @ c # b)" "v \<noteq> []"
  shows "sublist v a \<or> sublist v b"
proof -
  from assms(2) consider "sublist v a" | "sublist v (c # b)"
    | v1 v2 where "v = v1 @ v2" "suffix v1 a" "prefix v2 (c # b)"
    by (auto simp: sublist_append)
  then show ?thesis
  proof cases
    case 1
    then show ?thesis ..
  next
    case 2
    then show ?thesis
      using assms(1,3) by (cases v) (auto simp: sublist_Cons_right)
  next
    case 3
    then have "v2 = []"
      using assms(1) by (cases v2) auto
    then show ?thesis
      using 3 suffix_imp_sublist by auto
  qed
qed

text \<open>One step of the substitution, in the form both inductions below use.\<close>

lemma sub_from_step:
  assumes "re_keeps_start r" "re_separated c1 c2 v new" "i < length s"
  obtains "sub_from w r new s i = s ! i # sub_from w r new s (Suc i)"
  | j pre mid where "i < j" "j \<le> length s" "prefix pre (drop i s)" "\<not> sublist v mid"
      "sub_from w r new s i = pre @ c1 # mid @ c2 # sub_from w r new s j"
proof (rule sub_from_cases [OF assms(1,3), of w new])
  fix j m
  assume j: "i < j" "j \<le> length s" and m: "i \<le> m" "m \<le> j"
    and e: "sub_from w r new s i = new (Some (re_span s (i, m))) @ sub_from w r new s j"
  obtain pre mid where "new (Some (re_span s (i, m))) = pre @ c1 # mid @ [c2]" "prefix pre (re_span s (i, m))"
    "\<not> sublist v mid"
    by (rule separatedE [OF assms(2), of "Some (re_span s (i, m))"]) auto
  then show thesis
    using that(2) [OF j, of pre mid] e prefix_span [of i m s] m j by (simp add: prefix_prefix)
next
  fix j
  assume j: "i < j" "j \<le> length s" and e: "sub_from w r new s i = new None @ sub_from w r new s j"
  obtain pre mid where "new None = pre @ c1 # mid @ [c2]" "prefix pre []" "\<not> sublist v mid"
    by (rule separatedE [OF assms(2), of None]) auto
  then show thesis
    using that(2) [OF j, of pre mid] e by simp
qed (rule that(1))

lemma sub_keeps_prefix:
  assumes "re_keeps_start r" "re_separated c1 c2 v new" "set x \<subseteq> set v" "prefix x (sub_from w r new s i)"
  shows "prefix x (drop i s)"
  using assms(3,4)
proof (induction "length s - i" arbitrary: i x rule: less_induct)
  case less
  show ?case
  proof (cases "i < length s")
    case True
    show ?thesis
    proof (rule sub_from_step [OF assms(1,2) True, of w])
      assume e: "sub_from w r new s i = s ! i # sub_from w r new s (Suc i)"
      show ?thesis
      proof (cases x)
        case (Cons a y)
        then have "prefix y (drop (Suc i) s)"
          using less.hyps [of "Suc i" y] less.prems True e by auto
        then show ?thesis
          using less.prems(2) e True Cons by (simp flip: Cons_nth_drop_Suc)
      qed simp
    next
      fix j pre mid
      assume "prefix pre (drop i s)" "sub_from w r new s i = pre @ c1 # mid @ c2 # sub_from w r new s j"
      moreover have "c1 \<notin> set x"
        using less.prems(1) assms(2) by (auto simp: re_separated_def)
      ultimately show ?thesis
        using less.prems(2) prefix_cut [of c1 x pre] prefix_order.trans by auto
    qed
  next
    case False
    then show ?thesis
      using less.prems by (simp add: sub_from_nil)
  qed
qed

lemma sub_keeps_part:
  assumes "re_keeps_start r" "re_separated c1 c2 v new" "sublist v (sub_from w r new s i)"
  shows "sublist v (drop i s)"
  using assms(3)
proof (induction "length s - i" arbitrary: i rule: less_induct)
  case less
  have v: "c1 \<notin> set v" "c2 \<notin> set v" "v \<noteq> []"
    using assms(2) by (auto simp: re_separated_def)
  show ?case
  proof (cases "i < length s")
    case True
    show ?thesis
    proof (rule sub_from_step [OF assms(1,2) True, of w])
      assume e: "sub_from w r new s i = s ! i # sub_from w r new s (Suc i)"
      then have "prefix v (sub_from w r new s i) \<or> sublist v (sub_from w r new s (Suc i))"
        using less.prems by (simp add: sublist_Cons_right)
      then show ?thesis
      proof
        assume "prefix v (sub_from w r new s i)"
        then show ?thesis
          using sub_keeps_prefix [OF assms(1,2) subset_refl] by blast
      next
        assume "sublist v (sub_from w r new s (Suc i))"
        then show ?thesis
          using less.hyps [of "Suc i"] True by (simp add: sublist_Cons_right flip: Cons_nth_drop_Suc)
      qed
    next
      fix j pre mid
      assume j: "i < j" "j \<le> length s" "prefix pre (drop i s)" "\<not> sublist v mid"
        and e: "sub_from w r new s i = pre @ c1 # mid @ c2 # sub_from w r new s j"
      then have "sublist v pre \<or> sublist v (sub_from w r new s j)"
        using less.prems sublist_sep v by metis
      then show ?thesis
      proof
        assume "sublist v pre"
        then show ?thesis
          using j(3) prefix_imp_sublist sublist_order.order_trans by blast
      next
        assume "sublist v (sub_from w r new s j)"
        then have "sublist v (drop j s)"
          using less.hyps [of j] j(1) True by simp
        moreover have "drop j s = drop (j - i) (drop i s)"
          using j(1) by simp
        ultimately show ?thesis
          using sublist_drop sublist_order.order_trans by metis
      qed
    qed
  next
    case False
    then show ?thesis
      using less.prems v by (simp add: sub_from_nil)
  qed
qed

lemma re_sub_keeps:
  "re_keeps_start r \<Longrightarrow> re_separated c1 c2 v new \<Longrightarrow> sublist v (re_sub w r new s) \<Longrightarrow> sublist v s"
  using sub_keeps_part [of r c1 c2 v new w s 0] by (simp add: re_sub_def)

text \<open>A text shorter than every match is left as it is.\<close>

lemma re_sub_short:
  assumes "length s < re_min_len r"
  shows "re_sub w r new s = s"
proof -
  have "sub_from w r new s i = drop i s" if "i \<le> length s" for i
    using that
  proof (induction "length s - i" arbitrary: i)
    case (Suc n)
    have "re_ends w s r (i, None) = []"
    proof (rule ccontr)
      assume "re_ends w s r (i, None) \<noteq> []"
      then show False
        using ends_advance [OF hd_in_set, of w s r "(i, None)"] assms Suc.prems by (simp add: re_advance_def)
    qed
    then show ?case
      using Suc sub_from.simps [of w r new s i] by (simp add: Cons_nth_drop_Suc)
  qed (simp add: sub_from_nil)
  then show ?thesis
    by (simp add: re_sub_def)
qed

end
