(* ===== verification/Redaction.thy ===== *)
theory Redaction
  imports Config Url Regex
begin

text \<open>
  \<open>security/redaction.py\<close>: the literal patterns of a hook secret in its three encodings, the
  exact secrets of the deployment, the regular expressions for common formats (over the matcher of theory
  \<open>Regex\<close>), and the order in which the redactions are applied.
\<close>

subsection \<open>Literal substitution\<close>

definition REDACTED :: pystr where
  "REDACTED = u ''[REDACTED]''"

text \<open>
  \<open>re.compile(re.escape(v)).sub(new, s)\<close>: an empty pattern matches between all characters, any
  other replaces its leftmost non-overlapping occurrences.
\<close>

definition sub_literal :: "pystr \<Rightarrow> pystr \<Rightarrow> pystr \<Rightarrow> pystr" where
  "sub_literal v new s =
     (if v = [] then new @ concat (map (\<lambda>c. c # new) s) else replace_all v new s)"

definition hex_of :: "nat list \<Rightarrow> pystr" where
  "hex_of bs = concat (map (\<lambda>b. map (\<lambda>d. if d < 10 then 48 + d else 87 + d) [b div 16, b mod 16]) bs)"

definition b64_char :: "nat \<Rightarrow> nat" where
  "b64_char n = (if n < 26 then 65 + n else if n < 52 then 71 + n else if n < 62 then n - 4
     else if n = 62 then 43 else 47)"

fun b64encode :: "nat list \<Rightarrow> pystr" where
  "b64encode [] = []"
| "b64encode [a] = [b64_char (a div 4), b64_char (a mod 4 * 16), 61, 61]"
| "b64encode [a, b] =
     [b64_char (a div 4), b64_char (a mod 4 * 16 + b div 16), b64_char (b mod 16 * 4), 61]"
| "b64encode (a # b # c # bs) =
     b64_char (a div 4) # b64_char (a mod 4 * 16 + b div 16) #
     b64_char (b mod 16 * 4 + c div 64) # b64_char (c mod 64) # b64encode bs"

text \<open>Bytes are numbers below 256; their \<open>latin-1\<close> decoding is the identity on code points.\<close>

definition build_redaction_patterns :: "nat list \<Rightarrow> pystr list" where
  "build_redaction_patterns hook_secret = [hook_secret, hex_of hook_secret, b64encode hook_secret]"

definition redact_value :: "pystr \<Rightarrow> pystr list \<Rightarrow> pystr" where
  "redact_value txt patterns = fold (\<lambda>p t. sub_literal p REDACTED t) patterns txt"

subsection \<open>Deployment secrets\<close>

text \<open>
  \<open>_deployment_secrets\<close>: no pattern when the settings cannot be built or a URL is invalid; otherwise
  the values of at least eight characters, longest first. The order among values of one length is
  that of a Python set; the model keeps the order of insertion, and no theorem depends on it.
\<close>

definition secret_values :: "(pystr \<Rightarrow> bool) \<Rightarrow> settings \<Rightarrow> pystr list option" where
  "secret_values netloc_ok s =
     (case (urlsplit netloc_ok (DATABASE_URL s), urlsplit netloc_ok (REDIS_URL s)) of
        (Some (_, n1), Some (_, n2)) \<Rightarrow>
          Some (remdups
            ([DISCORD_TOKEN s, RUNNER_CONTROL_AUTH s] @ map py_strip (split_on 44 (DEPLOYMENT_SECRET_KEY s)) @
             concat (map (\<lambda>n. case netloc_password n of
                                   Some p \<Rightarrow> if p = [] then [] else [p]
                                 | None \<Rightarrow> []) [n1, n2])))
      | _ \<Rightarrow> None)"

definition deployment_secrets :: "(pystr \<Rightarrow> bool) \<Rightarrow> settings option \<Rightarrow> pystr list" where
  "deployment_secrets netloc_ok cfg =
     (case cfg of
        None \<Rightarrow> []
      | Some s \<Rightarrow>
          (case secret_values netloc_ok s of
             None \<Rightarrow> []
           | Some vs \<Rightarrow> filter (\<lambda>v. 8 \<le> length v) (sort_key (\<lambda>v. - int (length v)) vs)))"

definition redact_deployment :: "(pystr \<Rightarrow> bool) \<Rightarrow> settings option \<Rightarrow> pystr \<Rightarrow> pystr" where
  "redact_deployment netloc_ok cfg txt =
     fold (\<lambda>v t. sub_literal v REDACTED t) (deployment_secrets netloc_ok cfg) txt"

subsection \<open>Common formats\<close>

definition upper :: "nat \<Rightarrow> bool" where "upper = char_between CHR ''A'' CHR ''Z''"
definition lower :: "nat \<Rightarrow> bool" where "lower = char_between CHR ''a'' CHR ''z''"
definition digit :: "nat \<Rightarrow> bool" where "digit = char_between CHR ''0'' CHR ''9''"
definition alnum :: "nat \<Rightarrow> bool" where "alnum x \<longleftrightarrow> upper x \<or> lower x \<or> digit x"

text \<open>A class of letters, digits and further characters, and such a class under \<open>IGNORECASE\<close>.\<close>

definition alnum_or :: "string \<Rightarrow> nat \<Rightarrow> bool" where "alnum_or t x \<longleftrightarrow> alnum x \<or> char_in t x"
definition alnum_ci :: "string \<Rightarrow> nat \<Rightarrow> bool" where
  "alnum_ci t x \<longleftrightarrow> lower (fold_case x) \<or> digit x \<or> char_in t x"

definition quote_opt :: regex where "quote_opt = re_opt (Chars (\<lambda>x. x = 34 \<or> x = 39))"
definition spaces :: regex where "spaces = re_many (Chars is_space)"

definition SECRET_KEY_NAME :: regex where
  "SECRET_KEY_NAME =
     Alt
       (re_seqs
         [re_many (Chars (alnum_or ''_.-'')),
          re_alts
            [re_lit_ci ''token'', re_lit_ci ''secret'',
             re_seqs [re_lit_ci ''passw'', re_opt (re_lit_ci ''or''), re_lit_ci ''d''],
             re_seqs [re_lit_ci ''api'', re_opt (Chars (char_in ''_-'')), re_lit_ci ''key''],
             Seq (re_lit_ci ''credential'') (re_opt (re_lit_ci ''s'')),
             re_seqs [re_lit_ci ''private'', re_opt (Chars (char_in ''_-'')), re_lit_ci ''key'']],
          re_many (Chars (alnum_or ''_.-''))])
       (re_seqs
         [re_many (Chars (\<lambda>x. upper x \<or> digit x \<or> x = underscore)),
          re_alts [re_lit ''_AUTH'', re_lit ''_KEY'', re_lit ''AUTH_''],
          re_many (Chars (\<lambda>x. upper x \<or> digit x \<or> x = underscore))])"

definition credential :: "nat \<Rightarrow> bool" where
  "credential x \<longleftrightarrow> \<not> char_in ''/:@'' x \<and> \<not> is_space x"

definition COMMON_SECRET_PATTERNS :: "regex list" where
  "COMMON_SECRET_PATTERNS =
     [Seq (Keep (re_seqs [quote_opt, Bound, SECRET_KEY_NAME, quote_opt, spaces, Chars (char_in '':=''), spaces]))
        (re_seqs [quote_opt, re_some (Chars (\<lambda>x. \<not> is_space x \<and> x \<notin> {34, 39} \<and> \<not> char_in '',;}'' x)), quote_opt]),
      Seq (Keep (Seq (re_lit_ci ''bearer'') (re_some (Chars is_space))))
        (Seq (re_some (Chars (alnum_ci ''-._~+/''))) (re_many (re_lit ''=''))),
      Seq (Keep (re_seqs [Chars (\<lambda>x. lower (fold_case x)), re_many (Chars (alnum_ci ''+.-'')), re_lit ''://'']))
        (re_seqs [re_some (Chars credential), re_lit '':'', re_some (Chars credential), re_lit ''@'',
           re_some (Chars (\<lambda>x. \<not> is_space x))]),
      re_seqs [Chars (char_in ''MNO''), re_at_least 23 (Chars (alnum_or ''_-'')), re_lit ''.'',
        re_at_least 6 (Chars (alnum_or ''_-'')), re_lit ''.'', re_at_least 27 (Chars (alnum_or ''_-''))],
      re_seqs [Bound, re_lit ''sk-'', re_at_least 20 (Chars (alnum_or ''_-''))],
      re_seqs [Bound, re_lit ''gh'', Chars (char_in ''pousr''), re_lit ''_'', re_at_least 30 (Chars alnum)],
      re_seqs [Bound, re_lit ''github_pat_'', re_at_least 22 (Chars (alnum_or ''_''))],
      re_seqs [Bound, Alt (re_lit ''AKIA'') (re_lit ''ASIA''), re_exactly 16 (Chars (\<lambda>x. digit x \<or> upper x)), Bound],
      re_seqs [Bound, re_lit ''AIza'', re_exactly 35 (Chars (alnum_or ''_-''))],
      re_seqs [Bound, re_lit ''xox'', Chars (char_in ''abposr''), re_lit ''-'', re_at_least 10 (Chars (alnum_or ''-''))],
      re_seqs [re_lit ''-----BEGIN '', re_many (Chars (\<lambda>x. upper x \<or> x = space)), re_lit ''PRIVATE KEY-----'',
        Star False (Chars (\<lambda>_. True)),
        Alt (re_seqs [re_lit ''-----END '', re_many (Chars (\<lambda>x. upper x \<or> x = space)), re_lit ''PRIVATE KEY-----''])
          AtEnd]]"

definition redact_match :: "pystr option \<Rightarrow> pystr" where
  "redact_match keep = (case keep of None \<Rightarrow> REDACTED | Some k \<Rightarrow> if k = [] then REDACTED else k @ REDACTED)"

definition apply_common_redaction ::
  "(nat \<Rightarrow> bool) \<Rightarrow> (pystr \<Rightarrow> bool) \<Rightarrow> settings option \<Rightarrow> pystr \<Rightarrow> pystr" where
  "apply_common_redaction uword netloc_ok cfg txt =
     fold (\<lambda>pattern t. re_sub uword pattern redact_match t) COMMON_SECRET_PATTERNS (redact_deployment netloc_ok cfg txt)"

text \<open>\<open>apply_pattern_redaction\<close> of \<open>dispatcher/message_builder.py\<close>.\<close>

definition apply_pattern_redaction :: "(nat \<Rightarrow> bool) \<Rightarrow> pystr \<Rightarrow> pystr" where
  "apply_pattern_redaction uword content =
     re_sub uword
       (Seq (Keep (re_alts [re_lit_ci ''token'', re_lit_ci ''secret'', re_lit_ci ''key'', re_lit_ci ''password'']))
          (re_seqs [spaces, Chars (char_in '':=''), spaces, re_some (Chars (\<lambda>x. \<not> is_space x))]))
       (\<lambda>g. (case g of None \<Rightarrow> [] | Some k \<Rightarrow> k) @ u ''='' @ REDACTED) content"

subsection \<open>What substitution leaves behind\<close>

text \<open>
  A word without brackets that is no part of \<open>REDACTED\<close> cannot appear through a substitution:
  where it occurs in the result it occurred in the text, and the substituted word itself is gone.
\<close>

definition plain_secret :: "pystr \<Rightarrow> bool" where
  "plain_secret v \<longleftrightarrow> v \<noteq> [] \<and> 91 \<notin> set v \<and> 93 \<notin> set v \<and> \<not> sublist v (u ''REDACTED'')"

lemma REDACTED_eq: "REDACTED = 91 # u ''REDACTED'' @ [93]"
  by (simp add: REDACTED_def u_def)

lemma replace_all_match:
  "v \<noteq> [] \<Longrightarrow> prefix v s \<Longrightarrow> replace_all v n s = n @ replace_all v n (drop (length v) s)"
  by (subst replace_all.simps) auto

lemma prefix_replace_all:
  assumes "w \<noteq> [] \<Longrightarrow> 91 \<notin> set w" "v \<noteq> []" "prefix w (replace_all v REDACTED s)"
  shows "prefix w s"
  using assms
proof (induction w arbitrary: s)
  case (Cons c w)
  show ?case
  proof (cases s)
    case (Cons x s')
    show ?thesis
    proof (cases "prefix v (x # s')")
      case True
      then have "c = 91"
        using Cons.prems Cons by (simp add: replace_all_Cons REDACTED_eq)
      then show ?thesis
        using Cons.prems by simp
    next
      case False
      then show ?thesis
        using Cons Cons.prems Cons.IH [of s'] by (simp add: replace_all_Cons)
    qed
  qed (use Cons.prems in simp)
qed simp

lemma sublist_REDACTED:
  assumes "plain_secret w" "sublist w (REDACTED @ t)"
  shows "sublist w t"
proof -
  have "sublist w ([] @ 91 # (u ''REDACTED'' @ 93 # t))"
    using assms(2) by (simp add: REDACTED_eq)
  then have "sublist w (u ''REDACTED'' @ 93 # t)"
    using sublist_sep [of 91 w "[]"] assms(1) by (auto simp: plain_secret_def)
  then show ?thesis
    using sublist_sep [of 93 w] assms(1) by (auto simp: plain_secret_def)
qed

lemma sublist_replace_all:
  assumes "plain_secret w" "v \<noteq> []" "sublist w (replace_all v REDACTED s)"
  shows "sublist w s"
  using assms
proof (induction v REDACTED s rule: replace_all.induct)
  case (1 v s)
  show ?case
  proof (cases "s = []")
    case False
    then obtain c s' where s: "s = c # s'"
      by (cases s) auto
    show ?thesis
    proof (cases "prefix v s")
      case True
      then have "sublist w (replace_all v REDACTED (drop (length v) s))"
        using sublist_REDACTED [OF 1(3)] 1(5) replace_all_match [OF 1(4) True] by simp
      then have "sublist w (drop (length v) s)"
        using 1(1) 1(3,4) False True by simp
      then show ?thesis
        by (meson sublist_drop sublist_order.order_trans)
    next
      case np: False
      then have e: "replace_all v REDACTED s = c # replace_all v REDACTED s'"
        using s 1(4) by (simp add: replace_all_Cons)
      from 1(5) have "prefix w (replace_all v REDACTED s) \<or> sublist w (replace_all v REDACTED s')"
        unfolding e sublist_Cons_right by auto
      then show ?thesis
      proof
        assume "prefix w (replace_all v REDACTED s)"
        then have "prefix w s"
          using 1(3,4) prefix_replace_all [of w v s] by (simp add: plain_secret_def)
        then show ?thesis
          by (rule prefix_imp_sublist)
      next
        assume "sublist w (replace_all v REDACTED s')"
        then have "sublist w s'"
          using 1(2) 1(3,4) s np False by simp
        then show ?thesis
          unfolding s by (rule sublist_Cons_right [THEN iffD2, OF disjI2])
      qed
    qed
  qed (use 1 in simp)
qed

lemma replaced_gone:
  assumes "plain_secret v"
  shows "\<not> sublist v (replace_all v REDACTED s)"
  using assms
proof (induction v REDACTED s rule: replace_all.induct)
  case (1 v s)
  have v: "v \<noteq> []" "91 \<notin> set v"
    using 1 by (auto simp: plain_secret_def)
  show ?case
  proof (cases "s = []")
    case False
    then obtain c s' where s: "s = c # s'"
      by (cases s) auto
    show ?thesis
    proof (cases "prefix v s")
      case True
      have "\<not> sublist v (replace_all v REDACTED (drop (length v) s))"
        using 1(1) 1(3) True False v by simp
      then show ?thesis
        using sublist_REDACTED [OF 1(3)] replace_all_match [OF v(1) True] by auto
    next
      case np: False
      have e: "replace_all v REDACTED s = c # replace_all v REDACTED s'"
        using s np v by (simp add: replace_all_Cons)
      have "\<not> prefix v (replace_all v REDACTED s)"
        using prefix_replace_all [of v v s] v np by auto
      moreover have "\<not> sublist v (replace_all v REDACTED s')"
        using 1(2) 1(3) np s v False by simp
      ultimately show ?thesis
        unfolding e sublist_Cons_right by blast
    qed
  qed (use v in simp)
qed

lemma fold_redact_keeps:
  assumes "plain_secret w" "\<forall>v \<in> set vs. v \<noteq> []"
    "sublist w (fold (\<lambda>v t. sub_literal v REDACTED t) vs s)"
  shows "sublist w s"
  using assms
proof (induction vs arbitrary: s)
  case (Cons v vs)
  then have "sublist w (sub_literal v REDACTED s)"
    by simp
  then show ?case
    using Cons.prems sublist_replace_all [of w v s] by (simp add: sub_literal_def)
qed simp

lemma fold_redact_gone:
  assumes "plain_secret w" "\<forall>v \<in> set vs. v \<noteq> []" "w \<in> set vs"
  shows "\<not> sublist w (fold (\<lambda>v t. sub_literal v REDACTED t) vs s)"
  using assms
proof (induction vs arbitrary: s)
  case (Cons v vs)
  show ?case
  proof (cases "v = w")
    case True
    then show ?thesis
      using Cons.prems fold_redact_keeps [of w vs "replace_all w REDACTED s"] replaced_gone [of w s]
      by (auto simp: sub_literal_def plain_secret_def)
  next
    case False
    then show ?thesis
      using Cons by simp
  qed
qed simp

lemma deployment_secrets_ne: "v \<in> set (deployment_secrets nk cfg) \<Longrightarrow> v \<noteq> []"
  by (auto simp: deployment_secrets_def split: option.splits)

lemma deployment_secrets_set:
  "secret_values nk s = Some vs \<Longrightarrow> set (deployment_secrets nk (Some s)) = {v \<in> set vs. 8 \<le> length v}"
  by (auto simp: deployment_secrets_def)

text \<open>A text shorter than eight characters contains no deployment secret.\<close>

lemma replace_all_short: "length s < length old \<Longrightarrow> replace_all old new s = s"
proof (induction s)
  case (Cons c s)
  have "\<not> prefix old (c # s)"
    using Cons.prems prefix_length_le by fastforce
  then show ?case
    using Cons by (simp add: replace_all.simps [of old new "c # s"])
qed (simp add: replace_all.simps)

lemma redact_short:
  assumes "length s < 8"
  shows "redact_deployment nk cfg s = s"
proof -
  have "\<forall>v \<in> set vs. 8 \<le> length v \<Longrightarrow> fold (\<lambda>v t. sub_literal v REDACTED t) vs s = s" for vs
    using assms by (induction vs) (auto simp: sub_literal_def replace_all_short)
  moreover have "\<forall>v \<in> set (deployment_secrets nk cfg). 8 \<le> length v"
    by (auto simp: deployment_secrets_def split: option.splits)
  ultimately show ?thesis
    by (simp add: redact_deployment_def)
qed

text \<open>The patterns only remove text and put the word REDACTED in brackets in its place.\<close>

lemma patterns_keep_start: "r \<in> set COMMON_SECRET_PATTERNS \<Longrightarrow> re_keeps_start r"
  by (auto simp: COMMON_SECRET_PATTERNS_def SECRET_KEY_NAME_def quote_opt_def spaces_def)

lemma patterns_advance: "r \<in> set COMMON_SECRET_PATTERNS \<Longrightarrow> 0 < re_min_len r"
  by (auto simp: COMMON_SECRET_PATTERNS_def SECRET_KEY_NAME_def quote_opt_def spaces_def)

lemma redact_match_separated:
  assumes "plain_secret v"
  shows "re_separated 91 93 v redact_match"
proof -
  have "redact_match k = (case k of None \<Rightarrow> [] | Some t \<Rightarrow> t) @ 91 # u ''REDACTED'' @ [93]" for k
    by (simp add: redact_match_def REDACTED_eq split: option.split)
  then show ?thesis
    using assms unfolding re_separated_def plain_secret_def by blast
qed

lemma patterns_keep:
  assumes "plain_secret v" "set rs \<subseteq> set COMMON_SECRET_PATTERNS" "sublist v (fold (\<lambda>p t. re_sub w p redact_match t) rs s)"
  shows "sublist v s"
  using assms(2,3)
proof (induction rs arbitrary: s)
  case (Cons r rs)
  then show ?case
    using re_sub_keeps [OF patterns_keep_start redact_match_separated [OF assms(1)]] by auto
qed simp

text \<open>No secret of the deployment survives in a text that was redacted: every value of at least eight
  characters that has no bracket and does not occur in the word REDACTED is gone from the result, in
  whatever order the replacements are applied, and the patterns for common formats do not bring it back.\<close>

lemma deployment_secrets_are_redacted:
  assumes "secret_values nk cfg = Some vs" "v \<in> set vs" "8 \<le> length v" "plain_secret v"
  shows "\<not> sublist v (apply_common_redaction uword nk (Some cfg) txt)"
proof
  assume "sublist v (apply_common_redaction uword nk (Some cfg) txt)"
  then have "sublist v (redact_deployment nk (Some cfg) txt)"
    using patterns_keep [OF assms(4) subset_refl] by (simp add: apply_common_redaction_def)
  moreover have "\<not> sublist v (redact_deployment nk (Some cfg) txt)"
    unfolding redact_deployment_def
    by (rule fold_redact_gone [OF assms(4)])
      (use assms deployment_secrets_ne deployment_secrets_set [OF assms(1)] in auto)
  ultimately show False
    by blast
qed

lemma sample_secret:
  "\<exists>vs. secret_values (\<lambda>_. True) (default_settings (u ''token-value'') (u ''x'') (u ''y'') (u ''key'') TrustedHost) = Some vs \<and>
     u ''token-value'' \<in> set vs"
  "plain_secret (u ''token-value'')"
  by (simp_all add: secret_values_def default_settings_def urlsplit_def cut_scheme_def url_clean_def u_def lstrip_by_def
      before_first_def after_first_def plain_secret_def sublist_Cons_right)

lemma apply_common_short:
  assumes "length s < 6"
  shows "apply_common_redaction w nk cfg s = s"
proof -
  have "\<forall>r \<in> set COMMON_SECRET_PATTERNS. 6 \<le> re_min_len r"
    by (simp add: COMMON_SECRET_PATTERNS_def SECRET_KEY_NAME_def quote_opt_def spaces_def)
  then have "fold (\<lambda>p t. re_sub w p redact_match t) rs s = s" if "set rs \<subseteq> set COMMON_SECRET_PATTERNS" for rs
    using that assms by (induction rs) (force simp: re_sub_short)+
  then show ?thesis
    using assms by (simp add: apply_common_redaction_def redact_short)
qed

end
