(* ===== verification/Uuid.thy ===== *)
theory Uuid
  imports Prelude
begin

text \<open>
  UUIDs: 128-bit words, their canonical text (\<open>str(uuid)\<close>) and the parser \<open>uuid.UUID(s)\<close> of the
  standard library, which the program relies on to tell ids from names
  (\<open>bot/session_service.py\<close>, \<open>runner/main.py\<close>). Digits are ASCII: \<open>int(s, 16)\<close> also reads
  the decimal digits of other scripts, which the model refuses.
\<close>

type_synonym uuid = "128 word"

definition hex_digit :: "nat \<Rightarrow> nat" where
  "hex_digit d = (if d < 10 then 48 + d else 87 + d)"

definition hex_val :: "nat \<Rightarrow> nat option" where
  "hex_val c =
     (if 48 \<le> c \<and> c \<le> 57 then Some (c - 48)
      else if 97 \<le> c \<and> c \<le> 102 then Some (c - 87)
      else if 65 \<le> c \<and> c \<le> 70 then Some (c - 55)
      else None)"

fun hex_str :: "nat \<Rightarrow> nat \<Rightarrow> pystr" where
  "hex_str 0 n = []"
| "hex_str (Suc k) n = hex_str k (n div 16) @ [hex_digit (n mod 16)]"

definition uuid_str :: "uuid \<Rightarrow> pystr" where
  "uuid_str w =
     (let h = hex_str 32 (unat w) in
      take 8 h @ dash # take 4 (drop 8 h) @ dash # take 4 (drop 12 h) @ dash #
      take 4 (drop 16 h) @ dash # drop 20 h)"

text \<open>
  \<open>int(s, 16)\<close> after stripping: an optional sign and \<open>0x\<close>, then digits with single underscores
  between them. A minus sign cannot reach it, since \<open>UUID\<close> removes hyphens first.
\<close>

fun hex_digits :: "bool \<Rightarrow> nat \<Rightarrow> pystr \<Rightarrow> nat option" where
  "hex_digits d acc [] = (if d then Some acc else None)"
| "hex_digits d acc (c # cs) =
     (if c = underscore then (if d then hex_digits False acc cs else None)
      else (case hex_val c of None \<Rightarrow> None | Some v \<Rightarrow> hex_digits True (16 * acc + v) cs))"

definition py_int16 :: "pystr \<Rightarrow> nat option" where
  "py_int16 s =
     (let t = py_strip s;
          t = (if prefix (u ''+'') t then tl t else t)
      in if prefix (u ''0x'') t \<or> prefix (u ''0X'') t
         then (let r = drop 2 t in hex_digits False 0 (if prefix [underscore] r then tl r else r))
         else hex_digits False 0 t)"

definition uuid_of_str :: "pystr \<Rightarrow> uuid option" where
  "uuid_of_str s =
     (let h = replace_all (u ''uuid:'') [] (replace_all (u ''urn:'') [] s);
          h = replace_all [dash] [] (strip_by (\<lambda>c. c = 123 \<or> c = 125) h)
      in if length h \<noteq> 32 then None else map_option of_nat (py_int16 h))"

subsection \<open>The round trip\<close>

lemma length_hex_str [simp]: "length (hex_str k n) = k"
  by (induction k arbitrary: n) auto

definition hexc :: "nat \<Rightarrow> bool" where
  "hexc c \<longleftrightarrow> (48 \<le> c \<and> c \<le> 57) \<or> (97 \<le> c \<and> c \<le> 102)"

lemma hexc_digit [simp]: "d < 16 \<Longrightarrow> hexc (hex_digit d)"
  by (auto simp: hexc_def hex_digit_def)

lemma set_hex_str: "c \<in> set (hex_str k n) \<Longrightarrow> hexc c"
  by (induction k arbitrary: n) auto

lemma hexc_not: "hexc c \<Longrightarrow> c \<noteq> dash \<and> c \<noteq> 43 \<and> c \<noteq> 88 \<and> c \<noteq> 120 \<and> c \<noteq> 123 \<and> c \<noteq> 125 \<and> c \<noteq> 117"
  by (auto simp: hexc_def)

lemma hexc_not_space: "hexc c \<Longrightarrow> \<not> is_space c"
  by (auto simp: hexc_def is_space_def)

lemma hex_val_digit [simp]: "d < 16 \<Longrightarrow> hex_val (hex_digit d) = Some d"
  by (auto simp: hex_val_def hex_digit_def)

lemma hex_digit_not_underscore [simp]: "d < 16 \<Longrightarrow> hex_digit d \<noteq> underscore"
  by (auto simp: hex_digit_def)

lemma mod_step: "16 * (n div 16 mod 16 ^ k) + n mod 16 = n mod (16 * 16 ^ k)" for n :: nat
  by (metis add.commute mod_mult2_eq)

lemma hex_digits_append:
  "hex_digits d acc (hex_str k n @ cs) =
     hex_digits (d \<or> 0 < k) (acc * 16 ^ k + n mod 16 ^ k) cs"
proof (induction k arbitrary: n cs)
  case (Suc k)
  have "16 * (acc * 16 ^ k + n div 16 mod 16 ^ k) + n mod 16 = acc * 16 ^ Suc k + n mod 16 ^ Suc k"
    using mod_step [of n k] by (simp add: algebra_simps)
  then show ?case
    by (simp add: Suc.IH del: power_Suc)
qed simp

lemma hex_str_id:
  assumes "n < 16 ^ k" "0 < k"
  shows "hex_digits False 0 (hex_str k n) = Some n"
  using hex_digits_append [of False 0 k n "[]"] assms by simp

lemma replace_dash_drop:
  "dash \<notin> set a \<Longrightarrow> replace_all [dash] [] (a @ dash # s) = a @ replace_all [dash] [] s"
  by (induction a) (auto simp: replace_all_Cons)

lemma strip_by_id:
  assumes "\<And>c. c \<in> set s \<Longrightarrow> \<not> P c"
  shows "strip_by P s = s"
proof -
  have drop: "dropWhile P t = t" if "set t = set s" for t
    using that assms by (cases t) auto
  show ?thesis
    by (simp add: strip_by_def rstrip_by_def lstrip_by_def drop)
qed

lemma uuid_chars: "c \<in> set (uuid_str w) \<Longrightarrow> c = dash \<or> hexc c"
  by (auto simp: uuid_str_def Let_def dest!: in_set_takeD in_set_dropD set_hex_str)

lemma chop32:
  "length h = 32 \<Longrightarrow>
   take 8 h @ take 4 (drop 8 h) @ take 4 (drop 12 h) @ take 4 (drop 16 h) @ drop 20 h = h"
  by (simp add: take_add [of 8 4, simplified, symmetric] take_add [of 12 4, simplified, symmetric]
      take_add [of 16 4, simplified, symmetric] append_assoc [symmetric] del: append_assoc)

lemma uuid_no_dash: "replace_all [dash] [] (uuid_str w) = hex_str 32 (unat w)"
proof -
  let ?h = "hex_str 32 (unat w)"
  have hx: "dash \<notin> set ?h"
    using set_hex_str hexc_not by blast
  then have nd: "dash \<notin> set (take n (drop m ?h))" "dash \<notin> set (take n ?h)" "dash \<notin> set (drop n ?h)"
    for n m
    by (auto dest: in_set_takeD in_set_dropD)
  have "replace_all [dash] [] (uuid_str w) = take 8 ?h @ take 4 (drop 8 ?h) @ take 4 (drop 12 ?h) @
      take 4 (drop 16 ?h) @ drop 20 ?h"
    by (simp add: uuid_str_def Let_def replace_dash_drop nd replace_all_id)
  also have "\<dots> = ?h"
    by (rule chop32) simp
  finally show ?thesis .
qed

lemma py_int16_hex_str:
  assumes "n < 16 ^ 32"
  shows "py_int16 (hex_str 32 n) = Some n"
proof -
  let ?h = "hex_str 32 n"
  have hx: "hexc c" if "c \<in> set ?h" for c
    using that by (rule set_hex_str)
  have strip: "py_strip ?h = ?h"
    unfolding py_strip_def by (rule strip_by_id) (use hx hexc_not_space in blast)
  obtain a b r where h: "?h = a # b # r"
    by (metis length_hex_str One_nat_def length_0_conv length_Cons neq_Nil_conv numeral_eq_Suc
        old.nat.distinct(1) pred_numeral_simps(2) Suc_inject)
  have "hexc a" "hexc b"
    using hx h by auto
  then have "\<not> prefix (u ''+'') ?h" "\<not> prefix (u ''0x'') ?h" "\<not> prefix (u ''0X'') ?h"
    using hexc_not by (auto simp: h u_def of_char_def)
  then show ?thesis
    using hex_str_id [OF assms] by (simp add: py_int16_def strip)
qed

lemma uuid_of_str_str [simp]: "uuid_of_str (uuid_str w) = Some w"
proof -
  let ?s = "uuid_str w"
  have ch: "c = dash \<or> hexc c" if "c \<in> set ?s" for c
    using that by (rule uuid_chars)
  have no_u: "117 \<notin> set ?s"
    using ch hexc_not by fastforce
  have r1: "replace_all (u ''urn:'') [] ?s = ?s" "replace_all (u ''uuid:'') [] ?s = ?s"
    using no_u by (auto intro!: replace_all_id simp: u_def of_char_def)
  have r2: "strip_by (\<lambda>c. c = 123 \<or> c = 125) ?s = ?s"
    by (rule strip_by_id) (use ch hexc_not in fastforce)
  have "unat w < 16 ^ 32"
    using unsigned_less [where w = w] by simp
  then show ?thesis
    by (simp add: uuid_of_str_def r1 r2 uuid_no_dash py_int16_hex_str)
qed

lemma uuid_str_inject [simp]: "uuid_str a = uuid_str b \<longleftrightarrow> a = b"
  using uuid_of_str_str by (metis option.inject)

lemma length_uuid_str [simp]: "length (uuid_str w) = 36"
  by (simp add: uuid_str_def Let_def)

lemma uuid_str_ne [simp]: "uuid_str w \<noteq> []"
  by (simp flip: length_0_conv)

end
