(* ===== verification/Tables.thy ===== *)
theory Tables
  imports Prelude
begin

text \<open>
  Database tables as lists of rows, in insertion order: \<open>SELECT\<close>, \<open>UPDATE\<close>, \<open>DELETE\<close> and the two
  forms of \<open>INSERT ... ON CONFLICT\<close> the program issues, with the lookup laws that the component
  proofs use. The locale \<open>row_table\<close> states what a table with a primary key promises to its
  clients; the theory of the data model interprets it for every table.
\<close>

subsection \<open>Statements\<close>

definition sel :: "('r \<Rightarrow> bool) \<Rightarrow> 'r list \<Rightarrow> 'r list" where
  "sel p rs = filter p rs"

definition upd :: "('r \<Rightarrow> bool) \<Rightarrow> ('r \<Rightarrow> 'r) \<Rightarrow> 'r list \<Rightarrow> 'r list" where
  "upd p f rs = map (\<lambda>r. if p r then f r else r) rs"

definition del :: "('r \<Rightarrow> bool) \<Rightarrow> 'r list \<Rightarrow> 'r list" where
  "del p rs = filter (\<lambda>r. \<not> p r) rs"

definition get :: "('r \<Rightarrow> 'k) \<Rightarrow> 'k \<Rightarrow> 'r list \<Rightarrow> 'r option" where
  "get key k rs = find (\<lambda>r. key r = k) rs"

text \<open>\<open>ON CONFLICT DO NOTHING\<close> and \<open>ON CONFLICT (key) DO UPDATE SET f WHERE p\<close>.\<close>

definition ins_or_skip :: "('r \<Rightarrow> 'k) \<Rightarrow> 'r \<Rightarrow> 'r list \<Rightarrow> 'r list" where
  "ins_or_skip key r rs = (if get key (key r) rs = None then rs @ [r] else rs)"

definition ins_or_upd :: "('r \<Rightarrow> 'k) \<Rightarrow> 'r \<Rightarrow> ('r \<Rightarrow> bool) \<Rightarrow> ('r \<Rightarrow> 'r) \<Rightarrow> 'r list \<Rightarrow> 'r list" where
  "ins_or_upd key r p f rs =
     (if get key (key r) rs = None then rs @ [r] else upd (\<lambda>x. key x = key r \<and> p x) f rs)"

text \<open>\<open>ORDER BY k\<close> (stable) and \<open>LIMIT n\<close>.\<close>

definition order_by :: "('r \<Rightarrow> 'k::linorder) \<Rightarrow> 'r list \<Rightarrow> 'r list" where
  "order_by k rs = sort_key k rs"

subsection \<open>Lookup laws\<close>

lemma get_Nil [row_simps, simp]: "get key k [] = None"
  by (simp add: get_def)

lemma get_Cons [row_simps, simp]:
  "get key k (r # rs) = (if key r = k then Some r else get key k rs)"
  by (simp add: get_def)

lemma get_append [row_simps]:
  "get key k (rs @ ts) = (case get key k rs of None \<Rightarrow> get key k ts | Some r \<Rightarrow> Some r)"
  by (induction rs) auto

lemma get_SomeD: "get key k rs = Some r \<Longrightarrow> r \<in> set rs \<and> key r = k"
  by (induction rs) (auto split: if_splits)

lemma get_None_iff: "get key k rs = None \<longleftrightarrow> k \<notin> key ` set rs"
  by (induction rs) auto

lemma get_distinct:
  "distinct (map key rs) \<Longrightarrow> get key k rs = Some r \<longleftrightarrow> r \<in> set rs \<and> key r = k"
  by (induction rs) (auto simp: rev_image_eqI)

lemma get_upd [row_simps]:
  assumes "\<And>r. key (f r) = key r"
  shows "get key k (upd p f rs) = map_option (\<lambda>r. if p r then f r else r) (get key k rs)"
  by (induction rs) (auto simp: upd_def assms)

lemma get_ins_or_skip [row_simps]:
  "get key k (ins_or_skip key r rs) =
     (if get key k rs = None \<and> k = key r then Some r else get key k rs)"
  by (auto simp: ins_or_skip_def get_append split: option.splits)

lemma get_ins_or_upd [row_simps]:
  assumes "\<And>r. key (f r) = key r"
  shows "get key k (ins_or_upd key r p f rs) =
     (if k = key r then
        (case get key k rs of None \<Rightarrow> Some r | Some x \<Rightarrow> Some (if p x then f x else x))
      else get key k rs)"
proof (cases "get key (key r) rs")
  case None
  then show ?thesis
    by (auto simp: ins_or_upd_def get_append split: option.splits)
next
  case (Some x)
  then show ?thesis
    using assms by (cases "get key k rs") (auto simp: ins_or_upd_def get_upd dest: get_SomeD)
qed

lemma map_key_upd [row_simps]:
  assumes "\<And>r. key (f r) = key r"
  shows "map key (upd p f rs) = map key rs"
  by (simp add: upd_def assms o_def if_distrib)

text \<open>The first row in an order: \<open>ORDER BY k LIMIT 1\<close>.\<close>

lemma first_by_Some:
  assumes "(case order_by k xs of [] \<Rightarrow> None | t # _ \<Rightarrow> Some (f t)) = Some y"
  shows "\<exists>t \<in> set xs. y = f t \<and> (\<forall>t' \<in> set xs. k t \<le> k t')"
proof (cases "sort_key k xs")
  case Nil
  then show ?thesis
    using assms by (simp add: order_by_def)
next
  case (Cons t ts)
  have st: "set xs = set (t # ts)"
    using Cons set_sort [of k xs] by simp
  have "sorted (map k (t # ts))"
    using Cons sorted_sort_key [of k xs] by simp
  then have "\<forall>t' \<in> set xs. k t \<le> k t'"
    unfolding st by auto
  moreover have "y = f t"
    using assms Cons by (simp add: order_by_def)
  ultimately show ?thesis
    unfolding st by auto
qed

lemma first_by_None:
  assumes "(case order_by k xs of [] \<Rightarrow> None | t # _ \<Rightarrow> Some (f t)) = None"
  shows "xs = []"
proof (cases "sort_key k xs")
  case Nil
  then show ?thesis
    using set_sort [of k xs] by simp
next
  case (Cons t ts)
  then show ?thesis
    using assms by (simp add: order_by_def)
qed

lemma distinct_ins_or_upd [row_simps]:
  assumes "\<And>r. key (f r) = key r"
  shows "distinct (map key (ins_or_upd key r p f rs)) \<longleftrightarrow> distinct (map key rs)"
  by (simp add: ins_or_upd_def map_key_upd assms get_None_iff)

lemma set_ins_or_upd:
  "x \<in> set (ins_or_upd key r p f rs) \<Longrightarrow> x = r \<or> x \<in> set rs \<or> (\<exists>y \<in> set rs. p y \<and> x = f y)"
  by (auto simp: ins_or_upd_def upd_def split: if_splits)

lemma distinct_ins_or_skip [row_simps]:
  "distinct (map key (ins_or_skip key r rs)) \<longleftrightarrow> distinct (map key rs)"
  by (auto simp: ins_or_skip_def get_None_iff)

lemma set_upd: "set (upd p f rs) = (\<lambda>r. if p r then f r else r) ` set rs"
  by (simp add: upd_def)

lemma length_upd [simp]: "length (upd p f rs) = length rs"
  by (simp add: upd_def)

lemma upd_none: "(\<And>r. r \<in> set rs \<Longrightarrow> \<not> p r) \<Longrightarrow> upd p f rs = rs"
  by (auto simp: upd_def map_idI)

lemma sel_none: "sel p rs = [] \<longleftrightarrow> (\<forall>r \<in> set rs. \<not> p r)"
  by (simp add: sel_def filter_empty_conv)

lemma upd_sel_none: "sel p rs = [] \<Longrightarrow> upd p f rs = rs"
  by (rule upd_none) (simp add: sel_none)

lemma set_order_by [simp]: "set (order_by k rs) = set rs"
  by (simp add: order_by_def)

subsection \<open>The interface of a table\<close>

locale row_table =
  fixes key :: "'r \<Rightarrow> 'k"
    and look :: "'k \<Rightarrow> 't \<Rightarrow> 'r option"
    and put :: "'r \<Rightarrow> 't \<Rightarrow> 't"
    and change :: "('r \<Rightarrow> bool) \<Rightarrow> ('r \<Rightarrow> 'r) \<Rightarrow> 't \<Rightarrow> 't"
  assumes look_key: "look k t = Some r \<Longrightarrow> key r = k"
    and look_put: "look k (put r t) = (if look k t = None \<and> k = key r then Some r else look k t)"
    and look_change: "(\<And>r. key (f r) = key r) \<Longrightarrow>
       look k (change p f t) = map_option (\<lambda>r. if p r then f r else r) (look k t)"
begin

lemma put_present: "look (key r) t = Some x \<Longrightarrow> look k (put r t) = look k t"
  by (auto simp: look_put)

lemma put_keeps: "look k t = Some x \<Longrightarrow> look k (put r t) = Some x"
  by (simp add: look_put)

lemma change_dom:
  "(\<And>r. key (f r) = key r) \<Longrightarrow> look k (change p f t) = None \<longleftrightarrow> look k t = None"
  by (simp add: look_change)

text \<open>An update that names one key leaves every other row alone.\<close>

lemma change_other:
  assumes "\<And>r. key (f r) = key r" "k \<noteq> k'"
  shows "look k' (change (\<lambda>r. key r = k \<and> p r) f t) = look k' t"
  using assms look_key [of k' t] by (cases "look k' t") (auto simp: look_change)

text \<open>
  Compare-and-set: an update guarded by a condition that it falsifies takes effect at most once.
\<close>

lemma change_once:
  assumes "\<And>r. key (f r) = key r" "\<And>r. key (g r) = key r" "\<And>r. p r \<Longrightarrow> \<not> p (f r)"
  shows "look k (change p g (change p f t)) =
    map_option (\<lambda>r. if p r then f r else r) (look k t)"
  using assms by (cases "look k t") (auto simp: look_change)

text \<open>A compare-and-set whose guard fails on the stored row is a no-op for every reader.\<close>

lemma change_refused:
  assumes "\<And>r. key (f r) = key r" "look k t = Some r" "\<not> p r"
  shows "look k' (change (\<lambda>x. key x = k \<and> p x) f t) = look k' t"
proof (cases "k' = k")
  case True
  then show ?thesis
    using assms by (simp add: look_change)
next
  case False
  then show ?thesis
    using change_other [of f k k' p t] assms(1) by auto
qed

end

text \<open>Row lists are such tables, whatever the key.\<close>

lemma row_table_rows: "row_table key (get key) (ins_or_skip key) upd"
  by unfold_locales (auto simp: row_simps dest: get_SomeD)

end
