(* ===== verification/Domain.thy ===== *)
theory Domain
  imports Uuid Tables "HOL-Library.AList"
begin

text \<open>
  The data model of \<open>db/models/*.py\<close>: one record per table, the statuses of the check
  constraints as datatypes, JSON payloads as association lists of scalar values, and the record
  \<open>db\<close> of all tables with its sequences. Times are integers in milliseconds (the database
  clock of the transaction). The tables are interpreted as \<open>row_table\<close>s on their primary or
  unique keys.
\<close>

subsection \<open>Statuses\<close>

datatype status = Creating | Running | Idle | Archived | Resuming | Stopping | Stopped
  | Failed | Orphaned

datatype turn_status = Queued | Executing | Completed | Delivered | Uncertain
  | DeliveryFailed | Aborted

datatype host_status = Online | Offline | Draining | UnknownHost

datatype member_role = OwnerRole | OperatorRole | ViewerRole

datatype resume_source = SrcNone | StdoutRegex | StderrRegex | JsonFieldSrc | Sentinel | CallerUuid

datatype extractor = StdoutRaw | StdoutStripAnsi | JsonFieldEx | StderrFallback

definition status_str :: "status \<Rightarrow> pystr" where
  "status_str s = u (case s of Creating \<Rightarrow> ''creating'' | Running \<Rightarrow> ''running'' | Idle \<Rightarrow> ''idle''
     | Archived \<Rightarrow> ''archived'' | Resuming \<Rightarrow> ''resuming'' | Stopping \<Rightarrow> ''stopping''
     | Stopped \<Rightarrow> ''stopped'' | Failed \<Rightarrow> ''failed'' | Orphaned \<Rightarrow> ''orphaned'')"

subsection \<open>JSON payloads\<close>

text \<open>Envelope payloads are flat JSON objects: every producer writes scalar values only.\<close>

datatype jval = JNull | JBool bool | JInt int | JStr pystr

type_synonym payload = "(pystr \<times> jval) list"

definition pget :: "string \<Rightarrow> payload \<Rightarrow> jval option" where
  "pget k p = map_of p (u k)"

definition pset :: "string \<Rightarrow> jval \<Rightarrow> payload \<Rightarrow> payload" where
  "pset k v p = AList.update (u k) v p"

text \<open>\<open>str(v)\<close> and the truth value of a scalar; \<open>p.get(k, "")\<close> as a string.\<close>

fun jstr :: "jval \<Rightarrow> pystr" where
  "jstr JNull = u ''None''"
| "jstr (JBool b) = u (if b then ''True'' else ''False'')"
| "jstr (JInt i) = int_str i"
| "jstr (JStr s) = s"

definition pget_str :: "string \<Rightarrow> payload \<Rightarrow> pystr" where
  "pget_str k p = (case pget k p of None \<Rightarrow> [] | Some v \<Rightarrow> jstr v)"

definition jopt :: "pystr option \<Rightarrow> jval" where
  "jopt x = (case x of None \<Rightarrow> JNull | Some s \<Rightarrow> JStr s)"

definition opt_str :: "pystr option \<Rightarrow> pystr" where
  "opt_str x = (case x of None \<Rightarrow> [] | Some s \<Rightarrow> s)"

definition str_opt :: "pystr \<Rightarrow> pystr option" where
  "str_opt s = (if s = [] then None else Some s)"

lemma pget_Cons [simp]: "pget k ((k', v) # p) = (if k' = u k then Some v else pget k p)"
  by (auto simp: pget_def)

lemma pget_Nil [simp]: "pget k [] = None"
  by (simp add: pget_def)

lemma pget_pset [simp]: "pget k (pset k' v p) = (if k = k' then Some v else pget k p)"
  by (auto simp: pget_def pset_def update_conv')

lemma opt_str_simps [simp]: "opt_str None = []" "opt_str (Some s) = s"
  by (simp_all add: opt_str_def)

subsection \<open>Rows\<close>

record session =
  s_id :: uuid
  s_guild :: "pystr option"
  s_owner :: "pystr option"
  s_tool :: pystr
  s_name :: pystr
  s_cwd :: pystr
  s_realpath :: pystr
  s_parent :: "pystr option"
  s_thread :: "pystr option"
  s_host :: "pystr option"
  s_secret_hash :: pystr
  s_secret_ct :: "pystr option"
  s_token :: "pystr option"
  s_status :: status
  s_version :: int
  s_changed_at :: int
  s_reason :: "pystr option"
  s_created_at :: int
  s_running_at :: "int option"
  s_recovery_at :: "int option"
  s_activity_at :: int
  s_stopped_at :: "int option"
  s_archived_at :: "int option"
  s_thread_archived_at :: "int option"
  s_archive_requested_at :: "int option"
  s_repairs :: int

record input_turn =
  t_seq :: nat
  t_key :: pystr
  t_session :: uuid
  t_version :: int
  t_status :: turn_status
  t_result :: "pystr option"
  t_token :: "pystr option"
  t_created_at :: int
  t_updated_at :: int

record outbox_row =
  o_id :: nat
  o_producer :: pystr
  o_etype :: pystr
  o_stream :: pystr
  o_payload :: payload
  o_created_at :: int
  o_published_at :: "int option"
  o_attempts :: nat
  o_next_at :: int
  o_error :: "pystr option"

datatype expiry = At int | Infinity

record ikey_row =
  k_etype :: pystr
  k_key :: pystr
  k_session :: "uuid option"
  k_seen_at :: int
  k_expires :: expiry
  k_outcome :: "pystr option"
  k_claim_until :: "int option"
  k_claim_owner :: "pystr option"

record event =
  e_id :: nat
  e_key :: "pystr option"
  e_guild :: "pystr option"
  e_session :: "uuid option"
  e_actor :: "pystr option"
  e_type :: pystr
  e_payload :: payload
  e_created_at :: int

record member_row =
  m_session :: uuid
  m_user :: pystr
  m_role :: "member_role option"

record allowed_root =
  r_guild :: "pystr option"
  r_user :: pystr
  r_host :: pystr
  r_path :: pystr
  r_realpath :: pystr
  r_created_by :: pystr

record path_alias =
  a_guild :: pystr
  a_alias :: pystr
  a_path :: pystr
  a_realpath :: pystr
  a_created_by :: pystr

record runner_host =
  h_id :: pystr
  h_status :: host_status
  h_heartbeat :: "int option"

record user_row =
  u_id :: pystr
  u_name :: pystr

record guild_row =
  g_id :: pystr
  g_name :: pystr

record admin_policy =
  p_guild :: pystr
  p_role :: "pystr option"
  p_role_name :: "pystr option"
  p_updated_by :: pystr

record channel_map =
  c_guild :: pystr
  c_tool :: pystr
  c_channel :: pystr
  c_updated_by :: pystr

record config_row =
  f_session :: uuid
  f_key :: pystr
  f_value :: "pystr option"
  f_cipher :: "pystr option"

record tool_config =
  td_display :: pystr
  td_prefix :: "pystr list"
  td_resume :: "pystr list"
  td_suffix :: "pystr list"
  td_pty :: bool
  td_source :: resume_source
  td_pattern :: "pystr option"
  td_extractor :: extractor
  td_json_field :: "pystr option"
  td_extra_paths :: "pystr list"
  td_env :: "pystr list"
  td_model_flag :: "pystr option"
  td_api_key_env :: "pystr option"
  td_base_url_env :: "pystr option"

record tool_def =
  td_name :: pystr
  td_config :: tool_config
  td_enabled :: bool
  td_created_by :: "pystr option"

subsection \<open>The database\<close>

record db =
  d_sessions :: "session list"
  d_turns :: "input_turn list"
  d_outbox :: "outbox_row list"
  d_ikeys :: "ikey_row list"
  d_events :: "event list"
  d_members :: "member_row list"
  d_users :: "user_row list"
  d_guilds :: "guild_row list"
  d_roots :: "allowed_root list"
  d_aliases :: "path_alias list"
  d_hosts :: "runner_host list"
  d_tools :: "tool_def list"
  d_configs :: "config_row list"
  d_policies :: "admin_policy list"
  d_maps :: "channel_map list"
  d_next_outbox :: nat
  d_next_turn :: nat
  d_next_event :: nat

definition empty_db :: db where
  "empty_db = \<lparr>d_sessions = [], d_turns = [], d_outbox = [], d_ikeys = [], d_events = [],
     d_members = [], d_users = [], d_guilds = [], d_roots = [], d_aliases = [], d_hosts = [],
     d_tools = [], d_configs = [], d_policies = [], d_maps = [],
     d_next_outbox = 1, d_next_turn = 1, d_next_event = 1\<rparr>"

definition ikey_id :: "ikey_row \<Rightarrow> pystr \<times> pystr" where
  "ikey_id r = (k_etype r, k_key r)"

definition member_id :: "member_row \<Rightarrow> uuid \<times> pystr" where
  "member_id r = (m_session r, m_user r)"

definition root_id :: "allowed_root \<Rightarrow> pystr option \<times> pystr \<times> pystr \<times> pystr" where
  "root_id r = (r_guild r, r_user r, r_host r, r_realpath r)"

definition alias_id :: "path_alias \<Rightarrow> pystr \<times> pystr" where
  "alias_id r = (a_guild r, a_alias r)"

definition config_id :: "config_row \<Rightarrow> uuid \<times> pystr" where
  "config_id r = (f_session r, f_key r)"

definition map_id :: "channel_map \<Rightarrow> pystr \<times> pystr" where
  "map_id r = (c_guild r, c_tool r)"

text \<open>Lookups by primary key.\<close>

definition session_of :: "uuid \<Rightarrow> db \<Rightarrow> session option" where
  "session_of sid d = get s_id sid (d_sessions d)"

definition turn_of :: "pystr \<Rightarrow> db \<Rightarrow> input_turn option" where
  "turn_of k d = get t_key k (d_turns d)"

definition ikey_of :: "pystr \<Rightarrow> pystr \<Rightarrow> db \<Rightarrow> ikey_row option" where
  "ikey_of ety k d = get ikey_id (ety, k) (d_ikeys d)"

definition tool_of :: "pystr \<Rightarrow> db \<Rightarrow> tool_def option" where
  "tool_of n d = get td_name n (d_tools d)"

text \<open>\<open>UPDATE sessions\<close>, \<open>UPDATE input_turns\<close>.\<close>

definition upd_sessions :: "(session \<Rightarrow> bool) \<Rightarrow> (session \<Rightarrow> session) \<Rightarrow> db \<Rightarrow> db" where
  "upd_sessions p f d = d\<lparr>d_sessions := upd p f (d_sessions d)\<rparr>"

definition upd_turns :: "(input_turn \<Rightarrow> bool) \<Rightarrow> (input_turn \<Rightarrow> input_turn) \<Rightarrow> db \<Rightarrow> db" where
  "upd_turns p f d = d\<lparr>d_turns := upd p f (d_turns d)\<rparr>"

text \<open>
  \<open>queues/outbox.py\<close>: \<open>write_outbox\<close> inserts a pending row in the caller's transaction; the
  column defaults make it due at once. \<open>add_event\<close> is the insertion of an audit \<open>Event\<close>.
\<close>

definition write_outbox ::
  "int \<Rightarrow> pystr \<Rightarrow> pystr \<Rightarrow> pystr \<Rightarrow> payload \<Rightarrow> db \<Rightarrow> db" where
  "write_outbox now producer stream_key envelope_type p d =
     d\<lparr>d_outbox := d_outbox d @
         [\<lparr>o_id = d_next_outbox d, o_producer = producer, o_etype = envelope_type,
           o_stream = stream_key, o_payload = p, o_created_at = now, o_published_at = None,
           o_attempts = 0, o_next_at = now, o_error = None\<rparr>],
       d_next_outbox := Suc (d_next_outbox d)\<rparr>"

definition add_event ::
  "int \<Rightarrow> pystr option \<Rightarrow> pystr option \<Rightarrow> uuid option \<Rightarrow> pystr option \<Rightarrow> pystr \<Rightarrow> payload \<Rightarrow> db \<Rightarrow> db" where
  "add_event now key guild sid actor type p d =
     d\<lparr>d_events := d_events d @
         [\<lparr>e_id = d_next_event d, e_key = key, e_guild = guild, e_session = sid, e_actor = actor,
           e_type = type, e_payload = p, e_created_at = now\<rparr>],
       d_next_event := Suc (d_next_event d)\<rparr>"

lemma session_of_frame [simp]:
  "session_of sid (write_outbox now p s e pl d) = session_of sid d"
  "session_of sid (add_event now k g i a ty pl d) = session_of sid d"
  "session_of sid (upd_turns q h d) = session_of sid d"
  by (simp_all add: session_of_def write_outbox_def add_event_def upd_turns_def)

lemma turn_of_frame [simp]:
  "turn_of k (write_outbox now p s e pl d) = turn_of k d"
  "turn_of k (add_event now k' g i a ty pl d) = turn_of k d"
  "turn_of k (upd_sessions q f d) = turn_of k d"
  by (simp_all add: turn_of_def write_outbox_def add_event_def upd_sessions_def)

lemma d_turns_frame [simp]:
  "d_turns (write_outbox now p s e pl d) = d_turns d"
  "d_turns (add_event now k' g i a ty pl d) = d_turns d"
  "d_turns (upd_sessions q f d) = d_turns d"
  by (simp_all add: write_outbox_def add_event_def upd_sessions_def)

lemma d_sessions_frame [simp]:
  "d_sessions (write_outbox now p s e pl d) = d_sessions d"
  "d_sessions (add_event now k' g i a ty pl d) = d_sessions d"
  "d_sessions (upd_turns q h d) = d_sessions d"
  by (simp_all add: write_outbox_def add_event_def upd_turns_def)

lemma d_sessions_upd [simp]: "d_sessions (upd_sessions q f d) = upd q f (d_sessions d)"
  by (simp add: upd_sessions_def)

lemma d_turns_upd [simp]: "d_turns (upd_turns q f d) = upd q f (d_turns d)"
  by (simp add: upd_turns_def)

subsection \<open>The tables as \<open>row_table\<close>s\<close>

interpretation ses: row_table s_id "get s_id" "ins_or_skip s_id" upd
  by (rule row_table_rows)

interpretation trn: row_table t_key "get t_key" "ins_or_skip t_key" upd
  by (rule row_table_rows)

interpretation ike: row_table ikey_id "get ikey_id" "ins_or_skip ikey_id" upd
  by (rule row_table_rows)

interpretation mem: row_table member_id "get member_id" "ins_or_skip member_id" upd
  by (rule row_table_rows)

interpretation cfg: row_table config_id "get config_id" "ins_or_skip config_id" upd
  by (rule row_table_rows)

interpretation tls: row_table td_name "get td_name" "ins_or_skip td_name" upd
  by (rule row_table_rows)

lemma session_of_id: "session_of sid d = Some s \<Longrightarrow> s_id s = sid"
  unfolding session_of_def by (rule ses.look_key)

lemma turn_of_key: "turn_of k d = Some t \<Longrightarrow> t_key t = k"
  unfolding turn_of_def by (rule trn.look_key)

lemma session_of_upd [row_simps]:
  "(\<And>r. s_id (f r) = s_id r) \<Longrightarrow>
   session_of sid (upd_sessions p f d) = map_option (\<lambda>r. if p r then f r else r) (session_of sid d)"
  unfolding session_of_def upd_sessions_def by (simp add: ses.look_change)

lemma turn_of_upd [row_simps]:
  "(\<And>r. t_key (f r) = t_key r) \<Longrightarrow>
   turn_of k (upd_turns p f d) = map_option (\<lambda>r. if p r then f r else r) (turn_of k d)"
  unfolding turn_of_def upd_turns_def by (simp add: trn.look_change)

text \<open>A session for the examples of the theories below.\<close>

definition sample_owned :: session where
  "sample_owned =
     \<lparr>s_id = 1, s_guild = Some (u ''g''), s_owner = Some (u ''alice''), s_tool = u ''echo'', s_name = u ''demo'',
      s_cwd = u ''/srv'', s_realpath = u ''/srv'', s_parent = None, s_thread = Some (u ''th''), s_host = Some (u ''h''),
      s_secret_hash = [], s_secret_ct = None, s_token = None, s_status = Running, s_version = 1, s_changed_at = 0,
      s_reason = None, s_created_at = 0, s_running_at = None, s_recovery_at = None, s_activity_at = 0, s_stopped_at = None,
      s_archived_at = None, s_thread_archived_at = None, s_archive_requested_at = None, s_repairs = 0\<rparr>"

end
