(* ===== verification/Outbox.thy ===== *)
theory Outbox
  imports Domain Config
begin

text \<open>
  \<open>queues/relay.py\<close>, \<open>queues/retention.py\<close>, \<open>janitor/deadletter.py\<close> and \<open>scripts/recover_outbox.py\<close>:
  the relay that publishes outbox rows to Redis streams, its failure accounting and back-off, its
  supervisor, the trimming of acknowledged stream history, and the reset of an exhausted row.
  Redis is a parameter: the outcome of the \<open>XADD\<close> of a row, and the groups a stream has.
\<close>

subsection \<open>Back-off\<close>

text \<open>The module constants and \<open>_backoff_ms\<close>, and the delay \<open>_record_failure\<close> uses.\<close>

definition DEFAULT_BASE_BACKOFF_MS :: int where "DEFAULT_BASE_BACKOFF_MS = 100"
definition DEFAULT_MAX_BACKOFF_MS :: int where "DEFAULT_MAX_BACKOFF_MS = 60000"

definition backoff_ms :: "nat \<Rightarrow> int" where
  "backoff_ms attempts = min (DEFAULT_BASE_BACKOFF_MS * 2 ^ attempts) DEFAULT_MAX_BACKOFF_MS"

definition failure_delay :: "settings \<Rightarrow> nat \<Rightarrow> int" where
  "failure_delay cfg new_attempts =
     min (OUTBOX_BASE_BACKOFF_MS cfg * 2 ^ min new_attempts 30) (OUTBOX_MAX_BACKOFF_MS cfg)"

lemma failure_delay_mono:
  assumes "0 < OUTBOX_BASE_BACKOFF_MS cfg" "m \<le> n"
  shows "failure_delay cfg m \<le> failure_delay cfg n"
proof -
  have "(2::int) ^ min m 30 \<le> 2 ^ min n 30"
    using assms(2) by (intro power_increasing) auto
  then have "OUTBOX_BASE_BACKOFF_MS cfg * 2 ^ min m 30 \<le> OUTBOX_BASE_BACKOFF_MS cfg * 2 ^ min n 30"
    using assms(1) by (intro mult_left_mono) auto
  then show ?thesis
    by (simp add: failure_delay_def min.coboundedI1)
qed

lemma failure_delay_pos:
  "0 < OUTBOX_BASE_BACKOFF_MS cfg \<Longrightarrow> 0 < OUTBOX_MAX_BACKOFF_MS cfg \<Longrightarrow> 0 < failure_delay cfg n"
  by (simp add: failure_delay_def)

lemma backoff_ms_cap:
  assumes "30 \<le> n"
  shows "backoff_ms n = DEFAULT_MAX_BACKOFF_MS"
proof -
  have "(2::int) ^ 30 \<le> 2 ^ n"
    using assms by (intro power_increasing) auto
  then show ?thesis
    by (simp add: backoff_ms_def DEFAULT_BASE_BACKOFF_MS_def DEFAULT_MAX_BACKOFF_MS_def)
qed

subsection \<open>Draining a batch\<close>

datatype xadd_outcome = XOk | XUnavailable | XFail pystr

definition pending :: "settings \<Rightarrow> pystr \<Rightarrow> int \<Rightarrow> outbox_row \<Rightarrow> bool" where
  "pending cfg producer now r \<longleftrightarrow>
     o_producer r = producer \<and> o_published_at r = None \<and> o_next_at r \<le> now \<and>
     int (o_attempts r) < OUTBOX_MAX_ATTEMPTS cfg"

text \<open>\<open>FOR UPDATE SKIP LOCKED\<close>: rows another transaction holds are passed over.\<close>

definition batch :: "settings \<Rightarrow> pystr \<Rightarrow> int \<Rightarrow> (nat \<Rightarrow> bool) \<Rightarrow> db \<Rightarrow> outbox_row list" where
  "batch cfg producer now locked d =
     take (nat (OUTBOX_BATCH_SIZE cfg))
       (order_by o_id (sel (\<lambda>r. pending cfg producer now r \<and> \<not> locked (o_id r)) (d_outbox d)))"

definition upd_outbox :: "nat \<Rightarrow> (outbox_row \<Rightarrow> outbox_row) \<Rightarrow> db \<Rightarrow> db" where
  "upd_outbox i f d = d\<lparr>d_outbox := upd (\<lambda>r. o_id r = i) f (d_outbox d)\<rparr>"

definition failed_row :: "settings \<Rightarrow> int \<Rightarrow> pystr \<Rightarrow> outbox_row \<Rightarrow> outbox_row \<Rightarrow> outbox_row" where
  "failed_row cfg t msg row r =
     (let new_attempts = Suc (o_attempts row) in
      r\<lparr>o_attempts := new_attempts, o_next_at := t + failure_delay cfg new_attempts,
        o_error := Some (if OUTBOX_MAX_ATTEMPTS cfg \<le> int new_attempts then u ''max_attempts'' else msg)\<rparr>)"

definition record_failure :: "settings \<Rightarrow> int \<Rightarrow> pystr \<Rightarrow> outbox_row \<Rightarrow> db \<Rightarrow> db" where
  "record_failure cfg t msg row d = upd_outbox (o_id row) (failed_row cfg t msg row) d"

definition mark_published :: "int \<Rightarrow> outbox_row \<Rightarrow> db \<Rightarrow> db" where
  "mark_published t row d = upd_outbox (o_id row) (\<lambda>r. r\<lparr>o_published_at := Some t\<rparr>) d"

text \<open>The fields of a stream entry: the JSON payload and the envelope type.\<close>

type_synonym stream_entry = "pystr \<times> payload \<times> pystr"

definition entry_of :: "outbox_row \<Rightarrow> stream_entry" where
  "entry_of r = (o_stream r, o_payload r, o_etype r)"

text \<open>
  The loop over the batch; \<open>clk\<close> gives the clock at which a row is handled. Returns the entries
  published, whether Redis was found unavailable, and the database.
\<close>

fun drain_rows ::
  "settings \<Rightarrow> (outbox_row \<Rightarrow> xadd_outcome) \<Rightarrow> (nat \<Rightarrow> int) \<Rightarrow> outbox_row list \<Rightarrow> db \<Rightarrow>
   stream_entry list \<times> bool \<times> db" where
  "drain_rows cfg xadd clk [] d = ([], False, d)"
| "drain_rows cfg xadd clk (row # rows) d =
     (case xadd row of
        XUnavailable \<Rightarrow> ([], True, d)
      | XFail msg \<Rightarrow> drain_rows cfg xadd clk rows (record_failure cfg (clk (o_id row)) msg row d)
      | XOk \<Rightarrow>
          (let (sent, un, d') = drain_rows cfg xadd clk rows (mark_published (clk (o_id row)) row d)
           in (entry_of row # sent, un, d')))"

definition drain_batch ::
  "settings \<Rightarrow> pystr \<Rightarrow> (outbox_row \<Rightarrow> xadd_outcome) \<Rightarrow> (nat \<Rightarrow> int) \<Rightarrow> int \<Rightarrow> (nat \<Rightarrow> bool) \<Rightarrow>
   bool \<Rightarrow> db \<Rightarrow> nat \<times> stream_entry list \<times> bool \<times> db" where
  "drain_batch cfg producer xadd clk now locked redis_unavailable d =
     (let rows = batch cfg producer now locked d in
      if rows = [] then (0, [], redis_unavailable, d)
      else (let (sent, un, d') = drain_rows cfg xadd clk rows d in (length sent, sent, un, d')))"

text \<open>The pause of \<open>run\<close> after a batch, in milliseconds.\<close>

definition relay_sleep :: "settings \<Rightarrow> nat \<Rightarrow> bool \<Rightarrow> int" where
  "relay_sleep cfg drained unavailable =
     (if unavailable then 1000 else if drained = 0 then OUTBOX_IDLE_SLEEP_MS cfg else 0)"

text \<open>
  \<open>supervise_relay\<close>: the pauses between restarts, given how the successive runs end. A clean end or
  a cancellation stops it.
\<close>

datatype run_end = Crashed | StoppedCleanly | Cancelled

fun supervise_from :: "int \<Rightarrow> run_end list \<Rightarrow> int list" where
  "supervise_from backoff (Crashed # es) = backoff # supervise_from (min (backoff * 2) 30000) es"
| "supervise_from backoff _ = []"

definition supervise_relay :: "run_end list \<Rightarrow> int list" where
  "supervise_relay es = supervise_from 1000 es"

subsection \<open>What one pass does to a row\<close>

text \<open>
  The specification of a pass: the rows before the first unreachable Redis are handled each on its
  own; all other rows are left as they are.
\<close>

definition handled :: "(outbox_row \<Rightarrow> xadd_outcome) \<Rightarrow> outbox_row list \<Rightarrow> outbox_row list" where
  "handled xadd rows = takeWhile (\<lambda>r. xadd r \<noteq> XUnavailable) rows"

definition after_pass ::
  "settings \<Rightarrow> (outbox_row \<Rightarrow> xadd_outcome) \<Rightarrow> (nat \<Rightarrow> int) \<Rightarrow> outbox_row \<Rightarrow> outbox_row" where
  "after_pass cfg xadd clk r =
     (case xadd r of
        XOk \<Rightarrow> r\<lparr>o_published_at := Some (clk (o_id r))\<rparr>
      | XFail msg \<Rightarrow> failed_row cfg (clk (o_id r)) msg r r
      | XUnavailable \<Rightarrow> r)"

definition outbox_keys :: "db \<Rightarrow> bool" where
  "outbox_keys d \<longleftrightarrow> distinct (map o_id (d_outbox d)) \<and> (\<forall>r \<in> set (d_outbox d). o_id r < d_next_outbox d)"

lemma failed_row_id [simp]: "o_id (failed_row cfg t msg row r) = o_id r"
  by (simp add: failed_row_def Let_def)

lemma after_pass_id [simp]: "o_id (after_pass cfg xadd clk r) = o_id r"
  by (simp add: after_pass_def split: xadd_outcome.split)

lemma write_outbox_keys: "outbox_keys d \<Longrightarrow> outbox_keys (write_outbox now p s e pl d)"
  by (auto simp: outbox_keys_def write_outbox_def)

lemma d_outbox_upd: "d_outbox (upd_outbox i f d) = upd (\<lambda>r. o_id r = i) f (d_outbox d)"
  by (simp add: upd_outbox_def)

lemma set_batch:
  "r \<in> set (batch cfg producer now locked d) \<Longrightarrow>
   r \<in> set (d_outbox d) \<and> pending cfg producer now r \<and> \<not> locked (o_id r)"
  by (auto simp: batch_def order_by_def sel_def dest: in_set_takeD)

lemma length_batch: "length (batch cfg producer now locked d) \<le> nat (OUTBOX_BATCH_SIZE cfg)"
  by (simp add: batch_def)

lemma sorted_batch: "sorted (map o_id (batch cfg producer now locked d))"
  by (simp add: batch_def order_by_def take_map [symmetric] sorted_wrt_take)

lemma distinct_batch:
  assumes "outbox_keys d"
  shows "distinct (map o_id (batch cfg producer now locked d))"
proof -
  let ?q = "filter (\<lambda>r. pending cfg producer now r \<and> \<not> locked (o_id r)) (d_outbox d)"
  have "distinct (map o_id ?q)"
    using assms by (auto simp: outbox_keys_def distinct_map_filter)
  then have "distinct (map o_id (sort_key o_id ?q))"
    by (simp add: distinct_map)
  then show ?thesis
    by (simp add: batch_def order_by_def sel_def take_map [symmetric] distinct_take)
qed

lemma get_upd_outbox:
  assumes "\<And>r. o_id (f r) = o_id r"
  shows "get o_id i (d_outbox (upd_outbox j f d)) =
    (if i = j then map_option f (get o_id i (d_outbox d)) else get o_id i (d_outbox d))"
  using assms by (cases "get o_id i (d_outbox d)") (auto simp: d_outbox_upd get_upd dest: get_SomeD)

definition handle_row ::
  "settings \<Rightarrow> (outbox_row \<Rightarrow> xadd_outcome) \<Rightarrow> (nat \<Rightarrow> int) \<Rightarrow> outbox_row \<Rightarrow> db \<Rightarrow> db" where
  "handle_row cfg xadd clk row d =
     (case xadd row of
        XUnavailable \<Rightarrow> d
      | XFail msg \<Rightarrow> record_failure cfg (clk (o_id row)) msg row d
      | XOk \<Rightarrow> mark_published (clk (o_id row)) row d)"

lemma get_handle_row:
  assumes "get o_id (o_id row) (d_outbox d) = Some row" "xadd row \<noteq> XUnavailable"
  shows "get o_id i (d_outbox (handle_row cfg xadd clk row d)) =
    (if i = o_id row then Some (after_pass cfg xadd clk row) else get o_id i (d_outbox d))"
  using assms
  by (cases "xadd row")
    (auto simp: handle_row_def record_failure_def mark_published_def after_pass_def get_upd_outbox)

lemma drain_rows_step:
  "xadd row \<noteq> XUnavailable \<Longrightarrow>
   drain_rows cfg xadd clk (row # rows) d =
     (let (sent, un, d') = drain_rows cfg xadd clk rows (handle_row cfg xadd clk row d)
      in ((if xadd row = XOk then [entry_of row] else []) @ sent, un, d'))"
  by (cases "xadd row") (auto simp: handle_row_def split: prod.splits)

lemma drain_rows_spec:
  assumes "distinct (map o_id rows)" "\<forall>r \<in> set rows. get o_id (o_id r) (d_outbox d) = Some r"
    "drain_rows cfg xadd clk rows d = (sent, un, d')"
  shows "sent = map entry_of (filter (\<lambda>r. xadd r = XOk) (handled xadd rows)) \<and>
    (un \<longleftrightarrow> (\<exists>r \<in> set rows. xadd r = XUnavailable)) \<and>
    (\<forall>i. get o_id i (d_outbox d') =
       map_option (\<lambda>r. if i \<in> o_id ` set (handled xadd rows) then after_pass cfg xadd clk r else r)
         (get o_id i (d_outbox d)))"
  using assms
proof (induction rows arbitrary: d sent)
  case Nil
  then show ?case
    by (auto simp: handled_def option.map_ident)
next
  case (Cons row rows)
  show ?case
  proof (cases "xadd row = XUnavailable")
    case True
    then show ?thesis
      using Cons.prems by (auto simp: handled_def option.map_ident)
  next
    case False
    let ?d = "handle_row cfg xadd clk row d"
    have row: "get o_id (o_id row) (d_outbox d) = Some row"
      using Cons.prems by simp
    obtain sent' un' d'' where dr: "drain_rows cfg xadd clk rows ?d = (sent', un', d'')"
      by (rule prod_cases3)
    have s: "drain_rows cfg xadd clk rows ?d = (sent', un, d')"
        "sent = (if xadd row = XOk then [entry_of row] else []) @ sent'"
      using Cons.prems(3) drain_rows_step [of xadd row cfg clk rows d, OF False] dr
      by (simp_all del: drain_rows.simps)
    have notin: "o_id row \<notin> o_id ` set rows"
      using Cons.prems(1) by simp
    have "\<forall>r \<in> set rows. get o_id (o_id r) (d_outbox ?d) = Some r"
    proof
      fix r
      assume r: "r \<in> set rows"
      then have "o_id r \<noteq> o_id row"
        using notin by (metis image_eqI)
      then show "get o_id (o_id r) (d_outbox ?d) = Some r"
        using r Cons.prems(2) get_handle_row [of row d xadd, OF row False, of "o_id r" cfg clk] by simp
    qed
    then have ih: "sent' = map entry_of (filter (\<lambda>r. xadd r = XOk) (handled xadd rows))"
      "un \<longleftrightarrow> (\<exists>r \<in> set rows. xadd r = XUnavailable)"
      "\<And>i. get o_id i (d_outbox d') =
         map_option (\<lambda>r. if i \<in> o_id ` set (handled xadd rows) then after_pass cfg xadd clk r else r)
           (get o_id i (d_outbox ?d))"
      using Cons.IH [of ?d sent'] Cons.prems(1) s(1) by simp_all
    have "set (handled xadd rows) \<subseteq> set rows"
      by (auto simp: handled_def dest: set_takeWhileD)
    then have h: "o_id row \<notin> o_id ` set (handled xadd rows)"
      using notin by auto
    have hd: "handled xadd (row # rows) = row # handled xadd rows"
      using False by (simp add: handled_def)
    have "get o_id i (d_outbox d') =
       map_option (\<lambda>r. if i \<in> o_id ` set (handled xadd (row # rows)) then after_pass cfg xadd clk r else r)
         (get o_id i (d_outbox d))" for i
    proof (cases "i = o_id row")
      case True
      then show ?thesis
        using ih(3) [of i] get_handle_row [of row d xadd, OF row False, of i cfg clk] h row
        by (simp add: hd)
    next
      case ni: False
      then show ?thesis
        using ih(3) [of i] get_handle_row [of row d xadd, OF row False, of i cfg clk]
        by (simp add: hd)
    qed
    moreover have "sent = map entry_of (filter (\<lambda>r. xadd r = XOk) (handled xadd (row # rows)))"
      using s(2) ih(1) hd by simp
    moreover have "un \<longleftrightarrow> (\<exists>r \<in> set (row # rows). xadd r = XUnavailable)"
      using ih(2) False by simp
    ultimately show ?thesis
      by blast
  qed
qed

lemma drain_batch_spec:
  assumes "outbox_keys d" "drain_batch cfg producer xadd clk now locked un0 d = (n, sent, un, d')"
    "rows = handled xadd (batch cfg producer now locked d)"
  shows "n = length sent" "sent = map entry_of (filter (\<lambda>r. xadd r = XOk) rows)"
    "get o_id i (d_outbox d') =
       map_option (\<lambda>r. if i \<in> o_id ` set rows then after_pass cfg xadd clk r else r)
         (get o_id i (d_outbox d))"
proof -
  let ?b = "batch cfg producer now locked d"
  have g: "\<forall>r \<in> set ?b. get o_id (o_id r) (d_outbox d) = Some r"
    using set_batch assms(1) by (fastforce simp: outbox_keys_def get_distinct)
  obtain sent' un' d'' where dr: "drain_rows cfg xadd clk ?b d = (sent', un', d'')"
    by (cases "drain_rows cfg xadd clk ?b d") auto
  note spec = drain_rows_spec [OF distinct_batch [OF assms(1)] g dr]
  have e: "n = length sent \<and> sent = sent' \<and> d' = d''"
    using assms(2) dr by (auto simp: drain_batch_def Let_def split: if_splits)
  show "n = length sent" "sent = map entry_of (filter (\<lambda>r. xadd r = XOk) rows)"
    "get o_id i (d_outbox d') =
       map_option (\<lambda>r. if i \<in> o_id ` set rows then after_pass cfg xadd clk r else r)
         (get o_id i (d_outbox d))"
    using spec e assms(3) by auto
qed

subsection \<open>Operator recovery and gauges\<close>

definition retry_row :: "int \<Rightarrow> nat \<Rightarrow> db \<Rightarrow> nat option \<times> db" where
  "retry_row now i d =
     (case get o_id i (d_outbox d) of
        Some r \<Rightarrow>
          if o_published_at r = None \<and> o_error r = Some (u ''max_attempts'') then
            (Some i, upd_outbox i (\<lambda>r. r\<lparr>o_attempts := 0, o_error := None, o_next_at := now\<rparr>) d)
          else (None, d)
      | None \<Rightarrow> (None, d))"

definition exhausted_rows :: "db \<Rightarrow> outbox_row list" where
  "exhausted_rows d =
     take 100 (order_by o_id (sel (\<lambda>r. o_published_at r = None \<and> o_error r = Some (u ''max_attempts''))
       (d_outbox d)))"

text \<open>\<open>scan_input_dead_letters\<close>: the exhausted and pending counts and the age of the oldest row.\<close>

definition scan_input_dead_letters :: "settings \<Rightarrow> int \<Rightarrow> db \<Rightarrow> nat \<times> nat \<times> int" where
  "scan_input_dead_letters cfg now d =
     (let waiting = sel (\<lambda>r. o_published_at r = None) (d_outbox d) in
      (length (filter (\<lambda>r. OUTBOX_MAX_ATTEMPTS cfg \<le> int (o_attempts r)) waiting), length waiting,
       if waiting = [] then 0 else now - Min (set (map o_created_at waiting))))"

lemma exhausted_again_pending:
  assumes "0 < OUTBOX_MAX_ATTEMPTS cfg" "retry_row now i d = (Some i, d')"
    "get o_id i (d_outbox d') = Some r"
  shows "pending cfg (o_producer r) now r"
  using assms by (auto simp: retry_row_def pending_def get_upd_outbox split: option.splits if_splits)

subsection \<open>Trimming acknowledged history\<close>

type_synonym stream_id = "int \<times> int"

fun id_less :: "stream_id \<Rightarrow> stream_id \<Rightarrow> bool" where
  "id_less (a, b) (c, d) = (a < c \<or> (a = c \<and> b < d))"

definition id_min :: "stream_id \<Rightarrow> stream_id \<Rightarrow> stream_id" where
  "id_min x y = (if id_less y x then y else x)"

text \<open>A group: its last delivered id and the smallest pending id, if an entry is pending.\<close>

record group_info =
  gi_last :: stream_id
  gi_first_pending :: "stream_id option"

definition trim_floor :: "int \<Rightarrow> int \<Rightarrow> group_info list \<Rightarrow> stream_id" where
  "trim_floor now_ms retention_hours groups =
     fold (\<lambda>info flr.
        let flr = id_min flr (gi_last info)
        in (case gi_first_pending info of None \<Rightarrow> flr | Some p \<Rightarrow> id_min flr p))
       groups (max 0 (now_ms - retention_hours * 3600000), 0)"

text \<open>\<open>trim_acknowledged\<close>: the \<open>MINID\<close> handed to \<open>XTRIM\<close>, or none when nothing is trimmed.\<close>

definition trim_acknowledged :: "int \<Rightarrow> int \<Rightarrow> group_info list \<Rightarrow> stream_id option" where
  "trim_acknowledged now_ms retention_hours groups =
     (if groups = [] then None
      else let flr = trim_floor now_ms retention_hours groups
           in if flr = (0, 0) then None else Some flr)"

definition id_le :: "stream_id \<Rightarrow> stream_id \<Rightarrow> bool" where
  "id_le x y \<longleftrightarrow> \<not> id_less y x"

lemma id_le_trans [trans]: "id_le x y \<Longrightarrow> id_le y z \<Longrightarrow> id_le x z"
  by (cases x; cases y; cases z) (auto simp: id_le_def)

lemma id_less_le_trans: "id_less x y \<Longrightarrow> id_le y z \<Longrightarrow> id_less x z"
  by (cases x; cases y; cases z) (auto simp: id_le_def)

lemma id_min_le: "id_le (id_min x y) x" "id_le (id_min x y) y"
  by (cases x; cases y; auto simp: id_min_def id_le_def)+

lemma id_le_refl [simp]: "id_le x x"
  by (cases x) (simp add: id_le_def)

lemma trim_fold:
  fixes start :: stream_id
  defines "f \<equiv> \<lambda>info flr. let flr = id_min flr (gi_last info)
        in (case gi_first_pending info of None \<Rightarrow> flr | Some p \<Rightarrow> id_min flr p)"
  shows "id_le (fold f groups start) start \<and>
    (\<forall>g \<in> set groups. id_le (fold f groups start) (gi_last g) \<and>
       (\<forall>p. gi_first_pending g = Some p \<longrightarrow> id_le (fold f groups start) p))"
proof (induction groups arbitrary: start)
  case (Cons g groups)
  let ?s = "f g start"
  have s: "id_le ?s start" "id_le ?s (gi_last g)" "gi_first_pending g = Some p \<Longrightarrow> id_le ?s p" for p
    unfolding f_def Let_def by (auto split: option.splits intro: id_min_le id_le_trans)
  have ih: "id_le (fold f groups ?s) ?s" "\<forall>g \<in> set groups. id_le (fold f groups ?s) (gi_last g) \<and>
       (\<forall>p. gi_first_pending g = Some p \<longrightarrow> id_le (fold f groups ?s) p)"
    using Cons.IH [of ?s] by auto
  show ?case
    using ih s by (auto intro: id_le_trans)
qed (simp add: f_def)

lemma trim_floor_le:
  "id_le (trim_floor now h groups) (max 0 (now - h * 3600000), 0) \<and>
   (\<forall>g \<in> set groups. id_le (trim_floor now h groups) (gi_last g) \<and>
     (\<forall>p. gi_first_pending g = Some p \<longrightarrow> id_le (trim_floor now h groups) p))"
  unfolding trim_floor_def by (rule trim_fold)

subsection \<open>Properties\<close>

lemma relay_pass_correct_parts:
  assumes "outbox_keys d" "drain_batch cfg producer xadd clk now locked un0 d = (n, sent, un, d')"
  shows "n = length sent"
    "sent = map entry_of (filter (\<lambda>r. xadd r = XOk) (handled xadd (batch cfg producer now locked d)))"
    "sorted (map o_id (batch cfg producer now locked d))"
    "get o_id i (d_outbox d') =
       map_option (\<lambda>r. if i \<in> o_id ` set (handled xadd (batch cfg producer now locked d))
                       then after_pass cfg xadd clk r else r) (get o_id i (d_outbox d))"
  using drain_batch_spec [OF assms refl] sorted_batch by blast+


definition sample_rows :: db where
  "sample_rows = write_outbox 0 (u ''bot'') (u ''s'') (u ''t'') [] (write_outbox 0 (u ''bot'') (u ''s'') (u ''t'') [] empty_db)"


lemma failing_row_is_exhausted_parts:
  assumes "fields_in_range cfg" "r' = ((\<lambda>r. failed_row cfg t msg r r) ^^ Suc n) r"
  shows "o_attempts r' = o_attempts r + Suc n" "t < o_next_at r'" "o_next_at r' \<le> t + OUTBOX_MAX_BACKOFF_MS cfg"
    "OUTBOX_MAX_ATTEMPTS cfg \<le> int (o_attempts r + Suc n) \<Longrightarrow>
       o_error r' = Some (u ''max_attempts'') \<and> \<not> pending cfg producer now r'"
proof -
  have a: "o_attempts (((\<lambda>r. failed_row cfg t msg r r) ^^ n) r) = o_attempts r + n" for n
    by (induction n) (simp_all add: failed_row_def Let_def)
  define q where "q = ((\<lambda>r. failed_row cfg t msg r r) ^^ n) r"
  have r': "r' = failed_row cfg t msg q q"
    by (simp add: assms(2) q_def)
  show "o_attempts r' = o_attempts r + Suc n"
    unfolding assms(2) by (rule a)
  have "0 < OUTBOX_BASE_BACKOFF_MS cfg" "0 < OUTBOX_MAX_BACKOFF_MS cfg"
    using assms(1) by (simp_all add: fields_in_range_def)
  then show "t < o_next_at r'"
    using failure_delay_pos by (simp add: r' failed_row_def Let_def)
  show "o_next_at r' \<le> t + OUTBOX_MAX_BACKOFF_MS cfg"
    by (simp add: r' failed_row_def Let_def failure_delay_def)
  show "o_error r' = Some (u ''max_attempts'') \<and> \<not> pending cfg producer now r'"
    if "OUTBOX_MAX_ATTEMPTS cfg \<le> int (o_attempts r + Suc n)"
    using that a [of n, folded q_def] by (simp add: r' failed_row_def Let_def pending_def)
qed

text \<open>C15. A row whose publishing keeps failing is tried again after a delay that is positive and at most the
  maximal back-off, and after the configured number of attempts it is marked exhausted and never
  selected again.\<close>

theorem failing_row_is_exhausted:
  assumes "fields_in_range cfg" "r' = ((\<lambda>r. failed_row cfg t msg r r) ^^ Suc n) r"
  shows "(o_attempts r' = o_attempts r + Suc n) \<and>
     (t < o_next_at r') \<and>
     (o_next_at r' \<le> t + OUTBOX_MAX_BACKOFF_MS cfg) \<and>
     (OUTBOX_MAX_ATTEMPTS cfg \<le> int (o_attempts r + Suc n) \<longrightarrow> (o_error r' = Some (u ''max_attempts'') \<and> \<not> pending cfg producer now r'))"
proof -
  have c1: "(o_attempts r' = o_attempts r + Suc n)"
    by (rule failing_row_is_exhausted_parts(1) [OF assms])
  have c2: "(t < o_next_at r')"
    by (rule failing_row_is_exhausted_parts(2) [OF assms])
  have c3: "(o_next_at r' \<le> t + OUTBOX_MAX_BACKOFF_MS cfg)"
    by (rule failing_row_is_exhausted_parts(3) [OF assms])
  have c4: "(OUTBOX_MAX_ATTEMPTS cfg \<le> int (o_attempts r + Suc n) \<longrightarrow> (o_error r' = Some (u ''max_attempts'') \<and> \<not> pending cfg producer now r'))"
    by ((rule impI)+, rule failing_row_is_exhausted_parts(4) [OF assms], assumption+)
  show ?thesis
    by (rule conjI [OF c1 conjI [OF c2 conjI [OF c3 c4]]])
qed

lemma default_in_range: "fields_in_range (default_settings a b c k m)"
  by (simp add: fields_in_range_def default_settings_def)

theorem failing_row_is_exhausted_witness:
  "o_attempts (((\<lambda>r. failed_row (default_settings [] [] [] [] TrustedHost) 0 (u ''e'') r r) ^^ Suc 2)
     (hd (d_outbox sample_rows))) = 3"
  unfolding failing_row_is_exhausted [THEN conjunct1, OF default_in_range refl] by (simp add: sample_rows_def write_outbox_def empty_db_def)

lemma trimmed_entries_are_done_parts:
  assumes "trim_acknowledged now h groups = Some flr" "id_less e flr" "g \<in> set groups"
  shows "id_less e (max 0 (now - h * 3600000), 0)" "id_less e (gi_last g)"
    "gi_first_pending g = Some p \<Longrightarrow> id_less e p"
proof -
  have "flr = trim_floor now h groups"
    using assms(1) by (auto simp: trim_acknowledged_def Let_def split: if_splits)
  then show "id_less e (max 0 (now - h * 3600000), 0)" "id_less e (gi_last g)"
    "gi_first_pending g = Some p \<Longrightarrow> id_less e p"
    using trim_floor_le [of now h groups] assms(2,3) id_less_le_trans by blast+
qed

text \<open>Trimming removes only history: an entry below the trimming point is older than the retention and, for
  every consumer group, was delivered and is older than the oldest entry still pending.\<close>

theorem trimmed_entries_are_done:
  assumes "trim_acknowledged now h groups = Some flr" "id_less e flr" "g \<in> set groups"
  shows "(id_less e (max 0 (now - h * 3600000), 0)) \<and>
     (id_less e (gi_last g)) \<and>
     ((gi_first_pending g = Some p) \<longrightarrow> id_less e p)"
proof -
  have c1: "(id_less e (max 0 (now - h * 3600000), 0))"
    by (rule trimmed_entries_are_done_parts(1) [OF assms])
  have c2: "(id_less e (gi_last g))"
    by (rule trimmed_entries_are_done_parts(2) [OF assms])
  have c3: "((gi_first_pending g = Some p) \<longrightarrow> id_less e p)"
    by ((rule impI)+, rule trimmed_entries_are_done_parts(3) [OF assms], assumption+)
  show ?thesis
    by (rule conjI [OF c1 conjI [OF c2 c3]])
qed

theorem trimmed_entries_are_done_witness:
  "id_less (5, 0) (gi_last \<lparr>gi_last = (9, 0), gi_first_pending = Some (7, 1)\<rparr>)"
proof -
  have "trim_acknowledged 7200000 1 [\<lparr>gi_last = (9, 0), gi_first_pending = Some (7, 1)\<rparr>] = Some (7, 1)"
    by (simp add: trim_acknowledged_def trim_floor_def id_min_def)
  then show ?thesis
    using trimmed_entries_are_done [THEN conjunct2, THEN conjunct1, of 7200000 1 "[\<lparr>gi_last = (9, 0), gi_first_pending = Some (7, 1)\<rparr>]" "(7, 1)" "(5, 0)"]
    by simp
qed

end
