(* ===== verification/Policies.thy ===== *)
theory Policies
  imports Domain Security
begin

text \<open>
  \<open>bot/policies/*.py\<close>, \<open>bot/start_validation.py\<close> and \<open>db/accessors/guild_settings.py\<close>: who may
  administer a guild, which guilds are served, which channel a tool is bound to, whether a
  workspace may be used, and the settings of a guild.
\<close>

subsection \<open>Guild administrators\<close>

definition is_guild_admin_authorized :: "db \<Rightarrow> pystr \<Rightarrow> pystr list \<Rightarrow> pystr list option \<Rightarrow> bool" where
  "is_guild_admin_authorized d guild_id member_roles member_role_names =
     (case get p_guild guild_id (d_policies d) of
        None \<Rightarrow> False
      | Some policy \<Rightarrow>
          (case p_role policy of
             Some role \<Rightarrow> role \<in> set member_roles
           | None \<Rightarrow>
               (case p_role_name policy of
                  Some name \<Rightarrow> name \<in> set (case member_role_names of Some ns \<Rightarrow> ns | None \<Rightarrow> [])
                | None \<Rightarrow> False)))"

definition is_guild_allowed :: "settings \<Rightarrow> pystr option \<Rightarrow> bool" where
  "is_guild_allowed cfg guild_id =
     (case guild_id of None \<Rightarrow> False | Some g \<Rightarrow> g \<in> set (allowed_guild_ids cfg))"

definition can_operate_sessions ::
  "settings \<Rightarrow> db \<Rightarrow> pystr \<Rightarrow> pystr \<Rightarrow> pystr list \<Rightarrow> pystr list option \<Rightarrow> bool" where
  "can_operate_sessions cfg d guild_id user_id member_roles member_role_names =
     (if user_id \<in> set (platform_admin_user_ids cfg) then True
      else is_guild_admin_authorized d guild_id member_roles member_role_names)"

lemma admin_authorized_iff:
  "is_guild_admin_authorized d g roles names \<longleftrightarrow>
     (\<exists>p. get p_guild g (d_policies d) = Some p \<and>
        ((\<exists>r. p_role p = Some r \<and> r \<in> set roles) \<or>
         (p_role p = None \<and> (\<exists>n ns. p_role_name p = Some n \<and> names = Some ns \<and> n \<in> set ns))))"
  by (auto simp: is_guild_admin_authorized_def split: option.splits)

subsection \<open>Tool channels\<close>

definition set_tool_channel_map :: "pystr \<Rightarrow> pystr \<Rightarrow> pystr \<Rightarrow> pystr \<Rightarrow> db \<Rightarrow> db" where
  "set_tool_channel_map guild_id tool channel_id updated_by d =
     d\<lparr>d_maps := ins_or_upd map_id
        \<lparr>c_guild = guild_id, c_tool = tool, c_channel = channel_id, c_updated_by = updated_by\<rparr>
        (\<lambda>_. True) (\<lambda>r. r\<lparr>c_channel := channel_id, c_updated_by := updated_by\<rparr>) (d_maps d)\<rparr>"

definition get_tool_channel_map :: "pystr \<Rightarrow> pystr \<Rightarrow> db \<Rightarrow> channel_map option" where
  "get_tool_channel_map guild_id tool d = get map_id (guild_id, tool) (d_maps d)"

definition resolve_tool_channel :: "pystr \<Rightarrow> pystr \<Rightarrow> db \<Rightarrow> pystr option" where
  "resolve_tool_channel guild_id tool d = map_option c_channel (get_tool_channel_map guild_id tool d)"

definition list_tool_channel_maps :: "pystr \<Rightarrow> db \<Rightarrow> channel_map list" where
  "list_tool_channel_maps guild_id d = sel (\<lambda>r. c_guild r = guild_id) (d_maps d)"

definition remove_tool_channel_map :: "pystr \<Rightarrow> pystr \<Rightarrow> db \<Rightarrow> bool \<times> db" where
  "remove_tool_channel_map guild_id tool d =
     (let p = (\<lambda>r. c_guild r = guild_id \<and> c_tool r = tool)
      in (sel p (d_maps d) \<noteq> [], d\<lparr>d_maps := del p (d_maps d)\<rparr>))"

lemma resolve_set_channel:
  "resolve_tool_channel g t (set_tool_channel_map g' t' ch who d) =
     (if g = g' \<and> t = t' then Some ch else resolve_tool_channel g t d)"
proof -
  have "get map_id (g, t) (d_maps (set_tool_channel_map g' t' ch who d)) =
     (if g = g' \<and> t = t' then
        (case get map_id (g, t) (d_maps d) of
           None \<Rightarrow> Some \<lparr>c_guild = g', c_tool = t', c_channel = ch, c_updated_by = who\<rparr>
         | Some x \<Rightarrow> Some (x\<lparr>c_channel := ch, c_updated_by := who\<rparr>))
      else get map_id (g, t) (d_maps d))"
    unfolding set_tool_channel_map_def by (simp add: get_ins_or_upd map_id_def cong: option.case_cong)
  then show ?thesis
    by (auto simp: resolve_tool_channel_def get_tool_channel_map_def split: option.splits)
qed

lemma map_id_eq: "map_id r = (g, t) \<longleftrightarrow> c_guild r = g \<and> c_tool r = t"
  by (simp add: map_id_def)

lemma resolve_remove_channel:
  "resolve_tool_channel g t (snd (remove_tool_channel_map g' t' d)) =
     (if g = g' \<and> t = t' then None else resolve_tool_channel g t d)"
proof -
  have "get map_id (g, t) (del (\<lambda>r. c_guild r = g' \<and> c_tool r = t') rs) =
     (if g = g' \<and> t = t' then None else get map_id (g, t) rs)" for rs
    by (induction rs) (auto simp: map_id_eq del_def)
  then show ?thesis
    by (simp add: resolve_tool_channel_def get_tool_channel_map_def remove_tool_channel_map_def
        Let_def)
qed

subsection \<open>Workspace validation\<close>

text \<open>
  The answer of the runner to \<open>/v1/canonicalize_path\<close>: unusable (an HTTP or JSON error), not an
  object with a string \<open>realpath\<close>, or the three fields the code reads.
\<close>

datatype canon_reply = CanonUnavailable | CanonInvalid | CanonReply pystr "pystr option" bool

definition validate_workspace :: "canon_reply \<Rightarrow> pystr \<Rightarrow> pystr \<Rightarrow> pystr \<Rightarrow> db \<Rightarrow> pystr result" where
  "validate_workspace reply guild_id owner_id host_id d =
     (case reply of
        CanonUnavailable \<Rightarrow> Inl (ValueErr (u ''Runner workspace validation is unavailable; retry shortly''))
      | CanonInvalid \<Rightarrow> Inl (ValueErr (u ''Invalid workspace validation response''))
      | CanonReply path verdict is_dir \<Rightarrow>
          if verdict \<noteq> Some (u ''allow'') \<or> \<not> is_dir then
            Inl (ValueErr (u ''Working directory is unavailable or denied''))
          else
            (case get h_id host_id (d_hosts d) of
               Some host \<Rightarrow>
                 if h_status host \<noteq> Online then Inl (ValueErr (u ''Runner is not online''))
                 else if \<exists>root \<in> set (sel (\<lambda>r. r_guild r = Some guild_id \<and> r_host r = host_id \<and>
                            r_user r \<in> {[], owner_id}) (d_roots d)). is_within_root path (r_realpath root)
                 then Inr path
                 else Inl (ValueErr (u ''Register an allowed project root with /root add first''))
             | None \<Rightarrow> Inl (ValueErr (u ''Runner is not online''))))"

lemma validate_workspace_ok:
  "validate_workspace reply g ow h d = Inr p \<Longrightarrow>
     reply = CanonReply p (Some (u ''allow'')) True \<and>
     (\<exists>host. get h_id h (d_hosts d) = Some host \<and> h_status host = Online) \<and>
     (\<exists>r \<in> set (d_roots d). r_guild r = Some g \<and> r_host r = h \<and> r_user r \<in> {[], ow} \<and>
        is_within_root p (r_realpath r))"
  by (auto simp: validate_workspace_def sel_def split: canon_reply.splits if_splits option.splits)

subsection \<open>Guild settings\<close>

text \<open>The table \<open>guild_settings\<close>: a JSON object per guild. A missing or null value is the default.\<close>

type_synonym guild_settings = "(pystr \<times> payload) list"

definition get_setting :: "guild_settings \<Rightarrow> pystr \<Rightarrow> pystr \<Rightarrow> jval \<Rightarrow> jval" where
  "get_setting tbl guild_id key dflt =
     (case map_of tbl guild_id of
        None \<Rightarrow> dflt
      | Some obj \<Rightarrow> (case map_of obj key of None \<Rightarrow> dflt | Some JNull \<Rightarrow> dflt | Some v \<Rightarrow> v))"

definition set_setting :: "pystr \<Rightarrow> pystr \<Rightarrow> jval \<Rightarrow> guild_settings \<Rightarrow> guild_settings" where
  "set_setting guild_id key v tbl =
     AList.update guild_id
       (AList.update key v (case map_of tbl guild_id of None \<Rightarrow> [] | Some obj \<Rightarrow> obj)) tbl"

lemma get_set_setting:
  "get_setting (set_setting g k v tbl) g' k' dflt =
     (if g' = g \<and> k' = k then (if v = JNull then dflt else v) else get_setting tbl g' k' dflt)"
  by (cases v) (auto simp: get_setting_def set_setting_def update_conv' split: option.splits)

text \<open>Administration fails closed: a member may administer a guild exactly when the guild has a policy and
  the member has its role id, or, when the policy has no role id, a role of its fallback name.\<close>

theorem admin_fails_closed:
  "is_guild_admin_authorized d g roles names \<longleftrightarrow>
     (\<exists>p. get p_guild g (d_policies d) = Some p \<and>
        ((\<exists>r. p_role p = Some r \<and> r \<in> set roles) \<or>
         (p_role p = None \<and> (\<exists>n ns. p_role_name p = Some n \<and> names = Some ns \<and> n \<in> set ns))))"
  by (rule admin_authorized_iff)

lemma sample_workspace:
  "validate_workspace (CanonReply (u ''/srv/p'') (Some (u ''allow'')) True) (u ''g'') (u ''a'') (u ''h'')
     (empty_db\<lparr>d_hosts := [\<lparr>h_id = u ''h'', h_status = Online, h_heartbeat = None\<rparr>],
        d_roots := [\<lparr>r_guild = Some (u ''g''), r_user = [], r_host = u ''h'', r_path = u ''/srv'', r_realpath = u ''/srv'',
          r_created_by = u ''b''\<rparr>]\<rparr>) = Inr (u ''/srv/p'')"
  by code_simp

end
