(* ===== verification/Session_Service.thy ===== *)
theory Session_Service
  imports Policies Url
begin

text \<open>
  \<open>bot/session_service.py\<close>: binding a Discord thread to a session, finding the session a command
  means, the stop, archive, resume and restart transactions, invitations, and the two permission
  checks. Session ids are the parsed UUIDs; payloads carry their canonical text. Every function is
  one database transaction at the clock \<open>now\<close>; fresh keys are arguments.
\<close>

subsection \<open>Small Python idioms\<close>

text \<open>\<open>a or b or ""\<close> on optional strings, and the text of an optional string in an f-string.\<close>

definition or_str :: "pystr option \<Rightarrow> pystr option \<Rightarrow> pystr" where
  "or_str a b = (if opt_str a \<noteq> [] then opt_str a else opt_str b)"

definition fstr :: "pystr option \<Rightarrow> pystr" where
  "fstr x = (case x of None \<Rightarrow> u ''None'' | Some s \<Rightarrow> s)"

definition runner_jobs :: "pystr \<Rightarrow> pystr" where
  "runner_jobs host = u ''runner:jobs:'' @ host"

definition input_jobs :: "pystr \<Rightarrow> pystr" where
  "input_jobs host = u ''input:jobs:'' @ host"

definition discord_outbound :: pystr where
  "discord_outbound = u ''discord:outbound''"

text \<open>\<open>UPDATE sessions SET ... WHERE id = sid\<close>.\<close>

definition set_session :: "uuid \<Rightarrow> (session \<Rightarrow> session) \<Rightarrow> db \<Rightarrow> db" where
  "set_session sid f d = upd_sessions (\<lambda>s. s_id s = sid) f d"

text \<open>The columns every status change writes: the status, the clock and the next version.\<close>

definition change_status :: "status \<Rightarrow> int \<Rightarrow> session \<Rightarrow> session" where
  "change_status st now s = s\<lparr>s_status := st, s_changed_at := now, s_version := s_version s + 1\<rparr>"

lemma change_status_simps [simp]:
  "s_id (change_status st now s) = s_id s" "s_status (change_status st now s) = st"
  "s_version (change_status st now s) = s_version s + 1"
  "s_guild (change_status st now s) = s_guild s" "s_owner (change_status st now s) = s_owner s"
  "s_token (change_status st now s) = s_token s" "s_thread (change_status st now s) = s_thread s"
  "s_host (change_status st now s) = s_host s"
  by (simp_all add: change_status_def)

lemma session_of_set [simp]:
  assumes "\<And>s. s_id (f s) = s_id s"
  shows "session_of i (set_session sid f d) =
    (if i = sid then map_option f (session_of i d) else session_of i d)"
  using assms by (cases "session_of i d") (auto simp: set_session_def session_of_upd dest: session_of_id)

lemma set_session_frame [simp]:
  "turn_of k (set_session sid f d) = turn_of k d"
  "d_turns (set_session sid f d) = d_turns d"
  by (simp_all add: set_session_def)

subsection \<open>Binding a thread\<close>

datatype bind_error = BindNoError | BindSessionNotFound | BindException

record bind_result =
  b_success :: bool
  b_reason :: "pystr option"
  b_error :: bind_error

definition bind_failed :: "bind_error \<Rightarrow> bind_result" where
  "bind_failed e = \<lparr>b_success = False, b_reason = Some (u ''thread_bind_failed''), b_error = e\<rparr>"

definition queued_create :: "uuid \<Rightarrow> outbox_row \<Rightarrow> bool" where
  "queued_create sid r \<longleftrightarrow> o_etype r = u ''runner.create_session.v1'' \<and> o_published_at r = None \<and>
     pget ''session_id'' (o_payload r) = Some (JStr (uuid_str sid))"

text \<open>
  A thread id another session carries violates the unique column, and two queued rows make
  \<open>scalar_one_or_none\<close> raise: both roll the transaction back.
\<close>

definition bind_session_thread :: "uuid \<Rightarrow> pystr \<Rightarrow> db \<Rightarrow> bind_result \<times> db" where
  "bind_session_thread sid thread d =
     (case session_of sid d of
        None \<Rightarrow> (bind_failed BindSessionNotFound, d)
      | Some s \<Rightarrow>
          if s_thread s = Some thread then (\<lparr>b_success = True, b_reason = None, b_error = BindNoError\<rparr>, d)
          else if s_thread s \<noteq> None then
            (\<lparr>b_success = False, b_reason = Some (u ''already_bound''), b_error = BindNoError\<rparr>, d)
          else if sel (\<lambda>x. s_thread x = Some thread) (d_sessions d) \<noteq> [] \<or>
                  2 \<le> length (sel (queued_create sid) (d_outbox d))
          then (bind_failed BindException, d)
          else
            (\<lparr>b_success = True, b_reason = None, b_error = BindNoError\<rparr>,
             (set_session sid (\<lambda>s. s\<lparr>s_thread := Some thread\<rparr>) d)
               \<lparr>d_outbox := upd (queued_create sid)
                  (\<lambda>r. r\<lparr>o_payload := pset ''thread_id'' (JStr thread) (o_payload r)\<rparr>) (d_outbox d)\<rparr>))"

subsection \<open>Finding a session\<close>

definition resolve_session_for_thread :: "pystr \<Rightarrow> pystr \<Rightarrow> db \<Rightarrow> session option" where
  "resolve_session_for_thread thread guild d =
     find (\<lambda>s. s_thread s = Some thread \<and> s_guild s = Some guild) (d_sessions d)"

definition is_member_row :: "db \<Rightarrow> uuid \<Rightarrow> pystr \<Rightarrow> bool" where
  "is_member_row d sid user \<longleftrightarrow> get member_id (sid, user) (d_members d) \<noteq> None"

definition owns_or_member :: "db \<Rightarrow> pystr \<Rightarrow> session \<Rightarrow> bool" where
  "owns_or_member d user s \<longleftrightarrow> s_owner s = Some user \<or> is_member_row d (s_id s) user"

text \<open>The pattern \<open>[0-9a-fA-F-]{8,35}\<close> and \<open>CAST(id AS text) ILIKE ref || '%'\<close>.\<close>

definition hexish :: "nat \<Rightarrow> bool" where
  "hexish c \<longleftrightarrow> (48 \<le> c \<and> c \<le> 57) \<or> (97 \<le> c \<and> c \<le> 102) \<or> (65 \<le> c \<and> c \<le> 70) \<or> c = dash"

definition id_prefix :: "pystr \<Rightarrow> session \<Rightarrow> bool" where
  "id_prefix ref s \<longleftrightarrow> prefix (map lower_ascii ref) (uuid_str (s_id s))"

definition scope :: "pystr \<Rightarrow> pystr \<Rightarrow> bool \<Rightarrow> db \<Rightarrow> session list" where
  "scope guild user admin d =
     order_by (\<lambda>s. - s_created_at s)
       (sel (\<lambda>s. s_guild s = Some guild \<and> (admin \<or> owns_or_member d user s)) (d_sessions d))"

definition resolve_session_target ::
  "pystr \<Rightarrow> pystr \<Rightarrow> pystr option \<Rightarrow> pystr option \<Rightarrow> pystr list \<Rightarrow> pystr list option \<Rightarrow> db \<Rightarrow>
   session option" where
  "resolve_session_target guild user session_ref thread roles role_names d =
     (let admin = is_guild_admin_authorized d guild roles role_names;
          base = scope guild user admin d;
          in_thread = (if session_ref = None \<and> opt_str thread \<noteq> []
                       then find (\<lambda>s. s_thread s = thread) base else None)
      in (case in_thread of
            Some s \<Rightarrow> Some s
          | None \<Rightarrow>
              let rows =
                (case session_ref of
                   None \<Rightarrow> take 1 (sel (owns_or_member d user) base)
                 | Some ref \<Rightarrow>
                     (case uuid_of_str ref of
                        Some i \<Rightarrow> take 1 (sel (\<lambda>s. s_id s = i) base)
                      | None \<Rightarrow>
                          if 8 \<le> length ref \<and> length ref \<le> 35 \<and> list_all hexish ref
                          then take 2 (sel (\<lambda>s. id_prefix ref s \<or> s_name s = ref) base)
                          else take 2 (sel (\<lambda>s. s_name s = ref) base)))
              in (case rows of [s] \<Rightarrow> Some s | _ \<Rightarrow> None)))"

lemma scope_set:
  "s \<in> set (scope g us admin d) \<longleftrightarrow>
     s \<in> set (d_sessions d) \<and> s_guild s = Some g \<and> (admin \<or> owns_or_member d us s)"
  by (auto simp: scope_def order_by_def sel_def)

subsection \<open>Stop\<close>

definition run_stop_saga ::
  "int \<Rightarrow> pystr \<Rightarrow> pystr \<Rightarrow> uuid \<Rightarrow> pystr \<Rightarrow> pystr \<Rightarrow> pystr option \<Rightarrow> db \<Rightarrow> bool \<times> db" where
  "run_stop_saga now k1 k2 sid guild requested_by host_id d =
     (case session_of sid d of
        None \<Rightarrow> (False, d)
      | Some sess \<Rightarrow>
          if s_guild sess \<noteq> Some guild \<or> s_status sess \<notin> {Creating, Resuming, Running, Idle} then (False, d)
          else
            (let target_host = or_str host_id (s_host sess) in
             (True,
              write_outbox now (u ''bot'') (runner_jobs target_host) (u ''runner.stop_session.v1'')
                [(u ''type'', JStr (u ''runner.stop_session.v1'')), (u ''idempotency_key'', JStr k2),
                 (u ''session_id'', JStr (uuid_str sid)), (u ''guild_id'', JStr guild),
                 (u ''host_id'', JStr target_host), (u ''lifecycle_version'', JInt (s_version sess + 1))]
                (add_event now (Some k1) (Some guild) (Some sid) (Some requested_by)
                   (u ''session.stop.requested'') []
                   (set_session sid (change_status Stopping now) d)))))"

subsection \<open>Archive\<close>

definition run_archive_saga ::
  "int \<Rightarrow> pystr \<Rightarrow> pystr \<Rightarrow> pystr \<Rightarrow> uuid \<Rightarrow> pystr \<Rightarrow> db \<Rightarrow> bool \<times> db" where
  "run_archive_saga now k1 k2 k3 sid guild d =
     (case session_of sid d of
        None \<Rightarrow> (False, d)
      | Some sess \<Rightarrow>
          if s_guild sess \<noteq> Some guild \<or> s_status sess \<notin> {Running, Idle, Stopped} then (False, d)
          else
            (let d1 = set_session sid (\<lambda>s. (change_status Archived now s)\<lparr>s_archived_at := Some now\<rparr>) d;
                 d2 = add_event now (Some k1) (Some guild) (Some sid) None
                        (u ''session.archive.requested'') [] d1;
                 d3 = write_outbox now (u ''bot'') (runner_jobs (fstr (s_host sess)))
                        (u ''runner.stop_session.v1'')
                        [(u ''type'', JStr (u ''runner.stop_session.v1'')), (u ''idempotency_key'', JStr k2),
                         (u ''session_id'', JStr (uuid_str sid)), (u ''guild_id'', JStr guild),
                         (u ''host_id'', jopt (s_host sess)),
                         (u ''lifecycle_version'', JInt (s_version sess + 1))] d2
             in (True,
                 if opt_str (s_thread sess) \<noteq> [] then
                   write_outbox now (u ''bot'') discord_outbound (u ''discord.archive_thread.v1'')
                     [(u ''type'', JStr (u ''discord.archive_thread.v1'')), (u ''idempotency_key'', JStr k3),
                      (u ''session_id'', JStr (uuid_str sid)), (u ''guild_id'', JStr guild),
                      (u ''thread_id'', jopt (s_thread sess))] d3
                 else d3)))"

subsection \<open>Resume and restart\<close>

definition run_resume_saga ::
  "int \<Rightarrow> pystr \<Rightarrow> pystr \<Rightarrow> uuid \<Rightarrow> pystr \<Rightarrow> pystr option \<Rightarrow> db \<Rightarrow> bool \<times> db" where
  "run_resume_saga now k1 k2 sid guild host_id d =
     (case session_of sid d of
        None \<Rightarrow> (False, d)
      | Some sess \<Rightarrow>
          if s_guild sess \<noteq> Some guild \<or> s_status sess \<noteq> Archived then (False, d)
          else
            (let target_host = or_str host_id (s_host sess) in
             (True,
              write_outbox now (u ''bot'') (runner_jobs target_host) (u ''runner.resume_session.v1'')
                [(u ''type'', JStr (u ''runner.resume_session.v1'')), (u ''idempotency_key'', JStr k2),
                 (u ''session_id'', JStr (uuid_str sid)), (u ''guild_id'', JStr guild),
                 (u ''host_id'', JStr target_host), (u ''lifecycle_version'', JInt (s_version sess + 1)),
                 (u ''thread_id'', JStr (opt_str (s_thread sess)))]
                (add_event now (Some k1) (Some guild) (Some sid) None (u ''session.resume.requested'') []
                   (set_session sid
                      (\<lambda>s. (change_status Resuming now s)\<lparr>s_archived_at := None, s_activity_at := now\<rparr>) d)))))"

definition run_restart_saga ::
  "int \<Rightarrow> pystr \<Rightarrow> pystr \<Rightarrow> uuid \<Rightarrow> pystr \<Rightarrow> pystr \<Rightarrow> db \<Rightarrow> uuid result \<times> db" where
  "run_restart_saga now k1 k2 sid guild requested_by d =
     (case session_of sid d of
        None \<Rightarrow> (Inl (ValueErr (u ''session not found'')), d)
      | Some sess \<Rightarrow>
          if s_guild sess \<noteq> Some guild then (Inl (ValueErr (u ''session not found'')), d)
          else if s_status sess \<notin> {Running, Idle, Stopped} then
            (Inl (ValueErr (u ''session '' @ uuid_str sid @ u '' not in restartable state'')), d)
          else
            (Inr sid,
             write_outbox now (u ''bot'') (runner_jobs (fstr (s_host sess))) (u ''runner.restart_session.v1'')
               [(u ''type'', JStr (u ''runner.restart_session.v1'')), (u ''idempotency_key'', JStr k2),
                (u ''session_id'', JStr (uuid_str sid)), (u ''guild_id'', JStr guild),
                (u ''host_id'', jopt (s_host sess)), (u ''thread_id'', JStr (opt_str (s_thread sess))),
                (u ''lifecycle_version'', JInt (s_version sess + 1))]
               (add_event now (Some k1) (Some guild) (Some sid) (Some requested_by)
                  (u ''session.restart.requested'') []
                  (set_session sid
                     (\<lambda>s. (change_status Resuming now s)
                        \<lparr>s_token := None, s_stopped_at := None, s_activity_at := now\<rparr>) d))))"

subsection \<open>Members and permissions\<close>

definition ensure_user :: "pystr \<Rightarrow> pystr \<Rightarrow> db \<Rightarrow> db" where
  "ensure_user i name d = d\<lparr>d_users := ins_or_skip u_id \<lparr>u_id = i, u_name = name\<rparr> (d_users d)\<rparr>"

definition ensure_guild :: "pystr \<Rightarrow> db \<Rightarrow> db" where
  "ensure_guild g d = d\<lparr>d_guilds := ins_or_skip g_id \<lparr>g_id = g, g_name = g\<rparr> (d_guilds d)\<rparr>"

definition invite_user_to_session ::
  "int \<Rightarrow> pystr \<Rightarrow> uuid \<Rightarrow> pystr \<Rightarrow> pystr \<Rightarrow> pystr \<Rightarrow> db \<Rightarrow> bool \<times> db" where
  "invite_user_to_session now k sid guild invitee username d =
     (case session_of sid d of
        None \<Rightarrow> (False, d)
      | Some sess \<Rightarrow>
          if s_guild sess \<noteq> Some guild then (False, d)
          else
            (let d1 = ensure_user invitee username d;
                 d2 = d1\<lparr>d_members := ins_or_skip member_id
                        \<lparr>m_session = sid, m_user = invitee, m_role = Some OperatorRole\<rparr> (d_members d1)\<rparr>
             in (True, add_event now (Some k) (Some guild) (Some sid) None (u ''session.invite.requested'')
                   [(u ''invitee_id'', JStr invitee), (u ''role'', JStr (u ''operator''))] d2)))"

definition is_session_member :: "uuid \<Rightarrow> pystr \<Rightarrow> db \<Rightarrow> bool" where
  "is_session_member sid user d =
     (case session_of sid d of
        None \<Rightarrow> False
      | Some s \<Rightarrow> if s_owner s = Some user then True else is_member_row d sid user)"

definition is_session_owner_or_admin ::
  "uuid \<Rightarrow> pystr \<Rightarrow> pystr \<Rightarrow> pystr list \<Rightarrow> pystr list option \<Rightarrow> db \<Rightarrow> bool" where
  "is_session_owner_or_admin sid guild user roles role_names d =
     (case session_of sid d of
        None \<Rightarrow> False
      | Some s \<Rightarrow>
          if s_guild s = Some guild \<and> s_owner s = Some user then True
          else if s_guild s \<noteq> Some guild then False
          else is_guild_admin_authorized d guild roles role_names)"

text \<open>A command on a session reaches only sessions the caller may operate: the session it resolves to is a
  session of the guild, and the caller is an administrator of the guild, its owner or its member.\<close>

theorem resolved_session_is_accessible:
  assumes "resolve_session_target g us ref thread roles names d = Some s"
  shows "s \<in> set (d_sessions d) \<and> s_guild s = Some g \<and>
    (is_guild_admin_authorized d g roles names \<or> owns_or_member d us s)"
proof -
  let ?base = "scope g us (is_guild_admin_authorized d g roles names) d"
  have f: "find p ?base = Some x \<Longrightarrow> x \<in> set ?base" for p x
    by (auto simp: find_Some_iff)
  have t: "(case take n (sel p ?base) of [x] \<Rightarrow> Some x | _ \<Rightarrow> None) = Some y \<Longrightarrow> y \<in> set ?base" for n p y
    by (auto simp: sel_def split: list.splits dest: in_set_takeD)
      (metis (no_types, lifting) in_set_takeD list.set_intros(1) mem_Collect_eq set_filter)
  have "s \<in> set ?base"
    using assms f t unfolding resolve_session_target_def Let_def
    by (auto split: option.splits if_splits)
  then show ?thesis
    by (simp add: scope_set)
qed

lemma sample_target:
  "resolve_session_target (u ''g'') (u ''alice'') None (Some (u ''th'')) [] None (empty_db\<lparr>d_sessions := [sample_owned]\<rparr>) =
     Some sample_owned"
  by (simp add: resolve_session_target_def scope_def order_by_def sel_def owns_or_member_def sample_owned_def)

theorem resolved_session_is_accessible_witness:
  "is_guild_admin_authorized (empty_db\<lparr>d_sessions := [sample_owned]\<rparr>) (u ''g'') [] None \<or>
   owns_or_member (empty_db\<lparr>d_sessions := [sample_owned]\<rparr>) (u ''alice'') sample_owned"
  using resolved_session_is_accessible [OF sample_target] by blast

end
