(* ===== verification/Bot_Sagas.thy ===== *)
theory Bot_Sagas
  imports Session_Service
begin

text \<open>
  \<open>bot/sagas/create.py\<close>, \<open>bot/sagas/input.py\<close> and \<open>db/accessors/supersede.py\<close>: the transaction that
  creates a session (quota, resume by name, rows and the job for the runner) and the one that
  accepts an input (rate limits, turn, job). An error rolls the transaction back, so an \<open>Inl\<close>
  result leaves the database as it was.
\<close>

subsection \<open>Superseding\<close>

definition superseded_by :: "uuid \<Rightarrow> pystr" where
  "superseded_by sid = u ''superseded:'' @ uuid_str sid"

definition release_superseded :: "uuid \<Rightarrow> db \<Rightarrow> db" where
  "release_superseded failed d =
     upd_sessions (\<lambda>s. s_status s = Archived \<and> s_reason s = Some (superseded_by failed))
       (\<lambda>s. s\<lparr>s_reason := None\<rparr>) d"

definition is_superseded :: "session \<Rightarrow> bool" where
  "is_superseded s \<longleftrightarrow> prefix (u ''superseded'') (opt_str (s_reason s))"

subsection \<open>Creating a session\<close>

definition SESSION_LIMIT_MESSAGE :: pystr where
  "SESSION_LIMIT_MESSAGE = u ''Active session limit reached; stop or archive an existing session''"

definition counts_active :: "pystr \<Rightarrow> pystr \<Rightarrow> session \<Rightarrow> bool" where
  "counts_active guild owner s \<longleftrightarrow>
     s_guild s = Some guild \<and> s_owner s = Some owner \<and>
     s_status s \<notin> {Archived, Stopped, Failed, Orphaned}"

definition active_session_count :: "pystr \<Rightarrow> pystr \<Rightarrow> db \<Rightarrow> nat" where
  "active_session_count guild owner d = length (sel (counts_active guild owner) (d_sessions d))"

record create_args =
  ca_guild :: pystr
  ca_owner :: pystr
  ca_username :: pystr
  ca_tool :: pystr
  ca_name :: pystr
  ca_cwd :: pystr
  ca_realpath :: pystr
  ca_parent :: pystr
  ca_host :: pystr
  ca_thread :: pystr
  ca_model :: "pystr option"
  ca_token :: "pystr option"

definition resumable :: "create_args \<Rightarrow> session \<Rightarrow> bool" where
  "resumable a s \<longleftrightarrow>
     s_name s = ca_name a \<and> s_guild s = Some (ca_guild a) \<and> s_owner s = Some (ca_owner a) \<and>
     s_tool s = ca_tool a \<and> s_realpath s = ca_realpath a \<and> s_status s = Archived \<and> \<not> is_superseded s"

definition predecessor :: "create_args \<Rightarrow> db \<Rightarrow> session option" where
  "predecessor a d =
     (case order_by (\<lambda>s. - s_created_at s) (sel (resumable a) (d_sessions d)) of
        [] \<Rightarrow> None | s # _ \<Rightarrow> Some s)"

definition new_session :: "int \<Rightarrow> uuid \<Rightarrow> pystr \<Rightarrow> create_args \<Rightarrow> session" where
  "new_session now sid secret_hash a =
     \<lparr>s_id = sid, s_guild = Some (ca_guild a), s_owner = Some (ca_owner a), s_tool = ca_tool a,
      s_name = ca_name a, s_cwd = ca_cwd a, s_realpath = ca_realpath a, s_parent = Some (ca_parent a),
      s_thread = str_opt (ca_thread a), s_host = Some (ca_host a), s_secret_hash = secret_hash,
      s_secret_ct = None, s_token = None, s_status = Creating, s_version = 0, s_changed_at = now,
      s_reason = None, s_created_at = now, s_running_at = None, s_recovery_at = None,
      s_activity_at = now, s_stopped_at = None, s_archived_at = None, s_thread_archived_at = None,
      s_archive_requested_at = None, s_repairs = 0\<rparr>"

text \<open>
  The constraints of the new row: a fresh primary key, a unique thread, a registered host.
\<close>

definition session_insertable :: "session \<Rightarrow> db \<Rightarrow> bool" where
  "session_insertable s d \<longleftrightarrow>
     session_of (s_id s) d = None \<and>
     (s_thread s = None \<or> sel (\<lambda>x. s_thread x = s_thread s) (d_sessions d) = []) \<and>
     (case s_host s of None \<Rightarrow> True | Some h \<Rightarrow> get h_id h (d_hosts d) \<noteq> None)"

definition insert_session :: "session \<Rightarrow> db \<Rightarrow> db" where
  "insert_session s d = d\<lparr>d_sessions := d_sessions d @ [s]\<rparr>"

definition add_member :: "uuid \<Rightarrow> pystr \<Rightarrow> member_role \<Rightarrow> db \<Rightarrow> db" where
  "add_member sid user role d =
     d\<lparr>d_members := d_members d @ [\<lparr>m_session = sid, m_user = user, m_role = Some role\<rparr>]\<rparr>"

text \<open>
  \<open>secret_hash\<close> and \<open>ciphertext\<close> are what \<open>hashlib\<close> and Fernet give for the fresh hook secret; \<open>sid\<close>, \<open>k1\<close>
  and \<open>k2\<close> the fresh UUIDs. The advisory lock serialises the creations of an owner. Returns the
  predecessor whose conversation is continued.
\<close>

definition run_create_saga ::
  "settings \<Rightarrow> int \<Rightarrow> uuid \<Rightarrow> pystr \<Rightarrow> pystr \<Rightarrow> pystr \<Rightarrow> pystr \<Rightarrow> create_args \<Rightarrow> db \<Rightarrow>
   uuid option result \<times> db" where
  "run_create_saga cfg now sid k1 k2 secret_hash ciphertext a d =
     (case tool_of (ca_tool a) d of
        None \<Rightarrow> (Inl (ValueErr (u ''Unknown or disabled tool'')), d)
      | Some definition \<Rightarrow>
          if \<not> td_enabled definition then (Inl (ValueErr (u ''Unknown or disabled tool'')), d)
          else if td_source (td_config definition) = Sentinel then
            (Inl (ValueErr (u ''Tool has no isolated conversation identity'')), d)
          else if MAX_ACTIVE_SESSIONS_PER_USER cfg \<le> int (active_session_count (ca_guild a) (ca_owner a) d)
          then (Inl (ValueErr SESSION_LIMIT_MESSAGE), d)
          else
            (let old = predecessor a d;
                 token = (case ca_token a of
                            Some t \<Rightarrow> Some t
                          | None \<Rightarrow> (case old of Some s \<Rightarrow> s_token s | None \<Rightarrow> None));
                 d1 = (case old of
                         Some s \<Rightarrow> set_session (s_id s) (\<lambda>s. s\<lparr>s_reason := Some (superseded_by sid)\<rparr>) d
                       | None \<Rightarrow> d);
                 d2 = ensure_user (ca_owner a) (ca_username a) (ensure_guild (ca_guild a) d1);
                 row = new_session now sid secret_hash a
             in if \<not> session_insertable row d2 then (Inl (IntegrityErr (u ''sessions'')), d)
                else
                  (Inr (map_option s_id old),
                   write_outbox now (u ''bot'') (runner_jobs (ca_host a)) (u ''runner.create_session.v1'')
                     [(u ''type'', JStr (u ''runner.create_session.v1'')), (u ''idempotency_key'', JStr k1),
                      (u ''session_id'', JStr (uuid_str sid)), (u ''guild_id'', JStr (ca_guild a)),
                      (u ''owner_id'', JStr (ca_owner a)), (u ''tool'', JStr (ca_tool a)),
                      (u ''cwd_realpath'', JStr (ca_realpath a)), (u ''thread_id'', JStr (ca_thread a)),
                      (u ''hook_secret_ciphertext'', JStr ciphertext), (u ''model'', jopt (ca_model a)),
                      (u ''resume_token'', jopt token)]
                     (add_event now (Some k2) (Some (ca_guild a)) (Some sid) (Some (ca_owner a))
                        (u ''session.create.requested'')
                        [(u ''tool'', JStr (ca_tool a)), (u ''cwd'', JStr (ca_realpath a))]
                        (add_member sid (ca_owner a) OwnerRole (insert_session row d2))))))"

subsection \<open>Accepting an input\<close>

text \<open>
  \<open>int(str(item.get("bytes", 0)))\<close>; \<open>None\<close> when \<open>int\<close> raises. Only this saga writes these events, always
  with an integer.
\<close>

definition event_bytes :: "payload \<Rightarrow> int option" where
  "event_bytes p =
     (case pget ''bytes'' p of
        None \<Rightarrow> Some 0
      | Some (JInt n) \<Rightarrow> Some n
      | Some (JStr s) \<Rightarrow> if s = [] then None else map_option int (int_of_digits (\<lambda>_. None) 0 s)
      | Some _ \<Rightarrow> None)"

definition recent_inputs :: "int \<Rightarrow> uuid \<Rightarrow> db \<Rightarrow> payload list" where
  "recent_inputs now sid d =
     map e_payload (sel (\<lambda>e. e_session e = Some sid \<and> e_type e = u ''session.input.accepted'' \<and>
       now - 60000 \<le> e_created_at e) (d_events d))"

text \<open>The three input quotas as \<open>get_quota\<close> returns them.\<close>

record input_quotas =
  q_message_bytes :: int
  q_messages :: int
  q_minute_bytes :: int

record input_args =
  ia_session :: uuid
  ia_guild :: pystr
  ia_owner :: pystr
  ia_actor :: "pystr option"
  ia_text :: pystr

definition insert_turn :: "int \<Rightarrow> pystr \<Rightarrow> uuid \<Rightarrow> int \<Rightarrow> db \<Rightarrow> db" where
  "insert_turn now key sid version d =
     d\<lparr>d_turns := d_turns d @
         [\<lparr>t_seq = d_next_turn d, t_key = key, t_session = sid, t_version = version, t_status = Queued,
           t_result = None, t_token = None, t_created_at = now, t_updated_at = now\<rparr>],
       d_next_turn := Suc (d_next_turn d)\<rparr>"

definition over_rate :: "input_quotas \<Rightarrow> int \<Rightarrow> payload list \<Rightarrow> bool result" where
  "over_rate q input_bytes recent =
     (if q_messages q \<le> int (length recent) then Inr True
      else if list_ex (\<lambda>p. event_bytes p = None) recent then Inl (ValueErr (u ''invalid literal''))
      else Inr (q_minute_bytes q < sum_list (map (\<lambda>p. case event_bytes p of Some n \<Rightarrow> n | None \<Rightarrow> 0) recent)
                  + input_bytes))"

definition run_input_saga ::
  "settings \<Rightarrow> input_quotas \<Rightarrow> int \<Rightarrow> pystr \<Rightarrow> input_args \<Rightarrow> db \<Rightarrow> pystr result \<times> db" where
  "run_input_saga cfg q now key a d =
     (let input_bytes = int (utf8_len (ia_text a)) in
      if py_strip (ia_text a) = [] then (Inl (ValueErr (u ''empty_input'')), d)
      else if q_message_bytes q < input_bytes then (Inl (ValueErr (u ''input_too_large'')), d)
      else if EMERGENCY_STOP cfg \<noteq> 0 then (Inl (ValueErr (u ''emergency_stop'')), d)
      else
        (case session_of (ia_session a) d of
           None \<Rightarrow> (Inl (ValueErr (u ''session_not_found'')), d)
         | Some row \<Rightarrow>
             if s_guild row \<noteq> Some (ia_guild a) then (Inl (ValueErr (u ''session_not_found'')), d)
             else if s_status row \<notin> {Running, Idle} then
               (Inl (ValueErr (u ''session_not_ready:'' @ status_str (s_status row))), d)
             else if opt_str (s_thread row) = [] \<or> opt_str (s_host row) = [] then
               (Inl (ValueErr (u ''session_not_ready'')), d)
             else
               (case over_rate q input_bytes (recent_inputs now (ia_session a) d) of
                  Inl e \<Rightarrow> (Inl e, d)
                | Inr True \<Rightarrow> (Inl (ValueErr (u ''input_rate_limit: retry in one minute'')), d)
                | Inr False \<Rightarrow>
                    if turn_of key d \<noteq> None then (Inl (IntegrityErr (u ''input_turns'')), d)
                    else
                      (Inr key,
                       write_outbox now (u ''bot'') (input_jobs (opt_str (s_host row))) (u ''runner.send_input.v1'')
                         [(u ''type'', JStr (u ''runner.send_input.v1'')), (u ''idempotency_key'', JStr key),
                          (u ''session_id'', JStr (uuid_str (ia_session a))), (u ''guild_id'', JStr (ia_guild a)),
                          (u ''thread_id'', jopt (s_thread row)), (u ''host_id'', jopt (s_host row)),
                          (u ''text'', JStr (ia_text a)), (u ''lifecycle_version'', JInt (s_version row))]
                         (insert_turn now key (ia_session a) (s_version row)
                            (add_event now (Some key) (Some (ia_guild a)) (Some (ia_session a))
                               (Some (or_str (ia_actor a) (Some (ia_owner a)))) (u ''session.input.accepted'')
                               [(u ''bytes'', JInt input_bytes)]
                               (set_session (ia_session a)
                                  (\<lambda>s. s\<lparr>s_activity_at := now, s_status := Running\<rparr>) d))))))) "

subsection \<open>What a creation does\<close>

lemma counts_active_keep:
  assumes "\<And>s. s_guild (f s) = s_guild s \<and> s_owner (f s) = s_owner s \<and> s_status (f s) = s_status s"
  shows "length (sel (counts_active g ow) (upd p f rs)) = length (sel (counts_active g ow) rs)"
  using assms by (induction rs) (auto simp: sel_def upd_def counts_active_def)

lemma ensure_frames [simp]:
  "d_sessions (ensure_user i n d) = d_sessions d" "d_sessions (ensure_guild g d) = d_sessions d"
  "d_sessions (add_member sid us ro d) = d_sessions d"
  "d_sessions (insert_session s d) = d_sessions d @ [s]"
  "d_turns (ensure_user i n d) = d_turns d" "d_turns (ensure_guild g d) = d_turns d"
  "d_turns (add_member sid us ro d) = d_turns d" "d_turns (insert_session s d) = d_turns d"
  "d_sessions (insert_turn now k sid v d) = d_sessions d"
  by (simp_all add: ensure_user_def ensure_guild_def add_member_def insert_session_def insert_turn_def)

lemma d_sessions_set [simp]: "d_sessions (set_session sid f d) = upd (\<lambda>s. s_id s = sid) f (d_sessions d)"
  by (simp add: set_session_def)

lemma create_ok_sessions:
  assumes "run_create_saga cfg now sid k1 k2 sh ct a d = (Inr old, d')"
  shows "\<exists>p. d_sessions d' =
      upd p (\<lambda>s. s\<lparr>s_reason := Some (superseded_by sid)\<rparr>) (d_sessions d) @ [new_session now sid sh a]"
    and "int (active_session_count (ca_guild a) (ca_owner a) d) < MAX_ACTIVE_SESSIONS_PER_USER cfg"
proof -
  have none: "upd (\<lambda>_. False) f (rs :: session list) = rs" for f rs
    by (simp add: upd_def)
  show "\<exists>p. d_sessions d' =
      upd p (\<lambda>s. s\<lparr>s_reason := Some (superseded_by sid)\<rparr>) (d_sessions d) @ [new_session now sid sh a]"
  proof (cases "predecessor a d")
    case None
    then show ?thesis
      using assms none by (intro exI [of _ "\<lambda>_. False"])
        (auto simp: run_create_saga_def Let_def split: option.splits if_splits)
  next
    case (Some p)
    then show ?thesis
      using assms by (intro exI [of _ "\<lambda>s. s_id s = s_id p"])
        (auto simp: run_create_saga_def Let_def split: option.splits if_splits)
  qed
  show "int (active_session_count (ca_guild a) (ca_owner a) d) < MAX_ACTIVE_SESSIONS_PER_USER cfg"
    using assms by (auto simp: run_create_saga_def Let_def split: option.splits if_splits)
qed

lemma create_count:
  assumes "run_create_saga cfg now sid k1 k2 sh ct a d = (Inr old, d')"
  shows "active_session_count (ca_guild a) (ca_owner a) d' = Suc (active_session_count (ca_guild a) (ca_owner a) d)"
proof -
  obtain p where p: "d_sessions d' =
      upd p (\<lambda>s. s\<lparr>s_reason := Some (superseded_by sid)\<rparr>) (d_sessions d) @ [new_session now sid sh a]"
    using create_ok_sessions(1) [OF assms] by blast
  have "length (sel (counts_active (ca_guild a) (ca_owner a)) [new_session now sid sh a]) = 1"
    by (simp add: sel_def counts_active_def new_session_def)
  then show ?thesis
    using counts_active_keep [of "\<lambda>s. s\<lparr>s_reason := Some (superseded_by sid)\<rparr>"]
    by (simp add: active_session_count_def p sel_def)
qed

text \<open>The id of a new session was free.\<close>

lemma create_fresh:
  assumes "run_create_saga cfg now sid k1 k2 sh ct a d = (Inr old, d')"
  shows "session_of sid d = None"
proof -
  have f: "session_of sid (ensure_user n w (ensure_guild g d2)) = session_of sid d2" for n w g d2
    by (simp add: session_of_def)
  let ?d1 = "case predecessor a d of
      Some s \<Rightarrow> set_session (s_id s) (\<lambda>s. s\<lparr>s_reason := Some (superseded_by sid)\<rparr>) d | None \<Rightarrow> d"
  have "session_insertable (new_session now sid sh a)
      (ensure_user (ca_owner a) (ca_username a) (ensure_guild (ca_guild a) ?d1))"
    using assms by (auto simp: run_create_saga_def Let_def split: option.splits if_splits)
  then have "session_of sid ?d1 = None"
    by (simp add: session_insertable_def new_session_def f)
  then show ?thesis
    by (simp split: option.splits if_splits)
qed

lemma refused_request_changes_nothing_parts:
  "run_create_saga cfg now sid k1 k2 sh ct a d = (Inl e, d') \<Longrightarrow> d' = d"
  "run_input_saga cfg q now key b d = (Inl e, d') \<Longrightarrow> d' = d"
proof -
  show "run_create_saga cfg now sid k1 k2 sh ct a d = (Inl e, d') \<Longrightarrow> d' = d"
    by (auto simp: run_create_saga_def Let_def split: option.splits if_splits)
  show "run_input_saga cfg q now key b d = (Inl e, d') \<Longrightarrow> d' = d"
    by (auto simp: run_input_saga_def Let_def split: option.splits if_splits sum.splits bool.splits)
qed

text \<open>A refused request changes nothing: when the creation of a session or an input is refused, whatever the
  reason, the database is as it was.\<close>

theorem refused_request_changes_nothing:
  "((run_create_saga cfg now sid k1 k2 sh ct a d = (Inl e, d')) \<longrightarrow> (d' = d)) \<and>
     ((run_input_saga cfg q now key b d = (Inl e, d')) \<longrightarrow> (d' = d))"
proof -
  have c1: "((run_create_saga cfg now sid k1 k2 sh ct a d = (Inl e, d')) \<longrightarrow> (d' = d))"
    by ((rule impI)+, rule refused_request_changes_nothing_parts(1), assumption+)
  have c2: "((run_input_saga cfg q now key b d = (Inl e, d')) \<longrightarrow> (d' = d))"
    by ((rule impI)+, rule refused_request_changes_nothing_parts(2), assumption+)
  show ?thesis
    by (rule conjI [OF c1 c2])
qed

lemma create_ok_session_of:
  assumes "run_create_saga cfg now sid k1 k2 sh ct a d = (Inr old, d')"
  shows "session_of sid d' = Some (new_session now sid sh a)"
proof -
  let ?f = "\<lambda>s. s\<lparr>s_reason := Some (superseded_by sid)\<rparr>"
  obtain p where p: "d_sessions d' = upd p ?f (d_sessions d) @ [new_session now sid sh a]"
    using create_ok_sessions(1) [OF assms] by blast
  have "get s_id sid (upd p ?f (d_sessions d)) = None"
    using create_fresh [OF assms] by (simp add: session_of_def get_upd)
  then show ?thesis
    unfolding session_of_def p by (simp add: get_append) (simp add: new_session_def)
qed

lemma sample_text: "py_strip (u ''hi'') \<noteq> []" "utf8_len (u ''hi'') = 2"
  by (simp_all add: u_def py_strip_def strip_by_def lstrip_by_def rstrip_by_def is_space_def utf8_len_def utf8_width_def)

theorem refused_request_changes_nothing_witness:
  "snd (run_input_saga (default_settings [] [] [] [] TrustedHost) \<lparr>q_message_bytes = 10, q_messages = 1, q_minute_bytes = 10\<rparr> 0
     (u ''k'') \<lparr>ia_session = 1, ia_guild = u ''g'', ia_owner = u ''a'', ia_actor = None, ia_text = u ''hi''\<rparr> empty_db) = empty_db"
proof -
  have "fst (run_input_saga (default_settings [] [] [] [] TrustedHost) \<lparr>q_message_bytes = 10, q_messages = 1, q_minute_bytes = 10\<rparr> 0
     (u ''k'') \<lparr>ia_session = 1, ia_guild = u ''g'', ia_owner = u ''a'', ia_actor = None, ia_text = u ''hi''\<rparr> empty_db) =
     Inl (ValueErr (u ''session_not_found''))"
    by (simp add: run_input_saga_def sample_text session_of_def empty_db_def default_settings_def)
  then show ?thesis
    using refused_request_changes_nothing [THEN conjunct2, THEN mp] by (metis prod.collapse)
qed

lemma creation_respects_quota_parts:
  assumes "run_create_saga cfg now sid k1 k2 sh ct a d = (Inr old, d')"
  shows "int (active_session_count (ca_guild a) (ca_owner a) d') \<le> MAX_ACTIVE_SESSIONS_PER_USER cfg"
    "active_session_count (ca_guild a) (ca_owner a) d' = Suc (active_session_count (ca_guild a) (ca_owner a) d)"
    "session_of sid d' = Some (new_session now sid sh a)"
    "\<exists>row. d_outbox d' = d_outbox d @ [row] \<and> o_stream row = runner_jobs (ca_host a) \<and>
       pget ''session_id'' (o_payload row) = Some (JStr (uuid_str sid))"
proof -
  show "active_session_count (ca_guild a) (ca_owner a) d' = Suc (active_session_count (ca_guild a) (ca_owner a) d)"
    by (rule create_count [OF assms])
  then show "int (active_session_count (ca_guild a) (ca_owner a) d') \<le> MAX_ACTIVE_SESSIONS_PER_USER cfg"
    using create_ok_sessions(2) [OF assms] by simp
  show "session_of sid d' = Some (new_session now sid sh a)"
    using create_ok_session_of [OF assms] .
  show "\<exists>row. d_outbox d' = d_outbox d @ [row] \<and> o_stream row = runner_jobs (ca_host a) \<and>
       pget ''session_id'' (o_payload row) = Some (JStr (uuid_str sid))"
    using assms by (auto simp: run_create_saga_def Let_def write_outbox_def add_event_def add_member_def insert_session_def
        ensure_user_def ensure_guild_def set_session_def upd_sessions_def split: option.splits if_splits)
qed

text \<open>C17. The quota of active sessions holds after every creation, which adds exactly one active session of the
  owner in the guild, under a fresh id, with one job for its runner.\<close>

theorem creation_respects_quota:
  assumes "run_create_saga cfg now sid k1 k2 sh ct a d = (Inr old, d')"
  shows "(int (active_session_count (ca_guild a) (ca_owner a) d') \<le> MAX_ACTIVE_SESSIONS_PER_USER cfg) \<and>
     (active_session_count (ca_guild a) (ca_owner a) d' = Suc (active_session_count (ca_guild a) (ca_owner a) d)) \<and>
     (session_of sid d' = Some (new_session now sid sh a)) \<and>
     (\<exists>row. d_outbox d' = d_outbox d @ [row] \<and> o_stream row = runner_jobs (ca_host a) \<and> pget ''session_id'' (o_payload row) = Some (JStr (uuid_str sid)))"
proof -
  have c1: "(int (active_session_count (ca_guild a) (ca_owner a) d') \<le> MAX_ACTIVE_SESSIONS_PER_USER cfg)"
    by (rule creation_respects_quota_parts(1) [OF assms])
  have c2: "(active_session_count (ca_guild a) (ca_owner a) d' = Suc (active_session_count (ca_guild a) (ca_owner a) d))"
    by (rule creation_respects_quota_parts(2) [OF assms])
  have c3: "(session_of sid d' = Some (new_session now sid sh a))"
    by (rule creation_respects_quota_parts(3) [OF assms])
  have c4: "(\<exists>row. d_outbox d' = d_outbox d @ [row] \<and> o_stream row = runner_jobs (ca_host a) \<and> pget ''session_id'' (o_payload row) = Some (JStr (uuid_str sid)))"
    by (rule creation_respects_quota_parts(4) [OF assms])
  show ?thesis
    by (rule conjI [OF c1 conjI [OF c2 conjI [OF c3 c4]]])
qed

definition sample_create :: create_args where
  "sample_create = \<lparr>ca_guild = u ''g'', ca_owner = u ''a'', ca_username = u ''a'', ca_tool = u ''echo'', ca_name = u ''demo'',
     ca_cwd = u ''/srv'', ca_realpath = u ''/srv'', ca_parent = u ''ch'', ca_host = u ''h'', ca_thread = [],
     ca_model = None, ca_token = None\<rparr>"

definition sample_create_db :: db where
  "sample_create_db = empty_db\<lparr>d_hosts := [\<lparr>h_id = u ''h'', h_status = Online, h_heartbeat = None\<rparr>],
     d_tools := [\<lparr>td_name = u ''echo'',
      td_config = \<lparr>td_display = u ''Echo'', td_prefix = [u ''echo''], td_resume = [],
        td_suffix = [u ''--'', u ''{prompt}''], td_pty = False, td_source = SrcNone, td_pattern = None,
        td_extractor = StdoutRaw, td_json_field = None, td_extra_paths = [], td_env = [],
        td_model_flag = None, td_api_key_env = None, td_base_url_env = None\<rparr>,
      td_enabled = True, td_created_by = None\<rparr>]\<rparr>"

lemma sample_create_ok:
  "\<exists>d'. run_create_saga (default_settings [] [] [] [] TrustedHost) 5 2 (u ''k1'') (u ''k2'') (u ''sh'') (u ''ct'')
     sample_create sample_create_db = (Inr None, d')"
proof -
  have t: "\<exists>t. tool_of (ca_tool sample_create) sample_create_db = Some t \<and> td_enabled t \<and> td_source (td_config t) \<noteq> Sentinel"
    by (simp add: tool_of_def sample_create_def sample_create_db_def)
  have "active_session_count (ca_guild sample_create) (ca_owner sample_create) sample_create_db = 0"
    "predecessor sample_create sample_create_db = None"
    by (simp_all add: active_session_count_def predecessor_def order_by_def sel_def sample_create_db_def empty_db_def)
  moreover have "session_insertable (new_session 5 2 (u ''sh'') sample_create)
      (ensure_user (ca_owner sample_create) (ca_username sample_create) (ensure_guild (ca_guild sample_create) sample_create_db))"
    by (simp add: session_insertable_def new_session_def sample_create_def sample_create_db_def empty_db_def session_of_def
        sel_def str_opt_def ensure_user_def ensure_guild_def)
  moreover have "0 < MAX_ACTIVE_SESSIONS_PER_USER (default_settings [] [] [] [] TrustedHost)"
    by (simp add: default_settings_def)
  ultimately show ?thesis
    using t by (auto simp: run_create_saga_def)
qed

theorem creation_respects_quota_witness:
  "\<exists>d'. session_of 2 d' = Some (new_session 5 2 (u ''sh'') sample_create)"
  using sample_create_ok creation_respects_quota [THEN conjunct2, THEN conjunct2, THEN conjunct1] by blast

lemma accepted_input_is_queued_parts:
  assumes "run_input_saga cfg q now key a d = (Inr k, d')"
  shows "k = key" "turn_of key d = None"
    "\<exists>s. session_of (ia_session a) d = Some s \<and>
       session_of (ia_session a) d' = Some (s\<lparr>s_activity_at := now, s_status := Running\<rparr>) \<and>
       (\<exists>t. turn_of key d' = Some t \<and> t_status t = Queued \<and> t_session t = ia_session a \<and> t_version t = s_version s) \<and>
       (\<exists>row. d_outbox d' = d_outbox d @ [row] \<and> o_stream row = input_jobs (opt_str (s_host s)) \<and>
          pget ''idempotency_key'' (o_payload row) = Some (JStr key) \<and>
          pget ''lifecycle_version'' (o_payload row) = Some (JInt (s_version s)))"
proof -
  obtain s where s: "session_of (ia_session a) d = Some s" and k: "k = key" "turn_of key d = None"
    and d': "d' = write_outbox now (u ''bot'') (input_jobs (opt_str (s_host s))) (u ''runner.send_input.v1'')
         [(u ''type'', JStr (u ''runner.send_input.v1'')), (u ''idempotency_key'', JStr key),
          (u ''session_id'', JStr (uuid_str (ia_session a))), (u ''guild_id'', JStr (ia_guild a)),
          (u ''thread_id'', jopt (s_thread s)), (u ''host_id'', jopt (s_host s)),
          (u ''text'', JStr (ia_text a)), (u ''lifecycle_version'', JInt (s_version s))]
         (insert_turn now key (ia_session a) (s_version s)
            (add_event now (Some key) (Some (ia_guild a)) (Some (ia_session a))
               (Some (or_str (ia_actor a) (Some (ia_owner a)))) (u ''session.input.accepted'')
               [(u ''bytes'', JInt (int (utf8_len (ia_text a))))]
               (set_session (ia_session a) (\<lambda>s. s\<lparr>s_activity_at := now, s_status := Running\<rparr>) d)))"
    using assms by (auto simp: run_input_saga_def Let_def split: option.splits if_splits sum.splits bool.splits)
  then show "k = key" "turn_of key d = None"
    by simp_all
  have "session_of i (insert_turn now key sid v e) = session_of i e" for i sid v e
    by (simp add: session_of_def)
  moreover have "turn_of key (insert_turn now key sid v e) = Some \<lparr>t_seq = d_next_turn e, t_key = key, t_session = sid,
      t_version = v, t_status = Queued, t_result = None, t_token = None, t_created_at = now, t_updated_at = now\<rparr>"
    if "turn_of key e = None" for sid v e
    using that by (simp add: turn_of_def insert_turn_def get_append)
  ultimately show "\<exists>s. session_of (ia_session a) d = Some s \<and>
       session_of (ia_session a) d' = Some (s\<lparr>s_activity_at := now, s_status := Running\<rparr>) \<and>
       (\<exists>t. turn_of key d' = Some t \<and> t_status t = Queued \<and> t_session t = ia_session a \<and> t_version t = s_version s) \<and>
       (\<exists>row. d_outbox d' = d_outbox d @ [row] \<and> o_stream row = input_jobs (opt_str (s_host s)) \<and>
          pget ''idempotency_key'' (o_payload row) = Some (JStr key) \<and>
          pget ''lifecycle_version'' (o_payload row) = Some (JInt (s_version s)))"
    using s k(2) by (intro exI [of _ s]) (simp add: d', simp add: write_outbox_def insert_turn_def add_event_def
        set_session_def upd_sessions_def)
qed

text \<open>C16. An accepted input leaves one queued turn and one job, both under its key and the version of the
  session, and the session running.\<close>

theorem accepted_input_is_queued:
  assumes "run_input_saga cfg q now key a d = (Inr k, d')"
  shows "(k = key) \<and>
     (turn_of key d = None) \<and>
     (\<exists>s. session_of (ia_session a) d = Some s \<and> session_of (ia_session a) d' = Some (s\<lparr>s_activity_at := now, s_status := Running\<rparr>) \<and> (\<exists>t. turn_of key d' = Some t \<and> t_status t = Queued \<and> t_session t = ia_session a \<and> t_version t = s_version s) \<and> (\<exists>row. d_outbox d' = d_outbox d @ [row] \<and> o_stream row = input_jobs (opt_str (s_host s)) \<and> pget ''idempotency_key'' (o_payload row) = Some (JStr key) \<and> pget ''lifecycle_version'' (o_payload row) = Some (JInt (s_version s))))"
proof -
  have c1: "(k = key)"
    by (rule accepted_input_is_queued_parts(1) [OF assms])
  have c2: "(turn_of key d = None)"
    by (rule accepted_input_is_queued_parts(2) [OF assms])
  have c3: "(\<exists>s. session_of (ia_session a) d = Some s \<and> session_of (ia_session a) d' = Some (s\<lparr>s_activity_at := now, s_status := Running\<rparr>) \<and> (\<exists>t. turn_of key d' = Some t \<and> t_status t = Queued \<and> t_session t = ia_session a \<and> t_version t = s_version s) \<and> (\<exists>row. d_outbox d' = d_outbox d @ [row] \<and> o_stream row = input_jobs (opt_str (s_host s)) \<and> pget ''idempotency_key'' (o_payload row) = Some (JStr key) \<and> pget ''lifecycle_version'' (o_payload row) = Some (JInt (s_version s))))"
    by (rule accepted_input_is_queued_parts(3) [OF assms])
  show ?thesis
    by (rule conjI [OF c1 conjI [OF c2 c3]])
qed

definition sample_input_db :: db where
  "sample_input_db = sample_create_db\<lparr>d_sessions := [(new_session 5 2 (u ''sh'') sample_create)
     \<lparr>s_status := Idle, s_thread := Some (u ''th'')\<rparr>]\<rparr>"

definition sample_input :: input_args where
  "sample_input = \<lparr>ia_session = 2, ia_guild = u ''g'', ia_owner = u ''a'', ia_actor = None, ia_text = u ''hi''\<rparr>"

lemma sample_input_ok:
  "\<exists>k d'. run_input_saga (default_settings [] [] [] [] TrustedHost) \<lparr>q_message_bytes = 10, q_messages = 1, q_minute_bytes = 10\<rparr>
     6 (u ''k'') sample_input sample_input_db = (Inr k, d')"
proof -
  have "turn_of (u ''k'') sample_input_db = None" "recent_inputs 6 2 sample_input_db = []"
    by (simp_all add: turn_of_def recent_inputs_def sel_def sample_input_db_def sample_create_db_def empty_db_def)
  moreover have "session_of 2 sample_input_db = Some ((new_session 5 2 (u ''sh'') sample_create)
     \<lparr>s_status := Idle, s_thread := Some (u ''th'')\<rparr>)"
    by (simp add: session_of_def sample_input_db_def) (simp add: new_session_def)
  ultimately show ?thesis
    by (simp add: run_input_saga_def sample_text sample_input_def over_rate_def default_settings_def new_session_def sample_create_def)
qed

theorem accepted_input_is_queued_witness:
  "\<exists>d' t. turn_of (u ''k'') d' = Some t \<and> t_status t = Queued \<and> t_session t = 2"
  using sample_input_ok accepted_input_is_queued [THEN conjunct2, THEN conjunct2] by (fastforce simp: sample_input_def)

end
