(* ===== verification/Tools.thy ===== *)
theory Tools
  imports Domain Security
begin

text \<open>
  \<open>tools/*.py\<close>: the validation contract of tool definitions, the adapter that turns a definition into
  an argument vector and reads tokens and replies from the output, the registry lookup and ANSI
  stripping. The regular-expression engine and the JSON parser are parameters.
\<close>

subsection \<open>Engine parameters\<close>

text \<open>
  A JSON value as far as the code looks at it: a string, or another value with its \<open>str\<close> and truth
  value. \<open>re_groups\<close> is the number of groups of a pattern that compiles; \<open>re_search\<close> the first
  group of the first match; \<open>json_object\<close> the members of a text that parses to an object;
  \<open>field_error\<close> what pydantic says of the first field that is too long or too short.
\<close>

datatype json_val = JVStr pystr | JVOther pystr bool

record engine =
  re_groups :: "pystr \<Rightarrow> nat option"
  re_search :: "pystr \<Rightarrow> pystr \<Rightarrow> pystr option"
  json_object :: "pystr \<Rightarrow> (pystr \<Rightarrow> json_val option) option"
  field_error :: "tool_config \<Rightarrow> pystr"

subsection \<open>The validation contract\<close>

definition lower_az :: "nat \<Rightarrow> bool" where "lower_az c \<longleftrightarrow> 97 \<le> c \<and> c \<le> 122"
definition upper_az :: "nat \<Rightarrow> bool" where "upper_az c \<longleftrightarrow> 65 \<le> c \<and> c \<le> 90"
definition digit09 :: "nat \<Rightarrow> bool" where "digit09 c \<longleftrightarrow> 48 \<le> c \<and> c \<le> 57"

definition NAME_PATTERN :: "pystr \<Rightarrow> bool" where
  "NAME_PATTERN s \<longleftrightarrow> s \<noteq> [] \<and> lower_az (hd s) \<and> length s \<le> 64 \<and>
     list_all (\<lambda>c. lower_az c \<or> digit09 c \<or> c = underscore \<or> c = dash) (tl s)"

definition ENV_PATTERN :: "pystr \<Rightarrow> bool" where
  "ENV_PATTERN s \<longleftrightarrow> s \<noteq> [] \<and> (lower_az (hd s) \<or> upper_az (hd s) \<or> hd s = underscore) \<and>
     list_all (\<lambda>c. lower_az c \<or> upper_az c \<or> digit09 c \<or> c = underscore) (tl s)"

text \<open>\<open>needle in s\<close>.\<close>

definition contains :: "pystr \<Rightarrow> pystr \<Rightarrow> bool" where
  "contains needle s \<longleftrightarrow> sublist needle s"

definition P_PROMPT :: pystr where "P_PROMPT = u ''{prompt}''"
definition P_TOKEN :: pystr where "P_TOKEN = u ''{token}''"

definition fields_ok :: "tool_config \<Rightarrow> bool" where
  "fields_ok c \<longleftrightarrow>
     length (td_display c) \<le> 128 \<and>
     1 \<le> length (td_prefix c) \<and> length (td_prefix c) \<le> 128 \<and> length (td_resume c) \<le> 128 \<and>
     1 \<le> length (td_suffix c) \<and> length (td_suffix c) \<le> 128 \<and>
     length (opt_str (td_pattern c)) \<le> 512 \<and> length (opt_str (td_json_field c)) \<le> 64 \<and>
     length (td_extra_paths c) \<le> 128 \<and> length (td_env c) \<le> 128 \<and>
     length (opt_str (td_model_flag c)) \<le> 64 \<and> length (opt_str (td_api_key_env c)) \<le> 64 \<and>
     length (opt_str (td_base_url_env c)) \<le> 64"

definition env_keys :: "tool_config \<Rightarrow> pystr list" where
  "env_keys c = td_env c @ (case td_api_key_env c of None \<Rightarrow> [] | Some k \<Rightarrow> [k]) @
     (case td_base_url_env c of None \<Rightarrow> [] | Some k \<Rightarrow> [k])"

definition validate_contract :: "engine \<Rightarrow> tool_config \<Rightarrow> pystr option" where
  "validate_contract eng c =
     (if list_ex (\<lambda>item. item = [] \<or> nul \<in> set item)
           (td_prefix c @ td_resume c @ td_suffix c @ td_extra_paths c) then
        Some (u ''argument/path elements must be nonempty strings without NUL'')
      else if \<not> list_ex (contains P_PROMPT) (td_suffix c) then
        Some (u ''argv_suffix must contain {prompt}'')
      else if td_resume c \<noteq> [] \<and> td_source c \<noteq> Sentinel \<and> \<not> list_ex (contains P_TOKEN) (td_resume c) then
        Some (u ''argv_resume_tokens must contain {token}'')
      else if td_source c \<notin> {SrcNone, Sentinel, CallerUuid} \<and> opt_str (td_pattern c) = [] then
        Some (u ''resume_token_source requires resume_token_pattern'')
      else if td_source c \<in> {StdoutRegex, StderrRegex} \<and> re_groups eng (opt_str (td_pattern c)) = None then
        Some (u ''resume_token_pattern regex invalid'')
      else if td_source c \<in> {StdoutRegex, StderrRegex} \<and> re_groups eng (opt_str (td_pattern c)) \<noteq> Some 1 then
        Some (u ''resume_token_pattern must have exactly one capture group'')
      else if td_extractor c = JsonFieldEx \<and> opt_str (td_json_field c) = [] then
        Some (u ''json_field requires reply_json_field'')
      else if list_ex (\<lambda>k. \<not> ENV_PATTERN k \<or> k \<in> set FORBIDDEN_ENV) (env_keys c) then
        Some (u ''environment key is invalid or reserved for infrastructure'')
      else None)"

definition validate_tool_config :: "engine \<Rightarrow> tool_config \<Rightarrow> pystr option \<Rightarrow> pystr option" where
  "validate_tool_config eng c name =
     (if (case name of None \<Rightarrow> False | Some n \<Rightarrow> \<not> NAME_PATTERN n) then
        Some (u ''name must match ^[a-z][a-z0-9_-]{0,63}$'')
      else if \<not> fields_ok c then Some (field_error eng c)
      else map_option (\<lambda>m. u ''config: Value error, '' @ m) (validate_contract eng c))"

lemma if_Some_None: "(if b then Some x else r) = None \<longleftrightarrow> \<not> b \<and> r = None"
  by simp

lemma validated_env:
  assumes "validate_tool_config eng c name = None" "k \<in> set (env_keys c)"
  shows "ENV_PATTERN k \<and> k \<notin> set FORBIDDEN_ENV"
proof -
  have "\<not> list_ex (\<lambda>k. \<not> ENV_PATTERN k \<or> k \<in> set FORBIDDEN_ENV) (env_keys c)"
    using assms(1) unfolding validate_tool_config_def validate_contract_def if_Some_None option.map_disc_iff by blast
  then show ?thesis
    using assms(2) by (auto simp: list_ex_iff)
qed

lemma validated_args:
  assumes "validate_tool_config eng c name = None" "a \<in> set (td_prefix c @ td_resume c @ td_suffix c)"
  shows "a \<noteq> [] \<and> nul \<notin> set a"
proof -
  have "\<not> list_ex (\<lambda>item. item = [] \<or> nul \<in> set item)
      (td_prefix c @ td_resume c @ td_suffix c @ td_extra_paths c)"
    using assms(1) unfolding validate_tool_config_def validate_contract_def if_Some_None option.map_disc_iff by blast
  then show ?thesis
    using assms(2) by (auto simp: list_ex_iff)
qed

subsection \<open>The registry\<close>

text \<open>\<open>get_adapter\<close>: an adapter is a definition whose validation has succeeded.\<close>

definition get_adapter :: "engine \<Rightarrow> pystr \<Rightarrow> db \<Rightarrow> tool_def result" where
  "get_adapter eng name d =
     (case find (\<lambda>r. td_name r = name \<and> td_enabled r) (d_tools d) of
        None \<Rightarrow> Inl (UnknownToolErr name)
      | Some row \<Rightarrow>
          (case validate_tool_config eng (td_config row) (Some (td_name row)) of
             Some reason \<Rightarrow> Inl (BadToolErr reason)
           | None \<Rightarrow> Inr row))"

lemma get_adapter_ok:
  "get_adapter eng name d = Inr row \<Longrightarrow>
     row \<in> set (d_tools d) \<and> td_name row = name \<and> td_enabled row \<and>
     validate_tool_config eng (td_config row) (Some name) = None"
  by (auto simp: get_adapter_def find_Some_iff split: option.splits)

subsection \<open>The argument vector\<close>

definition substitute :: "pystr \<Rightarrow> pystr \<Rightarrow> pystr list \<Rightarrow> pystr list" where
  "substitute placeholder v toks = map (replace_all placeholder v) toks"

definition unguarded_prompt :: "pystr list \<Rightarrow> bool" where
  "unguarded_prompt sfx \<longleftrightarrow>
     list_ex (\<lambda>i. sfx ! i = P_PROMPT \<and> u ''--'' \<notin> set (take i sfx)) [0..<length sfx]"

definition exec_cmd :: "tool_config \<Rightarrow> pystr \<Rightarrow> pystr option \<Rightarrow> pystr list result" where
  "exec_cmd c prompt resume_token =
     (if td_source c = Sentinel then
        Inl (ValueErr (u ''sentinel resume is disabled: the CLI must support an explicit session identity''))
      else if prefix [dash] (lstrip_by is_space prompt) \<and> unguarded_prompt (td_suffix c) then
        Inl AmbiguousPromptErr
      else
        Inr (td_prefix c @
             (if opt_str resume_token \<noteq> [] \<and> td_resume c \<noteq> []
              then substitute P_TOKEN (opt_str resume_token) (td_resume c) else []) @
             substitute P_PROMPT prompt (td_suffix c)))"

definition mint_initial_token :: "tool_config \<Rightarrow> uuid \<Rightarrow> pystr option" where
  "mint_initial_token c fresh = (if td_source c = CallerUuid then Some (uuid_str fresh) else None)"

lemma replace_prompt_dashes: "replace_all P_PROMPT v (u ''--'') = u ''--''"
  by (rule replace_all_id) (simp_all add: P_PROMPT_def u_def)

text \<open>
  A prompt that begins with a dash becomes an argument of its own only behind an explicit \<open>--\<close>.
\<close>

lemma exec_cmd_guard:
  assumes "exec_cmd c prompt tok = Inr argv" "prefix [dash] (lstrip_by is_space prompt)"
    "i < length (td_suffix c)" "td_suffix c ! i = P_PROMPT"
  shows "\<exists>before after. argv = before @ prompt # after \<and> u ''--'' \<in> set before \<and>
     after = drop (Suc i) (substitute P_PROMPT prompt (td_suffix c))"
proof -
  let ?s = "substitute P_PROMPT prompt (td_suffix c)"
  obtain pre where pre: "argv = pre @ ?s"
    using assms(1) by (auto simp: exec_cmd_def split: if_splits)
  have "\<not> unguarded_prompt (td_suffix c)"
    using assms(1,2) by (auto simp: exec_cmd_def split: if_splits)
  then have "u ''--'' \<in> set (take i (td_suffix c))"
    using assms(3,4) by (auto simp: unguarded_prompt_def list_ex_iff)
  then have dashes: "u ''--'' \<in> set (take i ?s)"
    using replace_prompt_dashes [of prompt] by (force simp: substitute_def take_map)
  have "?s ! i = prompt"
    using assms(3,4) by (simp add: substitute_def replace_all_self P_PROMPT_def)
  then have "?s = take i ?s @ prompt # drop (Suc i) ?s"
    using assms(3) by (metis id_take_nth_drop length_map substitute_def)
  then have "argv = (pre @ take i ?s) @ prompt # drop (Suc i) ?s"
    using pre by simp
  then show ?thesis
    using dashes by (metis UnCI set_append)
qed

subsection \<open>Tokens and replies\<close>

definition try_json :: "engine \<Rightarrow> pystr \<Rightarrow> (pystr \<Rightarrow> json_val option) option" where
  "try_json eng stdout =
     (if stdout = [] then None
      else (let s = py_strip stdout in if prefix (u ''{'') s then json_object eng s else None))"

definition raw_resume_token :: "engine \<Rightarrow> tool_config \<Rightarrow> pystr \<Rightarrow> pystr \<Rightarrow> pystr option" where
  "raw_resume_token eng c stdout stderr =
     (case td_source c of
        SrcNone \<Rightarrow> None
      | Sentinel \<Rightarrow> str_opt (opt_str (td_pattern c))
      | StdoutRegex \<Rightarrow> re_search eng (opt_str (td_pattern c)) stdout
      | StderrRegex \<Rightarrow> re_search eng (opt_str (td_pattern c)) stderr
      | JsonFieldSrc \<Rightarrow>
          (case try_json eng stdout of
             None \<Rightarrow> None
           | Some obj \<Rightarrow>
               (case td_pattern c of
                  None \<Rightarrow> None
                | Some key \<Rightarrow>
                    (case obj key of
                       None \<Rightarrow> None
                     | Some (JVStr t) \<Rightarrow> str_opt t
                     | Some (JVOther t truthy) \<Rightarrow> if truthy then Some t else None)))
      | CallerUuid \<Rightarrow> None)"

definition parse_resume_token :: "engine \<Rightarrow> tool_config \<Rightarrow> pystr \<Rightarrow> pystr \<Rightarrow> pystr option" where
  "parse_resume_token eng c stdout stderr =
     (case raw_resume_token eng c stdout stderr of
        None \<Rightarrow> None
      | Some t \<Rightarrow> if prefix [dash] t \<or> list_ex is_space t then None else Some t)"

lemma parse_resume_token_safe:
  "parse_resume_token eng c so se = Some t \<Longrightarrow> \<not> prefix [dash] t \<and> \<not> list_ex is_space t"
  by (auto simp: parse_resume_token_def split: option.splits if_splits)

text \<open>
  \<open>strip_ansi\<close>: the length of the escape sequence that follows an ESC, if one does. An operating
  system command ends at BEL or ESC backslash; unterminated, only its first two characters go.
\<close>

definition ansi_len :: "pystr \<Rightarrow> nat option" where
  "ansi_len s =
     (case s of
        [] \<Rightarrow> None
      | c # cs \<Rightarrow>
          if c = 93 then
            (let n = length (takeWhile (\<lambda>x. x \<noteq> 7 \<and> x \<noteq> 27) cs) in
             if prefix [7] (drop n cs) then Some (n + 2)
             else if prefix [27, 92] (drop n cs) then Some (n + 3) else Some 1)
          else if c = 91 then
            (let n = length (takeWhile (\<lambda>x. 48 \<le> x \<and> x \<le> 63) cs);
                 m = length (takeWhile (\<lambda>x. 32 \<le> x \<and> x \<le> 47) (drop n cs))
             in (case drop (n + m) cs of
                   [] \<Rightarrow> None
                 | x # _ \<Rightarrow> if 64 \<le> x \<and> x \<le> 126 then Some (n + m + 2) else None))
          else if (64 \<le> c \<and> c \<le> 90) \<or> (92 \<le> c \<and> c \<le> 95) then Some 1 else None)"

function strip_ansi :: "pystr \<Rightarrow> pystr" where
  "strip_ansi [] = []"
| "strip_ansi (c # s) =
     (if c = 27 then
        (case ansi_len s of Some n \<Rightarrow> strip_ansi (drop n s) | None \<Rightarrow> c # strip_ansi s)
      else c # strip_ansi s)"
  by pat_completeness auto
termination
  by (relation "measure length") auto

definition extract_reply :: "engine \<Rightarrow> tool_config \<Rightarrow> pystr \<Rightarrow> pystr \<Rightarrow> pystr" where
  "extract_reply eng c stdout stderr =
     (case td_extractor c of
        StdoutRaw \<Rightarrow> stdout
      | StdoutStripAnsi \<Rightarrow> strip_ansi stdout
      | JsonFieldEx \<Rightarrow>
          (case try_json eng stdout of
             None \<Rightarrow> stdout
           | Some obj \<Rightarrow>
               (case td_json_field c of
                  None \<Rightarrow> stdout
                | Some key \<Rightarrow> (case obj key of Some (JVStr v) \<Rightarrow> if v \<noteq> [] then v else stdout | _ \<Rightarrow> stdout)))
      | StderrFallback \<Rightarrow> if stdout \<noteq> [] then stdout else stderr)"

lemma strip_ansi_length: "length (strip_ansi s) \<le> length s"
proof (induction s rule: strip_ansi.induct)
  case (2 c s)
  then show ?case
    by (auto split: option.splits intro: le_SucI order_trans)
qed simp

text \<open>A prompt that starts with a dash never becomes a command-line option: when the command is built at
  all, each argument that is the whole prompt stands behind an explicit \<open>--\<close>.\<close>

theorem dash_prompt_is_guarded:
  assumes "exec_cmd c prompt tok = Inr argv" "prefix [dash] (lstrip_by is_space prompt)"
    "i < length (td_suffix c)" "td_suffix c ! i = P_PROMPT"
  shows "\<exists>before after. argv = before @ prompt # after \<and> u ''--'' \<in> set before \<and>
     after = drop (Suc i) (substitute P_PROMPT prompt (td_suffix c))"
  using assms by (rule exec_cmd_guard)

definition sample_config :: tool_config where
  "sample_config =
     \<lparr>td_display = u ''Echo'', td_prefix = [u ''echo''], td_resume = [], td_suffix = [u ''--'', u ''{prompt}''],
      td_pty = False, td_source = SrcNone, td_pattern = None, td_extractor = StdoutRaw, td_json_field = None,
      td_extra_paths = [], td_env = [], td_model_flag = None, td_api_key_env = None, td_base_url_env = None\<rparr>"

theorem dash_prompt_is_guarded_witness:
  "\<exists>before. exec_cmd sample_config (u ''-rf'') None = Inr (before @ [u ''-rf'']) \<and> u ''--'' \<in> set before"
proof -
  have "unguarded_prompt (td_suffix sample_config) = False"
    by (simp add: unguarded_prompt_def sample_config_def u_def P_PROMPT_def)
  then obtain argv where a: "exec_cmd sample_config (u ''-rf'') None = Inr argv"
    by (simp add: exec_cmd_def sample_config_def)
  show ?thesis
    using dash_prompt_is_guarded [OF a, of 1] a
    by (simp add: sample_config_def P_PROMPT_def substitute_def u_def lstrip_by_def is_space_def)
qed

end
