(* ===== verification/Runner_Create.thy ===== *)
theory Runner_Create
  imports Bot_Sagas Tools
begin

text \<open>
  \<open>runner/saga_create.py\<close> and \<open>runner/session_store.py\<close>: the job that starts a session on a runner.
  It commits several transactions; \<open>gap n\<close> is whatever other processes commit before its
  transaction \<open>n + 1\<close>, an arbitrary function. The in-memory store of the runner is a map.
\<close>

subsection \<open>The session store\<close>

record store_entry =
  st_tool :: pystr
  st_cwd :: pystr
  st_env :: env
  st_token :: "pystr option"
  st_guild :: "pystr option"
  st_thread :: "pystr option"
  st_host :: pystr
  st_status :: pystr
  st_channel :: pystr

type_synonym store = "(pystr \<times> store_entry) list"

definition build_session_store_entry ::
  "pystr \<Rightarrow> pystr \<Rightarrow> env \<Rightarrow> pystr option \<Rightarrow> pystr option \<Rightarrow> pystr option \<Rightarrow> pystr \<Rightarrow> pystr \<Rightarrow> store_entry" where
  "build_session_store_entry tool cwd env token guild thread host st =
     \<lparr>st_tool = tool, st_cwd = cwd, st_env = env, st_token = token, st_guild = guild,
      st_thread = thread, st_host = host, st_status = st, st_channel = []\<rparr>"

subsection \<open>The job payload\<close>

record create_job =
  cj_session :: pystr
  cj_guild :: pystr
  cj_owner :: pystr
  cj_tool :: pystr
  cj_cwd :: pystr
  cj_thread :: pystr
  cj_ciphertext :: pystr
  cj_key :: pystr
  cj_model :: "pystr option"
  cj_token :: "pystr option"

definition field :: "string \<Rightarrow> payload \<Rightarrow> pystr result" where
  "field k p = (case pget k p of None \<Rightarrow> Inl (KeyErr (u k)) | Some v \<Rightarrow> Inr (jstr v))"

definition field_opt :: "string \<Rightarrow> payload \<Rightarrow> pystr option" where
  "field_opt k p = (case pget k p of None \<Rightarrow> None | Some JNull \<Rightarrow> None | Some v \<Rightarrow> Some (jstr v))"

fun bind_result_of :: "'a result \<Rightarrow> ('a \<Rightarrow> 'b result) \<Rightarrow> 'b result" where
  "bind_result_of (Inl e) f = Inl e"
| "bind_result_of (Inr x) f = f x"

definition parse_create_job_payload :: "payload \<Rightarrow> create_job result" where
  "parse_create_job_payload p =
     bind_result_of (field ''session_id'' p) (\<lambda>s.
     bind_result_of (field ''guild_id'' p) (\<lambda>g.
     bind_result_of (field ''owner_id'' p) (\<lambda>w.
     bind_result_of (field ''tool'' p) (\<lambda>t.
     bind_result_of (field ''cwd_realpath'' p) (\<lambda>c.
     bind_result_of (field ''thread_id'' p) (\<lambda>th.
     bind_result_of (field ''hook_secret_ciphertext'' p) (\<lambda>ct.
     bind_result_of (field ''idempotency_key'' p) (\<lambda>k.
       Inr \<lparr>cj_session = s, cj_guild = g, cj_owner = w, cj_tool = t, cj_cwd = c, cj_thread = th,
            cj_ciphertext = ct, cj_key = k, cj_model = field_opt ''model'' p,
            cj_token = field_opt ''resume_token'' p\<rparr>))))))))"

subsection \<open>Workspace revalidation\<close>

datatype cwd_verdict = CwdOk pystr | CwdDenied deny | CwdNoRoot

definition revalidate_cwd :: "(pystr \<Rightarrow> pystr) \<Rightarrow> pystr \<Rightarrow> pystr \<Rightarrow> pystr \<Rightarrow> pystr \<Rightarrow> db \<Rightarrow> cwd_verdict" where
  "revalidate_cwd realpath cwd guild owner host d =
     (let (real, deny) = canonicalize realpath cwd in
      case deny of
        Some r \<Rightarrow> CwdDenied r
      | None \<Rightarrow>
          if list_ex (\<lambda>root. r_user root \<in> {[], owner} \<and> is_within_root real (r_realpath root))
               (sel (\<lambda>r. r_guild r = Some guild \<and> r_host r = host) (d_roots d))
          then CwdOk real else CwdNoRoot)"

lemma revalidate_ok:
  "revalidate_cwd realpath cwd g ow h d = CwdOk p \<Longrightarrow>
     p = realpath cwd \<and> deny_reason p = None \<and>
     (\<exists>r \<in> set (d_roots d). r_guild r = Some g \<and> r_host r = h \<and> r_user r \<in> {[], ow} \<and>
        is_within_root p (r_realpath r))"
  by (auto simp: revalidate_cwd_def canonicalize_def Let_def list_ex_iff sel_def
      split: option.splits if_splits)

subsection \<open>Failing a creation\<close>

definition system_notice :: "pystr \<Rightarrow> pystr \<Rightarrow> pystr \<Rightarrow> pystr \<Rightarrow> pystr \<Rightarrow> pystr \<Rightarrow> payload" where
  "system_notice key sid guild thread kind msg =
     [(u ''type'', JStr (u ''discord.system_notice.v1'')), (u ''idempotency_key'', JStr key),
      (u ''session_id'', JStr sid), (u ''guild_id'', JStr guild), (u ''thread_id'', JStr thread),
      (u ''notice_type'', JStr kind), (u ''order_after_seq'', JInt 0), (u ''message'', JStr msg)]"

definition fail_and_notify ::
  "int \<Rightarrow> pystr \<Rightarrow> uuid \<Rightarrow> pystr \<Rightarrow> pystr \<Rightarrow> pystr \<Rightarrow> db \<Rightarrow> db" where
  "fail_and_notify now key sid guild thread reason d =
     (if (case session_of sid d of Some s \<Rightarrow> s_status s = Creating | None \<Rightarrow> False) then
        write_outbox now (u ''runner'') discord_outbound (u ''discord.system_notice.v1'')
          (system_notice key (uuid_str sid) guild thread (u ''session_create_failed'') reason)
          (add_event now None (Some guild) (Some sid) None (u ''session.create.failed'')
             [(u ''reason'', JStr reason)]
             (release_superseded sid
                (set_session sid (\<lambda>s. s\<lparr>s_status := Failed, s_reason := Some reason\<rparr>) d)))
      else d)"

subsection \<open>The job\<close>

text \<open>The environment of the session's tool: the process environment, overridden, then scrubbed.\<close>

definition dict_update :: "env \<Rightarrow> env \<Rightarrow> env" where
  "dict_update e new = fold (\<lambda>(k, v) m. AList.update k v m) new e"

definition join_strs :: "pystr \<Rightarrow> pystr list \<Rightarrow> pystr" where
  "join_strs sep xs = (case xs of [] \<Rightarrow> [] | y # ys \<Rightarrow> y @ concat (map (\<lambda>z. sep @ z) ys))"

definition session_path :: "pystr \<Rightarrow> pystr list \<Rightarrow> pystr" where
  "session_path venv_bin tool_paths =
     (let base = venv_bin @ u '':/usr/local/bin:/usr/bin:/bin''; tp = join_strs (u '':'') tool_paths
      in if tp \<noteq> [] then tp @ u '':'' @ base else base)"

definition session_env :: "env \<Rightarrow> pystr \<Rightarrow> tool_config \<Rightarrow> pystr \<Rightarrow> pystr \<Rightarrow> env" where
  "session_env os_env venv_bin c home sid =
     scrub_env
       (dict_update os_env
          [(u ''PATH'', session_path venv_bin (td_extra_paths c)), (u ''HOME'', home),
           (u ''LANG'', u ''en_US.UTF-8''), (u ''TERM'', u ''xterm-256color''),
           (u ''DISCORD_AGENT_SESSION_ID'', sid), (u ''DAB_SESSION_ID'', sid)])
       (td_env c)"

text \<open>What the runner's process gives: its engine, paths, environment, host id and fresh values.\<close>

record runner_ctx =
  rc_engine :: engine
  rc_realpath :: "pystr \<Rightarrow> pystr"
  rc_os_env :: env
  rc_venv_bin :: pystr
  rc_host :: pystr

definition set_running ::
  "int \<Rightarrow> pystr \<Rightarrow> runner_ctx \<Rightarrow> uuid \<Rightarrow> create_job \<Rightarrow> pystr option \<Rightarrow> db \<Rightarrow> bool \<times> db" where
  "set_running now key rc sid j token d =
     (if (case session_of sid d of Some s \<Rightarrow> s_status s = Creating | None \<Rightarrow> False) then
        (True,
         write_outbox now (u ''runner'') discord_outbound (u ''discord.system_notice.v1'')
           (system_notice key (cj_session j) (cj_guild j) (cj_thread j) (u ''session_running'')
              (9989 # u '' Session ready. Send your messages in this thread.''))
           (add_event now None (Some (cj_guild j)) (Some sid) None (u ''session.create.running'')
              [(u ''host_id'', JStr (rc_host rc))]
              (set_session sid
                 (\<lambda>s. s\<lparr>s_status := Running, s_host := Some (rc_host rc), s_running_at := Some now,
                     s_secret_ct := Some (cj_ciphertext j), s_recovery_at := Some now,
                     s_token := (case token of None \<Rightarrow> s_token s | Some t \<Rightarrow> Some t)\<rparr>) d)))
      else (False, d))"

definition run_create_job ::
  "settings \<Rightarrow> runner_ctx \<Rightarrow> (nat \<Rightarrow> db \<Rightarrow> db) \<Rightarrow> int \<Rightarrow> pystr \<Rightarrow> uuid \<Rightarrow> create_job \<Rightarrow> store \<times> db \<Rightarrow>
   unit result \<times> store \<times> db" where
  "run_create_job cfg rc gap now key fresh j st =
     (let (store, d) = st in
      case ensure_execution_allowed cfg of
        Inl e \<Rightarrow> (Inl e, store, d)
      | Inr _ \<Rightarrow>
     (case uuid_of_str (cj_session j) of
        None \<Rightarrow> (Inl (ValueErr (u ''badly formed hexadecimal UUID string'')), store, d)
      | Some sid \<Rightarrow>
     (case session_of sid d of
        None \<Rightarrow> (Inl (CreateJobErr (u ''session '' @ cj_session j @ u '' not found'')), store, d)
      | Some s \<Rightarrow>
          if s_status s \<noteq> Creating then (Inr (), store, d)
          else (case revalidate_cwd (rc_realpath rc) (cj_cwd j) (cj_guild j) (cj_owner j) (rc_host rc) d of
            CwdOk _ \<Rightarrow>
              (let d = gap 0 d in
               case get_adapter (rc_engine rc) (cj_tool j) d of
                 Inl (UnknownToolErr _) \<Rightarrow>
                   (Inr (), store,
                    fail_and_notify now key sid (cj_guild j) (cj_thread j) (u ''tool_unavailable'') (gap 1 d))
               | Inl e \<Rightarrow> (Inl e, store, d)
               | Inr row \<Rightarrow>
                   (let token = (case cj_token j of Some t \<Rightarrow> Some t
                                 | None \<Rightarrow> mint_initial_token (td_config row) fresh);
                        env = session_env (rc_os_env rc) (rc_venv_bin rc) (td_config row) (cj_cwd j) (cj_session j);
                        (ok, d) = set_running now key rc sid j token (gap 1 d)
                    in if ok then
                         (Inr (),
                          AList.update (cj_session j)
                            (build_session_store_entry (cj_tool j) (cj_cwd j) env token (Some (cj_guild j))
                               (Some (cj_thread j)) (rc_host rc) (u ''running'')) store, d)
                       else (Inr (), store, d)))
          | _ \<Rightarrow>
              (Inl (CreateJobErr (u ''cwd rejected'')), store,
               fail_and_notify now key sid (cj_guild j) (cj_thread j) (u ''cwd_invalid'') (gap 0 d))))))"

subsection \<open>Facts\<close>

lemma session_env_clean: "k \<in> fst ` set (session_env e v c h s) \<Longrightarrow> k \<notin> set FORBIDDEN_ENV"
  unfolding session_env_def scrub_env_keys by blast

lemma set_running_status:
  assumes "set_running now key rc sid j token d = (True, d')" "session_of sid d = Some s"
  shows "s_status s = Creating" "\<exists>s'. session_of sid d' = Some s' \<and> s_status s' = Running \<and> s_version s' = s_version s"
  using assms by (auto simp: set_running_def split: if_splits)

lemma fail_and_notify_noop:
  "session_of sid d = Some s \<Longrightarrow> s_status s \<noteq> Creating \<Longrightarrow> fail_and_notify now key sid g t r d = d"
  by (simp add: fail_and_notify_def)

end
