(* ===== verification/Runner_Resume.thy ===== *)
theory Runner_Resume
  imports Runner_Create
begin

text \<open>
  \<open>runner/resume_runner.py\<close> and \<open>runner/saga_resume.py\<close>: the job that brings a session back to running,
  and the rehydration of the in-memory store when a runner starts. As in the creation job, \<open>gap n\<close>
  is what other processes commit between two transactions. Version and status guards on every
  update keep a late job from touching a session that has moved on.
\<close>

definition terminal_notice :: "pystr \<Rightarrow> pystr \<Rightarrow> pystr \<Rightarrow> pystr \<Rightarrow> pystr \<Rightarrow> payload" where
  "terminal_notice key sid guild thread msg =
     [(u ''type'', JStr (u ''discord.terminal_notice.v1'')), (u ''idempotency_key'', JStr key),
      (u ''session_id'', JStr sid), (u ''guild_id'', JStr guild), (u ''thread_id'', JStr thread),
      (u ''message'', JStr msg), (u ''then_archive'', JBool True)]"

text \<open>\<open>UPDATE sessions ... WHERE id = sid AND lifecycle_version = v AND status IN ss\<close>.\<close>

definition at_version :: "uuid \<Rightarrow> int \<Rightarrow> status list \<Rightarrow> db \<Rightarrow> bool" where
  "at_version sid v ss d =
     (case session_of sid d of
        None \<Rightarrow> False
      | Some s \<Rightarrow> s_version s = v \<and> s_status s \<in> set ss)"

definition fenced_update ::
  "uuid \<Rightarrow> int \<Rightarrow> status list \<Rightarrow> (session \<Rightarrow> session) \<Rightarrow> db \<Rightarrow> bool \<times> db" where
  "fenced_update sid v ss f d =
     (if at_version sid v ss d then (True, set_session sid f d) else (False, d))"

lemma fenced_update_cases:
  "fenced_update sid v ss f d = (ok, d') \<Longrightarrow>
     (ok \<and> at_version sid v ss d \<and> d' = set_session sid f d) \<or> (\<not> ok \<and> \<not> at_version sid v ss d \<and> d' = d)"
  by (auto simp: fenced_update_def split: if_splits)

lemma fenced_update_other:
  "(\<And>s. s_id (f s) = s_id s) \<Longrightarrow> i \<noteq> sid \<Longrightarrow>
   session_of i (snd (fenced_update sid v ss f d)) = session_of i d"
  by (simp add: fenced_update_def)

lemma fenced_update_stale:
  "session_of sid d = Some s \<Longrightarrow> s_version s \<noteq> v \<or> s_status s \<notin> set ss \<Longrightarrow>
   fenced_update sid v ss f d = (False, d)"
  by (auto simp: fenced_update_def at_version_def)

subsection \<open>The resume job\<close>

text \<open>
  \<open>store_fail\<close>: the transaction that marks the session running raises (and is rolled back).
\<close>

definition run_resume_job ::
  "runner_ctx \<Rightarrow> (nat \<Rightarrow> db \<Rightarrow> db) \<Rightarrow> int \<Rightarrow> pystr \<Rightarrow> uuid \<Rightarrow> bool \<Rightarrow> payload \<Rightarrow> store \<times> db \<Rightarrow>
   bool result \<times> store \<times> db" where
  "run_resume_job rc gap now key fresh store_fail p st =
     (let (store, d) = st; session_id = pget_str ''session_id'' p in
      case uuid_of_str session_id of
        None \<Rightarrow> (Inl (ExternalErr (u ''invalid input for query argument'')), store, d)
      | Some sid \<Rightarrow>
     (case session_of sid d of
        None \<Rightarrow> (Inr False, store, d)
      | Some s \<Rightarrow>
          if s_host s \<noteq> Some (rc_host rc) \<or> s_status s \<noteq> Resuming then (Inr False, store, d)
          else if pget ''lifecycle_version'' p \<noteq> Some (JInt (s_version s)) then (Inr False, store, d)
          else
            (let thread = opt_str (s_thread s);
                 guild = or_str (Some (pget_str ''guild_id'' p)) (s_guild s);
                 v = s_version s; d = gap 0 d
             in case revalidate_cwd (rc_realpath rc) (s_realpath s) (or_str (s_guild s) (Some guild))
                       (opt_str (s_owner s)) (rc_host rc) d of
                  CwdOk real \<Rightarrow>
                    (let d = gap 1 d;
                         token = (case s_token s of
                                    Some t \<Rightarrow> Inr (Some t)
                                  | None \<Rightarrow>
                                      (case get_adapter (rc_engine rc) (s_tool s) d of
                                         Inl e \<Rightarrow> Inl e
                                       | Inr row \<Rightarrow> Inr (mint_initial_token (td_config row) fresh)))
                     in case token of
                          Inl e \<Rightarrow> (Inl e, store, d)
                        | Inr tok \<Rightarrow>
                            (let d = gap 2 d in
                             if store_fail then
                               (let (_, d) = fenced_update sid v [Resuming]
                                      (\<lambda>s. s\<lparr>s_status := Orphaned, s_reason := Some (u ''runner_lost'')\<rparr>) (gap 3 d)
                                in (Inr False, store,
                                    write_outbox now (u ''runner'') discord_outbound (u ''discord.terminal_notice.v1'')
                                      (terminal_notice key session_id guild thread (u ''Session resume failed.'')) d))
                             else
                               (let (ok, d) = fenced_update sid v [Resuming]
                                      (\<lambda>s. s\<lparr>s_status := Running, s_activity_at := now, s_token := tok\<rparr>) d
                                in if ok then
                                     (Inr True,
                                      AList.update session_id
                                        (build_session_store_entry (s_tool s) real [] tok (Some guild)
                                           (Some thread) (rc_host rc) (u ''running'')) store, d)
                                   else (Inr False, store, d))))
                | _ \<Rightarrow>
                    (let (failed, d) = fenced_update sid v [Resuming]
                           (\<lambda>s. s\<lparr>s_status := Failed, s_reason := Some (u ''cwd_invalid'')\<rparr>) (gap 1 d)
                     in (Inr False, store,
                         if failed \<and> thread \<noteq> [] then
                           write_outbox now (u ''runner'') discord_outbound (u ''discord.terminal_notice.v1'')
                             (terminal_notice key session_id guild thread
                                (u ''Session resume failed: the workspace is no longer an allowed root on the runner.'')) d
                         else d)))))"

subsection \<open>Recovery at start-up\<close>

definition live_statuses :: "status list" where
  "live_statuses = [Running, Idle, Resuming]"

text \<open>
  One row of the loop: \<open>row_fail\<close> tells whether handling it raises. Returns whether it was recovered.
\<close>

definition recover_row ::
  "runner_ctx \<Rightarrow> (db \<Rightarrow> db) \<Rightarrow> bool \<Rightarrow> session \<Rightarrow> store \<times> db \<Rightarrow> bool \<times> store \<times> db" where
  "recover_row rc gap row_fail s st =
     (let (store, d) = st; sid = s_id s; v = s_version s in
      if row_fail then
        (False, store, snd (fenced_update sid v live_statuses
           (\<lambda>s. s\<lparr>s_status := Orphaned, s_reason := Some (u ''runner_lost'')\<rparr>) (gap d)))
      else
        (case revalidate_cwd (rc_realpath rc) (s_realpath s) (opt_str (s_guild s)) (opt_str (s_owner s))
                (rc_host rc) d of
           CwdOk real \<Rightarrow>
             (True,
              AList.update (uuid_str sid)
                (build_session_store_entry (s_tool s) real [] (s_token s) (s_guild s)
                   (Some (opt_str (s_thread s))) (rc_host rc) (u ''running'')) store, d)
         | _ \<Rightarrow>
             (False, store, snd (fenced_update sid v live_statuses
                (\<lambda>s. s\<lparr>s_status := Failed, s_reason := Some (u ''cwd_invalid'')\<rparr>) (gap d)))))"

fun recover_rows ::
  "runner_ctx \<Rightarrow> (nat \<Rightarrow> db \<Rightarrow> db) \<Rightarrow> (uuid \<Rightarrow> bool) \<Rightarrow> nat \<Rightarrow> session list \<Rightarrow> store \<times> db \<Rightarrow>
   nat \<times> nat \<times> store \<times> db" where
  "recover_rows rc gap bad n [] (store, d) = (0, 0, store, d)"
| "recover_rows rc gap bad n (s # rows) (store, d) =
     (let (ok, store, d) = recover_row rc (gap (Suc (2 * n))) (bad (s_id s)) s (store, gap (2 * n) d);
          (recovered, failed, store, d) = recover_rows rc gap bad (Suc n) rows (store, d)
      in (if ok then (Suc recovered, failed, store, d) else (recovered, Suc failed, store, d)))"

definition recover_sessions ::
  "runner_ctx \<Rightarrow> (nat \<Rightarrow> db \<Rightarrow> db) \<Rightarrow> (uuid \<Rightarrow> bool) \<Rightarrow> store \<times> db \<Rightarrow> nat \<times> nat \<times> store \<times> db" where
  "recover_sessions rc gap bad st =
     (let rows = sel (\<lambda>s. s_host s = Some (rc_host rc) \<and> s_status s \<in> {Running, Idle, Resuming})
                   (d_sessions (snd st))
      in recover_rows rc gap bad 0 rows st)"

lemma recover_rows_count:
  "recover_rows rc gap bad n rows st = (r, f, st') \<Longrightarrow> r + f = length rows"
proof (induction rows arbitrary: n st r f st')
  case (Cons s rows)
  then show ?case
    by (cases st) (fastforce simp: Let_def split: prod.splits if_splits)
qed (metis add.right_neutral list.size(3) old.prod.exhaust prod.inject recover_rows.simps(1))

lemma resume_job_is_fenced_parts:
  assumes "uuid_of_str (pget_str ''session_id'' p) = Some sid" "session_of sid d = Some s"
  shows "s_host s \<noteq> Some (rc_host rc) \<or> s_status s \<noteq> Resuming \<or> pget ''lifecycle_version'' p \<noteq> Some (JInt (s_version s)) \<Longrightarrow>
      run_resume_job rc gap now key fresh store_fail p (store, d) = (Inr False, store, d)"
    "run_resume_job rc gap now key fresh store_fail p (store, d) = (Inr True, store', d') \<Longrightarrow>
      \<exists>e tok. e = gap 2 (gap 1 (gap 0 d)) \<and> at_version sid (s_version s) [Resuming] e \<and>
        d' = set_session sid (\<lambda>s. s\<lparr>s_status := Running, s_activity_at := now, s_token := tok\<rparr>) e"
  using assms
  by (auto simp: run_resume_job_def fenced_update_def Let_def split: cwd_verdict.splits sum.splits if_splits option.splits)


definition sample_resume_job :: payload where
  "sample_resume_job = [(u ''session_id'', JStr (uuid_str 1)), (u ''lifecycle_version'', JInt 7)]"


end
