(* ===== verification/Session_Config.thy ===== *)
theory Session_Config
  imports Session_Service
begin

text \<open>
  \<open>bot/session_config_service.py\<close>: the per-session overrides. Fernet is a parameter: \<open>enc\<close> and \<open>dec\<close>
  with \<open>None\<close> for a raised exception. The invariant \<open>config_ok\<close> is the check constraint of the
  table: each row holds either a plain value or a ciphertext.
\<close>

subsection \<open>Keys and validators\<close>

datatype config_key = KModel | KBaseUrl | KApiKey

definition key_of :: "pystr \<Rightarrow> config_key option" where
  "key_of k = map_of [(u ''model'', KModel), (u ''base_url'', KBaseUrl), (u ''api_key'', KApiKey)] k"

definition key_secret :: "config_key \<Rightarrow> bool" where
  "key_secret k \<longleftrightarrow> k = KApiKey"

definition printable :: "nat \<Rightarrow> bool" where
  "printable c \<longleftrightarrow> (32 \<le> c \<and> c \<le> 126) \<or> c \<in> {9, 10, 13}"

definition validate_model :: "pystr \<Rightarrow> pystr option" where
  "validate_model v =
     (if v = [] then Some (u ''model must be non-empty'')
      else if 128 < length v then Some (u ''model must be '' @ 8804 # u '' 128 chars'')
      else if list_ex (\<lambda>c. \<not> printable c) v then Some (u ''model must contain only printable ASCII'')
      else if prefix [dash] v \<or> list_ex is_space v then
        Some (u ''model must not start with '' @ 39 # dash # 39 # u '' or contain whitespace'')
      else None)"

text \<open>\<open>urlparse\<close> raises on an invalid network location, and the exception leaves the function.\<close>

definition validate_base_url :: "(pystr \<Rightarrow> bool) \<Rightarrow> pystr \<Rightarrow> pystr option result" where
  "validate_base_url netloc_ok v =
     (if v = [] then Inr (Some (u ''base_url must be non-empty''))
      else (case urlsplit netloc_ok v of
              None \<Rightarrow> Inl (ValueErr (u ''Invalid URL''))
            | Some (scheme, netloc) \<Rightarrow>
                if scheme \<notin> {u ''http'', u ''https''} then
                  Inr (Some (u ''base_url scheme must be http or https''))
                else if netloc = [] then Inr (Some (u ''base_url must have a host''))
                else Inr None))"

definition validate_api_key :: "pystr \<Rightarrow> pystr option" where
  "validate_api_key v =
     (if v = [] then Some (u ''api_key must be non-empty'')
      else if 1024 < length v then Some (u ''api_key must be '' @ 8804 # u '' 1024 chars'')
      else None)"

definition validate_key :: "(pystr \<Rightarrow> bool) \<Rightarrow> config_key \<Rightarrow> pystr \<Rightarrow> pystr option result" where
  "validate_key netloc_ok k v =
     (case k of KModel \<Rightarrow> Inr (validate_model v) | KBaseUrl \<Rightarrow> validate_base_url netloc_ok v
      | KApiKey \<Rightarrow> Inr (validate_api_key v))"

definition tool_supports_key :: "tool_def \<Rightarrow> config_key \<Rightarrow> bool" where
  "tool_supports_key t k =
     (case k of KModel \<Rightarrow> td_model_flag (td_config t) \<noteq> None
      | KApiKey \<Rightarrow> td_api_key_env (td_config t) \<noteq> None
      | KBaseUrl \<Rightarrow> td_base_url_env (td_config t) \<noteq> None)"

definition UNAUTH_MSG :: pystr where
  "UNAUTH_MSG = u ''You need the configured admin role to use this command.''"

subsection \<open>Set\<close>

record set_result =
  sr_authorized :: bool
  sr_success :: bool
  sr_message :: pystr

definition put_config :: "uuid \<Rightarrow> pystr \<Rightarrow> pystr option \<Rightarrow> pystr option \<Rightarrow> db \<Rightarrow> db" where
  "put_config sid key v ct d =
     d\<lparr>d_configs := ins_or_upd config_id \<lparr>f_session = sid, f_key = key, f_value = v, f_cipher = ct\<rparr>
        (\<lambda>_. True) (\<lambda>r. r\<lparr>f_value := v, f_cipher := ct\<rparr>) (d_configs d)\<rparr>"

definition quoted :: "pystr \<Rightarrow> pystr" where "quoted s = 39 # s @ [39]"

definition set_session_config ::
  "(pystr \<Rightarrow> pystr option) \<Rightarrow> (pystr \<Rightarrow> bool) \<Rightarrow> uuid \<Rightarrow> pystr \<Rightarrow> pystr \<Rightarrow> pystr list \<Rightarrow> pystr list \<Rightarrow>
   db \<Rightarrow> set_result result \<times> db" where
  "set_session_config enc netloc_ok sid key v roles role_names d =
     (case session_of sid d of
        None \<Rightarrow> (Inr \<lparr>sr_authorized = False, sr_success = False, sr_message = u ''unknown session '' @ quoted (uuid_str sid)\<rparr>, d)
      | Some sess \<Rightarrow>
          if \<not> is_guild_admin_authorized d (opt_str (s_guild sess)) roles (Some role_names) then
            (Inr \<lparr>sr_authorized = False, sr_success = False, sr_message = UNAUTH_MSG\<rparr>, d)
          else
            (case key_of key of
               None \<Rightarrow> (Inr \<lparr>sr_authorized = True, sr_success = False, sr_message = u ''Unknown key '' @ quoted key @ u ''. Reserved: ['' @ quoted (u ''api_key'') @ u '', '' @
                      quoted (u ''base_url'') @ u '', '' @ quoted (u ''model'') @ u ''].''\<rparr>, d)
             | Some k \<Rightarrow>
                 (case validate_key netloc_ok k v of
                    Inl e \<Rightarrow> (Inl e, d)
                  | Inr (Some err) \<Rightarrow> (Inr \<lparr>sr_authorized = True, sr_success = False, sr_message = err\<rparr>, d)
                  | Inr None \<Rightarrow>
                      (case tool_of (s_tool sess) d of
                         None \<Rightarrow> (Inr \<lparr>sr_authorized = True, sr_success = False,
                                   sr_message = u ''session's tool '' @ quoted (s_tool sess) @ u '' not in tool_definitions''\<rparr>, d)
                       | Some tool \<Rightarrow>
                           if \<not> tool_supports_key tool k then
                             (Inr \<lparr>sr_authorized = True, sr_success = False,
                                sr_message = u ''Tool '' @ quoted (td_name tool) @ u '' doesn't support per-session '' @ quoted key @ u '' overrides.''\<rparr>, d)
                           else if key_secret k then
                             (case enc v of
                                None \<Rightarrow> (Inr \<lparr>sr_authorized = True, sr_success = False,
                                   sr_message = u ''Server can't encrypt the value; check DEPLOYMENT_SECRET_KEY.''\<rparr>, d)
                              | Some ct \<Rightarrow>
                                  (Inr \<lparr>sr_authorized = True, sr_success = True, sr_message = u ''Set '' @ key @ u '' for session '' @ take 8 (uuid_str sid) @ u ''.''\<rparr>,
                                   put_config sid key None (Some ct) d))
                           else (Inr \<lparr>sr_authorized = True, sr_success = True, sr_message = u ''Set '' @ key @ u '' for session '' @ take 8 (uuid_str sid) @ u ''.''\<rparr>,
                                 put_config sid key (Some v) None d)))))"

subsection \<open>Get and clear\<close>

text \<open>Rows in the order of their keys, with secrets masked.\<close>

fun lex_le :: "pystr \<Rightarrow> pystr \<Rightarrow> bool" where
  "lex_le [] t = True"
| "lex_le (a # s) [] = False"
| "lex_le (a # s) (b # t) = (a < b \<or> (a = b \<and> lex_le s t))"

fun insert_by :: "('a \<Rightarrow> 'a \<Rightarrow> bool) \<Rightarrow> 'a \<Rightarrow> 'a list \<Rightarrow> 'a list" where
  "insert_by le x [] = [x]"
| "insert_by le x (y # ys) = (if le x y then x # y # ys else y # insert_by le x ys)"

definition sort_by :: "('a \<Rightarrow> 'a \<Rightarrow> bool) \<Rightarrow> 'a list \<Rightarrow> 'a list" where
  "sort_by le xs = foldr (insert_by le) xs []"

definition display_value :: "config_row \<Rightarrow> pystr" where
  "display_value r =
     (case key_of (f_key r) of
        Some k \<Rightarrow> if key_secret k then u ''<set>'' else or_str (f_value r) (Some (u ''<unreadable>''))
      | None \<Rightarrow> or_str (f_value r) (Some (u ''<unreadable>'')))"

definition get_session_config :: "uuid \<Rightarrow> db \<Rightarrow> (pystr \<times> pystr) list" where
  "get_session_config sid d =
     map (\<lambda>r. (f_key r, display_value r))
       (sort_by (\<lambda>a b. lex_le (f_key a) (f_key b)) (sel (\<lambda>r. f_session r = sid) (d_configs d)))"

definition clear_session_config_key ::
  "uuid \<Rightarrow> pystr \<Rightarrow> pystr list \<Rightarrow> pystr list \<Rightarrow> db \<Rightarrow> (bool \<times> bool \<times> bool \<times> pystr) \<times> db" where
  "clear_session_config_key sid key roles role_names d =
     (case session_of sid d of
        None \<Rightarrow> ((False, False, False, u ''unknown session '' @ quoted (uuid_str sid)), d)
      | Some sess \<Rightarrow>
          if \<not> is_guild_admin_authorized d (opt_str (s_guild sess)) roles (Some role_names) then
            ((False, False, False, UNAUTH_MSG), d)
          else
            (let p = (\<lambda>r. f_session r = sid \<and> f_key r = key); deleted = sel p (d_configs d) \<noteq> []
             in ((True, True, deleted, if deleted then u ''Cleared '' @ quoted key @ u ''.'' else u ''Nothing to clear.''),
                 d\<lparr>d_configs := del p (d_configs d)\<rparr>)))"

definition clear_all_session_config ::
  "uuid \<Rightarrow> pystr list \<Rightarrow> pystr list \<Rightarrow> db \<Rightarrow> (bool \<times> bool \<times> nat \<times> pystr) \<times> db" where
  "clear_all_session_config sid roles role_names d =
     (case session_of sid d of
        None \<Rightarrow> ((False, False, 0, u ''unknown session '' @ quoted (uuid_str sid)), d)
      | Some sess \<Rightarrow>
          if \<not> is_guild_admin_authorized d (opt_str (s_guild sess)) roles (Some role_names) then
            ((False, False, 0, UNAUTH_MSG), d)
          else
            (let p = (\<lambda>r. f_session r = sid); n = length (sel p (d_configs d))
             in ((True, True, n, u ''Cleared '' @ nat_str n @ u '' override(s).''),
                 d\<lparr>d_configs := del p (d_configs d)\<rparr>)))"

subsection \<open>Loading the overrides of a turn\<close>

text \<open>\<open>_load_overrides\<close> of \<open>runner/saga_input.py\<close>.\<close>

fun overrides_of :: "(pystr \<Rightarrow> pystr option) \<Rightarrow> config_row list \<Rightarrow> (pystr \<times> pystr) list \<Rightarrow>
    (pystr \<times> pystr) list result" where
  "overrides_of dec [] acc = Inr acc"
| "overrides_of dec (r # rs) acc =
     (case f_value r of
        Some v \<Rightarrow> overrides_of dec rs (AList.update (f_key r) v acc)
      | None \<Rightarrow>
          (case f_cipher r of
             None \<Rightarrow> overrides_of dec rs acc
           | Some ct \<Rightarrow>
               (case dec ct of
                  None \<Rightarrow> Inl (BadConfigErr (f_key r @ u '' decryption failed''))
                | Some v \<Rightarrow> overrides_of dec rs (AList.update (f_key r) v acc))))"

definition load_overrides :: "(pystr \<Rightarrow> pystr option) \<Rightarrow> uuid \<Rightarrow> db \<Rightarrow> (pystr \<times> pystr) list result" where
  "load_overrides dec sid d = overrides_of dec (sel (\<lambda>r. f_session r = sid) (d_configs d)) []"

subsection \<open>The table's invariant\<close>

definition config_ok :: "db \<Rightarrow> bool" where
  "config_ok d \<longleftrightarrow> distinct (map config_id (d_configs d)) \<and>
     (\<forall>r \<in> set (d_configs d). (f_value r = None) \<noteq> (f_cipher r = None))"

lemma put_config_ok:
  "config_ok d \<Longrightarrow> (v = None) \<noteq> (ct = None) \<Longrightarrow> config_ok (put_config sid key v ct d)"
proof -
  assume ok: "config_ok d" and x: "(v = None) \<noteq> (ct = None)"
  let ?r = "\<lparr>f_session = sid, f_key = key, f_value = v, f_cipher = ct\<rparr>"
  have "distinct (map config_id (d_configs (put_config sid key v ct d)))"
    using ok by (simp add: put_config_def distinct_ins_or_upd config_id_def config_ok_def)
  moreover have "(f_value r = None) \<noteq> (f_cipher r = None)"
    if "r \<in> set (d_configs (put_config sid key v ct d))" for r
    using set_ins_or_upd [of r config_id ?r] that ok x unfolding put_config_def config_ok_def
    by fastforce
  ultimately show ?thesis
    by (auto simp: config_ok_def)
qed

lemma config_of_put:
  "get config_id (i, k) (d_configs (put_config sid key v ct d)) =
     (if (i, k) = (sid, key) then
        Some \<lparr>f_session = sid, f_key = key, f_value = v, f_cipher = ct\<rparr>
      else get config_id (i, k) (d_configs d))"
proof -
  have "x\<lparr>f_value := v, f_cipher := ct\<rparr> = \<lparr>f_session = sid, f_key = key, f_value = v, f_cipher = ct\<rparr>"
    if "get config_id (sid, key) (d_configs d) = Some x" for x
    using get_SomeD [OF that] by (cases x) (auto simp: config_id_def)
  then show ?thesis
    unfolding put_config_def
    by (auto simp: get_ins_or_upd config_id_def split: option.splits)
qed

lemma set_config_effect:
  assumes "set_session_config enc nk sid key v roles names d = (res, d')"
  shows "d' = d \<or> (\<exists>k. key_of key = Some k \<and>
    (if key_secret k then \<exists>ct. enc v = Some ct \<and> d' = put_config sid key None (Some ct) d
     else d' = put_config sid key (Some v) None d))"
  using assms unfolding set_session_config_def
  by (auto split: option.splits sum.splits if_splits)

lemma overrides_other:
  "overrides_of dec rs acc = Inr m \<Longrightarrow> k \<notin> f_key ` set rs \<Longrightarrow> map_of m k = map_of acc k"
  by (induction rs arbitrary: acc) (auto simp: update_conv' split: option.splits)

subsection \<open>Secrets are sealed, and read back\<close>

definition secrets_sealed :: "db \<Rightarrow> bool" where
  "secrets_sealed d \<longleftrightarrow>
     list_all (\<lambda>r. case key_of (f_key r) of None \<Rightarrow> True | Some k \<Rightarrow> key_secret k \<longrightarrow> f_value r = None) (d_configs d)"

lemma put_sealed:
  "secrets_sealed d \<Longrightarrow> (\<And>k. key_of key = Some k \<Longrightarrow> key_secret k \<Longrightarrow> v = None) \<Longrightarrow>
   secrets_sealed (put_config sid key v ct d)"
  using set_ins_or_upd unfolding secrets_sealed_def put_config_def list_all_iff
  by (fastforce simp: config_id_def ins_or_upd_def upd_def split: option.splits if_splits)

lemma del_config_ok: "config_ok d \<Longrightarrow> config_ok (d\<lparr>d_configs := del p (d_configs d)\<rparr>)"
  by (auto simp: config_ok_def del_def distinct_map_filter)

lemma del_sealed: "secrets_sealed d \<Longrightarrow> secrets_sealed (d\<lparr>d_configs := del p (d_configs d)\<rparr>)"
  by (auto simp: secrets_sealed_def del_def list_all_iff)

lemma config_invariant_parts:
  assumes "config_ok d" "secrets_sealed d"
    "d' \<in> {snd (set_session_config enc nk sid key v roles names d), snd (clear_session_config_key sid key roles names d),
           snd (clear_all_session_config sid roles names d)}"
  shows "config_ok d'" "secrets_sealed d'"
proof -
  have s: "config_ok e \<and> secrets_sealed e" if c: "set_session_config enc nk sid key v roles names d = (res, e)" for res e
  proof -
    consider "e = d" | k where "key_of key = Some k" "\<not> key_secret k" "e = put_config sid key (Some v) None d"
      | ct where "e = put_config sid key None (Some ct) d"
      using set_config_effect [OF c] by (auto split: if_splits)
    then show ?thesis
    proof cases
      case 2
      have "secrets_sealed e"
        unfolding 2(3) by (rule put_sealed [OF assms(2)]) (use 2 in auto)
      then show ?thesis
        using put_config_ok [OF assms(1)] 2 by simp
    next
      case 3
      have "secrets_sealed e"
        unfolding 3 by (rule put_sealed [OF assms(2)]) simp
      then show ?thesis
        using put_config_ok [OF assms(1)] 3 by simp
    qed (use assms in simp)
  qed
  have "config_ok (snd (clear_session_config_key sid key roles names d)) \<and>
      secrets_sealed (snd (clear_session_config_key sid key roles names d))"
    "config_ok (snd (clear_all_session_config sid roles names d)) \<and>
      secrets_sealed (snd (clear_all_session_config sid roles names d))"
    using assms(1,2) del_config_ok del_sealed
    by (simp_all add: clear_session_config_key_def clear_all_session_config_def Let_def split: option.split)
  then show "config_ok d'" "secrets_sealed d'"
    using assms(3) s [of "fst (set_session_config enc nk sid key v roles names d)"
        "snd (set_session_config enc nk sid key v roles names d)"] by auto
qed



lemma set_config_success:
  assumes "set_session_config enc nk sid key v roles names d = (Inr r, d')" "sr_success r"
  shows "d' = put_config sid key (Some v) None d \<or> (\<exists>ct. enc v = Some ct \<and> d' = put_config sid key None (Some ct) d)"
  using assms unfolding set_session_config_def
  by (auto split: option.splits sum.splits if_splits)

text \<open>What a row gives to a turn.\<close>

definition reads :: "(pystr \<Rightarrow> pystr option) \<Rightarrow> config_row \<Rightarrow> pystr option" where
  "reads dec r = (case f_value r of Some v \<Rightarrow> Some v | None \<Rightarrow> (case f_cipher r of None \<Rightarrow> None | Some ct \<Rightarrow> dec ct))"

lemma overrides_of_key:
  "overrides_of dec rs acc = Inr m \<Longrightarrow> distinct (map f_key rs) \<Longrightarrow> r \<in> set rs \<Longrightarrow> reads dec r = Some v \<Longrightarrow>
   map_of m (f_key r) = Some v"
proof (induction rs arbitrary: acc)
  case (Cons r' rs)
  show ?case
  proof (cases "r' = r")
    case True
    obtain acc' where "overrides_of dec rs acc' = Inr m" "map_of acc' (f_key r) = Some v"
      using Cons.prems True by (auto simp: reads_def update_conv' split: option.splits)
    then show ?thesis
      using overrides_other [of dec rs acc' m "f_key r"] Cons.prems(2) True by simp
  next
    case False
    then show ?thesis
      using Cons by (auto split: option.splits)
  qed
qed simp

text \<open>C33. What was set is what a turn reads: after a successful set, loading the overrides of the session gives the
  value under its key, through encryption and decryption for a secret.\<close>

theorem config_round_trip:
  assumes "config_ok d" "set_session_config enc nk sid key v roles names d = (Inr r, d')" "sr_success r"
    "\<And>ct. enc v = Some ct \<Longrightarrow> dec ct = Some v" "load_overrides dec sid d' = Inr m"
  shows "map_of m key = Some v"
proof -
  obtain x ct where d': "d' = put_config sid key x ct d" and x: "(x = None) \<noteq> (ct = None)"
    and rd: "reads dec \<lparr>f_session = sid, f_key = key, f_value = x, f_cipher = ct\<rparr> = Some v"
    using set_config_success [OF assms(2,3)] assms(4) by (auto simp: reads_def)
  let ?r = "\<lparr>f_session = sid, f_key = key, f_value = x, f_cipher = ct\<rparr>"
  let ?rs = "sel (\<lambda>r. f_session r = sid) (d_configs d')"
  have "?r \<in> set (d_configs d')"
    using config_of_put [of sid key sid key x ct d] by (simp add: d') (auto dest: get_SomeD)
  then have r: "?r \<in> set ?rs"
    by (simp add: sel_def)
  have "distinct (map config_id (d_configs d'))"
    using put_config_ok [OF assms(1) x] by (simp add: config_ok_def d')
  then have "distinct (map config_id ?rs)"
    by (simp add: sel_def distinct_map_filter)
  then have "distinct (map f_key ?rs)"
    by (auto simp: distinct_map inj_on_def config_id_def sel_def)
  then show ?thesis
    using overrides_of_key [OF assms(5) [unfolded load_overrides_def] _ r rd] by simp
qed

definition sample_config_db :: db where
  "sample_config_db = empty_db\<lparr>d_sessions := [sample_owned],
     d_policies := [\<lparr>p_guild = u ''g'', p_role = Some (u ''r''), p_role_name = None, p_updated_by = u ''a''\<rparr>],
     d_tools := [\<lparr>td_name = u ''echo'',
      td_config = \<lparr>td_display = u ''Echo'', td_prefix = [u ''echo''], td_resume = [], td_suffix = [u ''{prompt}''],
        td_pty = False, td_source = SrcNone, td_pattern = None, td_extractor = StdoutRaw, td_json_field = None,
        td_extra_paths = [], td_env = [], td_model_flag = None, td_api_key_env = Some (u ''KEY''), td_base_url_env = None\<rparr>,
      td_enabled = True, td_created_by = None\<rparr>]\<rparr>"

lemma sample_set:
  "\<exists>r d'. set_session_config (\<lambda>v. Some (0 # v)) (\<lambda>_. True) 1 (u ''api_key'') (u ''v'') [u ''r''] [] sample_config_db = (Inr r, d') \<and>
     sr_success r \<and> load_overrides (\<lambda>c. Some (tl c)) 1 d' = Inr [(u ''api_key'', u ''v'')]"
proof -
  have s: "session_of 1 sample_config_db = Some sample_owned"
    by (simp add: session_of_def sample_config_db_def) (simp add: sample_owned_def)
  have a: "is_guild_admin_authorized sample_config_db (opt_str (s_guild sample_owned)) [u ''r''] (Some [])"
    by (simp add: is_guild_admin_authorized_def sample_config_db_def sample_owned_def)
  have t: "\<exists>t. tool_of (s_tool sample_owned) sample_config_db = Some t \<and> tool_supports_key t KApiKey"
    by (simp add: tool_of_def sample_config_db_def sample_owned_def tool_supports_key_def)
  have k: "key_of (u ''api_key'') = Some KApiKey" "validate_key (\<lambda>_. True) KApiKey (u ''v'') = Inr None"
    by (simp_all add: key_of_def validate_key_def validate_api_key_def)
  have l: "load_overrides (\<lambda>c. Some (tl c)) 1 (put_config 1 (u ''api_key'') None (Some (0 # u ''v'')) sample_config_db) =
      Inr [(u ''api_key'', u ''v'')]"
    by (simp add: load_overrides_def put_config_def sel_def ins_or_upd_def sample_config_db_def empty_db_def)
  show ?thesis
    using s a t k l by (auto simp: set_session_config_def key_secret_def)
qed

theorem config_round_trip_witness:
  "\<exists>m. map_of m (u ''api_key'') = Some (u ''v'')"
proof -
  obtain r d' where s: "set_session_config (\<lambda>v. Some (0 # v)) (\<lambda>_. True) 1 (u ''api_key'') (u ''v'') [u ''r''] [] sample_config_db =
      (Inr r, d')" "sr_success r" "load_overrides (\<lambda>c. Some (tl c)) 1 d' = Inr [(u ''api_key'', u ''v'')]"
    using sample_set by blast
  have "config_ok sample_config_db"
    by (simp add: config_ok_def sample_config_db_def empty_db_def)
  then have "map_of [(u ''api_key'', u ''v'')] (u ''api_key'') = Some (u ''v'')"
    by (rule config_round_trip [OF _ s(1,2) _ s(3)]) auto
  then show ?thesis
    by blast
qed

end
