(* ===== verification/Exec_Session.thy ===== *)
theory Exec_Session
  imports Prelude
begin

text \<open>
  \<open>tools/exec_session.py\<close>: the bounded collection of a subprocess's output and the result made of it.
  A stream is the list of chunks its reads return (pipe and pseudo-terminal readers do the same
  bookkeeping); how the process ends, and the text decoding, are parameters.
\<close>

definition DEFAULT_MAX_OUTPUT :: nat where "DEFAULT_MAX_OUTPUT = 1024 * 1024"
definition DEFAULT_KILL_OUTPUT :: nat where "DEFAULT_KILL_OUTPUT = 16 * 1024 * 1024"

record exec_limits =
  x_max :: nat
  x_kill :: nat

text \<open>The checks and defaults of \<open>__init__\<close>.\<close>

definition exec_limits_of :: "int \<Rightarrow> nat option \<Rightarrow> exec_limits result" where
  "exec_limits_of max_output kill_output =
     (if max_output \<le> 0 then Inl (ValueErr (u ''max_output_bytes must be positive''))
      else Inr \<lparr>x_max = nat max_output,
        x_kill = max (case kill_output of None \<Rightarrow> DEFAULT_KILL_OUTPUT
                      | Some 0 \<Rightarrow> DEFAULT_KILL_OUTPUT | Some k \<Rightarrow> k) (nat max_output)\<rparr>)"

text \<open>
  \<open>_read_bounded\<close>: \<open>kept\<close> holds the bytes kept so far, \<open>seen\<close> counts all; \<open>killed\<close> is the flag of the
  session. The reader drains what it does not keep.
\<close>

fun read_loop ::
  "exec_limits \<Rightarrow> nat list list \<Rightarrow> nat list \<Rightarrow> nat \<Rightarrow> bool \<Rightarrow> nat list \<times> bool \<times> bool" where
  "read_loop lim [] kept seen killed = (kept, length kept < seen, killed)"
| "read_loop lim (data # chunks) kept seen killed =
     (let seen = seen + length data;
          kept = kept @ take (x_max lim - length kept) data;
          killed = (killed \<or> x_kill lim < seen)
      in read_loop lim chunks kept seen killed)"

definition read_bounded :: "exec_limits \<Rightarrow> nat list list \<Rightarrow> bool \<Rightarrow> nat list \<times> bool \<times> bool" where
  "read_bounded lim chunks killed = read_loop lim chunks [] 0 killed"

datatype exec_outcome =
    ExecOk pystr pystr
  | ExecFailed int pystr pystr   \<comment> \<open>exit code, stderr, stdout\<close>
  | ExecTimeout

definition trunc_notice :: "exec_limits \<Rightarrow> pystr" where
  "trunc_notice lim = u [CHR 0x0A] @ u ''[truncated at '' @ nat_str (x_max lim) @ u '' bytes]''"

definition kill_notice :: "exec_limits \<Rightarrow> pystr" where
  "kill_notice lim = u [CHR 0x0A] @ u ''[killed: output exceeded '' @ nat_str (x_kill lim) @ u '' bytes]''"

definition exec_result ::
  "exec_limits \<Rightarrow> (nat list \<Rightarrow> pystr) \<Rightarrow> nat list \<Rightarrow> nat list \<Rightarrow> bool \<Rightarrow> bool \<Rightarrow> bool \<Rightarrow> int \<Rightarrow> exec_outcome" where
  "exec_result lim decode stdout stderr out_truncated err_truncated killed code =
     (let out = decode stdout @ (if out_truncated then trunc_notice lim else []);
          err = decode stderr @ (if err_truncated then trunc_notice lim else [])
      in if killed then ExecFailed (if code \<noteq> 0 then code else -9) (err @ kill_notice lim) out
         else if code \<noteq> 0 then ExecFailed code err out
         else ExecOk out err)"

text \<open>
  \<open>run\<close>: both readers share the kill flag. \<open>timed_out\<close> tells whether the deadline passed first.
\<close>

definition exec_run ::
  "exec_limits \<Rightarrow> (nat list \<Rightarrow> pystr) \<Rightarrow> nat list list \<Rightarrow> nat list list \<Rightarrow> bool \<Rightarrow> int \<Rightarrow> exec_outcome" where
  "exec_run lim decode out_chunks err_chunks timed_out code =
     (if timed_out then ExecTimeout
      else (let (out, ot, k1) = read_bounded lim out_chunks False;
                (err, et, k2) = read_bounded lim err_chunks k1
            in exec_result lim decode out err ot et k2 code))"

subsection \<open>The reader against its specification\<close>

lemma read_loop_spec:
  "length kept \<le> x_max lim \<Longrightarrow>
   read_loop lim chunks kept seen killed =
     (kept @ take (x_max lim - length kept) (concat chunks),
      length kept + min (x_max lim - length kept) (length (concat chunks)) < seen + length (concat chunks),
      killed \<or> (chunks \<noteq> [] \<and> x_kill lim < seen + length (concat chunks)))"
proof (induction chunks arbitrary: kept seen killed)
  case (Cons data chunks)
  let ?m = "x_max lim - length kept"
  let ?k = "kept @ take ?m data"
  have le: "length ?k \<le> x_max lim"
    using Cons.prems by (auto simp: min_def)
  have m: "x_max lim - length ?k = ?m - length data"
    using Cons.prems by (auto simp: min_def)
  have "read_loop lim (data # chunks) kept seen killed =
      read_loop lim chunks ?k (seen + length data) (killed \<or> x_kill lim < seen + length data)"
    by (simp add: Let_def)
  also have "\<dots> = (?k @ take (?m - length data) (concat chunks),
      length ?k + min (?m - length data) (length (concat chunks)) < seen + length data + length (concat chunks),
      (killed \<or> x_kill lim < seen + length data) \<or>
        (chunks \<noteq> [] \<and> x_kill lim < seen + length data + length (concat chunks)))"
    by (simp only: Cons.IH [OF le] m)
  also have "?k @ take (?m - length data) (concat chunks) = kept @ take ?m (concat (data # chunks))"
    by simp
  also have "length ?k + min (?m - length data) (length (concat chunks)) =
      length kept + min ?m (length (concat (data # chunks)))"
    by (auto simp: min_def)
  also have "(killed \<or> x_kill lim < seen + length data) \<or>
        (chunks \<noteq> [] \<and> x_kill lim < seen + length data + length (concat chunks)) \<longleftrightarrow>
      killed \<or> (data # chunks \<noteq> [] \<and> x_kill lim < seen + length (concat (data # chunks)))"
    by (cases "chunks = []") auto
  finally show ?case
    by (simp add: add.assoc del: read_loop.simps)
qed simp

lemma read_bounded_spec:
  "read_bounded lim chunks killed =
     (take (x_max lim) (concat chunks), x_max lim < length (concat chunks),
      killed \<or> x_kill lim < length (concat chunks))"
  using read_loop_spec [of "[]" lim chunks 0 killed]
  by (cases "chunks = []") (simp_all add: read_bounded_def min_less_iff_disj)

text \<open>The bounded reader computes what it promises, however the output is cut into chunks: it keeps the
  first \<open>x_max\<close> bytes, reports truncation exactly when there were more, and raises the kill flag
  exactly when the output passed the kill limit.\<close>

theorem bounded_reader_correct:
  "read_bounded lim chunks killed =
     (take (x_max lim) (concat chunks), x_max lim < length (concat chunks), killed \<or> x_kill lim < length (concat chunks))"
  by (rule read_bounded_spec)

end
