(* ===== verification/Exec_Build.thy ===== *)
theory Exec_Build
  imports Runner_Create Session_Config Exec_Session
begin

text \<open>
  The first half of \<open>runner/saga_input.py\<close>: the command, environment and limits of one turn
  (\<open>build_exec_session\<close>) with the guards on overrides, and the reply made of the tool's outcome
  (\<open>_deliver\<close>). File-system tests, DNS, Fernet and the subprocess itself are parameters.
\<close>

subsection \<open>Search path and base URL\<close>

definition DEFAULT_EXTRA_PATHS :: "pystr list" where
  "DEFAULT_EXTRA_PATHS = map u [''/opt/homebrew/bin'', ''/opt/homebrew/sbin'', ''~/.local/bin'',
     ''~/.npm-global/bin'', ''~/.cargo/bin'', ''~/.bun/bin'', ''~/.local/share/pnpm'',
     ''~/.nix-profile/bin'', ''~/.asdf/shims'', ''/usr/local/bin'', ''/usr/local/sbin'', ''/snap/bin'',
     ''/var/lib/flatpak/exports/bin'', ''/usr/bin'', ''/bin'']"

text \<open>Order-preserving removal of duplicates.\<close>

fun dedup :: "pystr list \<Rightarrow> pystr list \<Rightarrow> pystr list" where
  "dedup seen [] = []"
| "dedup seen (p # ps) = (if p \<in> set seen then dedup seen ps else p # dedup (p # seen) ps)"

definition normalize_extra_paths :: "(pystr \<Rightarrow> pystr) \<Rightarrow> (pystr \<Rightarrow> bool) \<Rightarrow> pystr list \<Rightarrow> pystr list" where
  "normalize_extra_paths expanduser isdir raw = dedup [] (filter isdir (map expanduser raw))"

lemma set_dedup: "set (dedup seen ps) = set ps - set seen"
  by (induction ps arbitrary: seen) auto

lemma distinct_dedup: "distinct (dedup seen ps)"
  by (induction ps arbitrary: seen) (auto simp: set_dedup)

text \<open>
  \<open>is_base_url_allowed\<close>: \<open>dns\<close> is \<open>getaddrinfo\<close>, \<open>None\<close> when it raises.
\<close>

definition is_base_url_allowed ::
  "(pystr \<Rightarrow> bool) \<Rightarrow> (pystr \<Rightarrow> bool option) \<Rightarrow> (pystr \<Rightarrow> pystr list option) \<Rightarrow> pystr \<Rightarrow> bool" where
  "is_base_url_allowed netloc_ok ip6 dns url =
     (case urlsplit netloc_ok url of
        None \<Rightarrow> False
      | Some (scheme, netloc) \<Rightarrow>
          if scheme \<notin> {u ''http'', u ''https''} then False
          else
            (case netloc_hostname netloc of
               None \<Rightarrow> False
             | Some host \<Rightarrow>
                 (case (if ip_blocked ip6 host \<noteq> None then Some [host] else dns host) of
                    None \<Rightarrow> False
                  | Some candidates \<Rightarrow>
                      candidates \<noteq> [] \<and> list_all (\<lambda>c. ip_blocked ip6 c = Some False) candidates)))"

text \<open>Every address an allowed URL can reach through its host is outside the blocked ranges.\<close>

definition candidates :: "(pystr \<Rightarrow> bool option) \<Rightarrow> (pystr \<Rightarrow> pystr list option) \<Rightarrow> pystr \<Rightarrow> pystr list option" where
  "candidates ip6 dns host = (if ip_blocked ip6 host \<noteq> None then Some [host] else dns host)"

lemma allowed_url_public:
  assumes "is_base_url_allowed nk ip6 dns url"
  shows "\<exists>scheme netloc host cs. urlsplit nk url = Some (scheme, netloc) \<and> scheme \<in> {u ''http'', u ''https''} \<and>
    netloc_hostname netloc = Some host \<and> candidates ip6 dns host = Some cs \<and> cs \<noteq> [] \<and>
    (\<forall>c \<in> set cs. ip_blocked ip6 c = Some False)"
proof (cases "urlsplit nk url")
  case None
  then show ?thesis
    using assms by (simp add: is_base_url_allowed_def)
next
  case (Some p)
  obtain scheme netloc where p: "p = (scheme, netloc)"
    by (cases p)
  note a = assms [unfolded is_base_url_allowed_def Some p option.case prod.case, folded candidates_def]
  have s: "scheme \<in> {u ''http'', u ''https''}"
    using a by (rule contrapos_pp) simp
  then have b: "\<not> scheme \<notin> {u ''http'', u ''https''}"
    by simp
  note a = a [unfolded if_not_P [OF b]]
  then obtain host where h: "netloc_hostname netloc = Some host"
    by (cases "netloc_hostname netloc") simp_all
  note a = a [unfolded h option.case]
  then obtain cs where "candidates ip6 dns host = Some cs"
    by (cases "candidates ip6 dns host") simp_all
  then show ?thesis
    using a s h Some p by (simp add: list_all_iff)
qed

subsection \<open>Building the command of a turn\<close>

record exec_ctx =
  xc_rc :: runner_ctx
  xc_dec :: "pystr \<Rightarrow> pystr option"
  xc_expanduser :: "pystr \<Rightarrow> pystr"
  xc_isdir :: "pystr \<Rightarrow> bool"
  xc_which :: "pystr \<Rightarrow> pystr \<Rightarrow> pystr option"
  xc_netloc_ok :: "pystr \<Rightarrow> bool"
  xc_ip6 :: "pystr \<Rightarrow> bool option"
  xc_dns :: "pystr \<Rightarrow> pystr list option"

record exec_spec =
  xs_argv :: "pystr list"
  xs_cwd :: pystr
  xs_env :: env
  xs_pty :: bool
  xs_max :: int

definition env_get :: "env \<Rightarrow> pystr \<Rightarrow> pystr" where
  "env_get e k = (case map_of e k of None \<Rightarrow> [] | Some v \<Rightarrow> v)"

definition splice_model :: "tool_config \<Rightarrow> (pystr \<times> pystr) list \<Rightarrow> pystr list \<Rightarrow> pystr list" where
  "splice_model c overrides argv =
     (case map_of overrides (u ''model'') of
        None \<Rightarrow> argv
      | Some m \<Rightarrow>
          if prefix [dash] m then argv
          else if opt_str (td_model_flag c) \<noteq> [] then
            (let n = length (td_prefix c) in take n argv @ [opt_str (td_model_flag c), m] @ drop n argv)
          else argv)"

definition base_env :: "exec_ctx \<Rightarrow> tool_config \<Rightarrow> env \<Rightarrow> env" where
  "base_env x c overlay =
     (if overlay \<noteq> [] then overlay else scrub_env (rc_os_env (xc_rc x)) (td_env c))"

definition with_path :: "exec_ctx \<Rightarrow> tool_config \<Rightarrow> env \<Rightarrow> env" where
  "with_path x c e =
     AList.update (u ''PATH'')
       (join_strs (u '':'')
          (normalize_extra_paths (xc_expanduser x) (xc_isdir x) (td_extra_paths c @ DEFAULT_EXTRA_PATHS) @
           [env_get e (u ''PATH'')])) e"

definition with_api_key :: "tool_config \<Rightarrow> (pystr \<times> pystr) list \<Rightarrow> env \<Rightarrow> env" where
  "with_api_key c overrides e =
     (case map_of overrides (u ''api_key'') of
        Some v \<Rightarrow> if opt_str (td_api_key_env c) \<noteq> [] then AList.update (opt_str (td_api_key_env c)) v e else e
      | None \<Rightarrow> e)"

definition with_base_url :: "exec_ctx \<Rightarrow> tool_config \<Rightarrow> (pystr \<times> pystr) list \<Rightarrow> env \<Rightarrow> env" where
  "with_base_url x c overrides e =
     (case map_of overrides (u ''base_url'') of
        Some v \<Rightarrow>
          if opt_str (td_base_url_env c) \<noteq> [] \<and> is_base_url_allowed (xc_netloc_ok x) (xc_ip6 x) (xc_dns x) v
          then AList.update (opt_str (td_base_url_env c)) v e else e
      | None \<Rightarrow> e)"

definition build_exec_session ::
  "settings \<Rightarrow> exec_ctx \<Rightarrow> pystr \<Rightarrow> pystr \<Rightarrow> env \<Rightarrow> pystr option \<Rightarrow> uuid \<Rightarrow> pystr \<Rightarrow> db \<Rightarrow> exec_spec result" where
  "build_exec_session cfg x tool cwd overlay token sid prompt d =
     bind_result_of (ensure_execution_allowed cfg) (\<lambda>_.
     bind_result_of (get_adapter (rc_engine (xc_rc x)) tool d) (\<lambda>row.
     bind_result_of (load_overrides (xc_dec x) sid d) (\<lambda>overrides.
     (let c = td_config row in
     bind_result_of (exec_cmd c prompt token) (\<lambda>argv0.
      let argv = splice_model c overrides argv0;
          e = with_base_url x c overrides (with_api_key c overrides (with_path x c (base_env x c overlay)));
          argv = (case argv of
                    [] \<Rightarrow> []
                  | a # as \<Rightarrow> (case xc_which x a (env_get e (u ''PATH'')) of Some r \<Rightarrow> r # as | None \<Rightarrow> a # as))
      in Inr \<lparr>xs_argv = argv, xs_cwd = cwd, xs_env = e, xs_pty = td_pty c,
              xs_max = max (1024 * 1024) (MAX_OUTPUT_BYTES_PER_SESSION_PER_MIN cfg)\<rparr>)))))"

lemma bind_result_Inr: "bind_result_of r f = Inr y \<longleftrightarrow> (\<exists>x. r = Inr x \<and> f x = Inr y)"
  by (cases r) auto

lemma env_keys_update: "fst ` set (AList.update k v e) = insert k (fst ` set e)"
  using dom_update [of k v e] by simp

lemma build_env_clean:
  assumes "build_exec_session cfg x tool cwd overlay token sid prompt d = Inr sp"
    "fst ` set overlay \<inter> set FORBIDDEN_ENV = {}"
  shows "fst ` set (xs_env sp) \<inter> set FORBIDDEN_ENV = {}"
proof -
  obtain row overrides where row: "get_adapter (rc_engine (xc_rc x)) tool d = Inr row"
    and sp: "xs_env sp = with_base_url x (td_config row) overrides (with_api_key (td_config row) overrides
        (with_path x (td_config row) (base_env x (td_config row) overlay)))"
    using assms(1) unfolding build_exec_session_def bind_result_Inr Let_def by fastforce
  let ?c = "td_config row"
  have valid: "k \<in> set (env_keys ?c) \<Longrightarrow> k \<notin> set FORBIDDEN_ENV" for k
    using get_adapter_ok [OF row] validated_env by blast
  have base: "fst ` set (base_env x ?c overlay) \<inter> set FORBIDDEN_ENV = {}"
    using assms(2) scrub_env_keys [of _ "rc_os_env (xc_rc x)" "td_env ?c"]
    unfolding base_env_def by (cases "overlay = []") (simp_all add: disjoint_iff)
  have path: "u ''PATH'' \<notin> set FORBIDDEN_ENV"
    by (simp add: FORBIDDEN_ENV_def)
  have api: "opt_str (td_api_key_env ?c) \<notin> set FORBIDDEN_ENV" if "opt_str (td_api_key_env ?c) \<noteq> []"
    using that valid by (cases "td_api_key_env ?c") (auto simp: env_keys_def)
  have burl: "opt_str (td_base_url_env ?c) \<notin> set FORBIDDEN_ENV" if "opt_str (td_base_url_env ?c) \<noteq> []"
    using that valid by (cases "td_base_url_env ?c") (auto simp: env_keys_def split: option.splits)
  have "fst ` set (with_path x ?c (base_env x ?c overlay)) \<inter> set FORBIDDEN_ENV = {}"
    using base path by (simp add: with_path_def env_keys_update)
  then have "fst ` set (with_api_key ?c overrides (with_path x ?c (base_env x ?c overlay))) \<inter> set FORBIDDEN_ENV = {}"
    using api by (simp add: with_api_key_def env_keys_update split: option.split)
  then show ?thesis
    using burl by (simp add: sp with_base_url_def env_keys_update split: option.split)
qed

subsection \<open>Running the tool\<close>

definition MAX_REPLY_CHARS :: nat where "MAX_REPLY_CHARS = 900000"

definition warn :: "string \<Rightarrow> pystr" where
  "warn s = [9888, 65039, space] @ u s"

text \<open>
  How the execution ends: \<open>Inl\<close> is any exception other than those of the subprocess, among them the
  revocation the monitor raises.
\<close>

definition reply_of :: "engine \<Rightarrow> tool_config \<Rightarrow> pystr \<Rightarrow> pystr \<Rightarrow> pystr" where
  "reply_of eng c out err =
     (let reply = py_strip (strip_ansi (extract_reply eng c out err));
          reply = (if reply = [] then
                     or_str (Some (py_strip (strip_ansi err))) (Some (warn ''Tool produced no output.''))
                   else reply)
      in if MAX_REPLY_CHARS < length reply then
           take MAX_REPLY_CHARS reply @ nl # u ''[reply truncated at 900000 characters]''
         else reply)"

definition deliver ::
  "settings \<Rightarrow> exec_ctx \<Rightarrow> (exec_spec \<Rightarrow> exc + exec_outcome) \<Rightarrow> pystr \<Rightarrow> pystr \<Rightarrow> pystr option \<Rightarrow>
   uuid \<Rightarrow> pystr \<Rightarrow> db \<Rightarrow> exec_spec option \<times> (pystr \<times> pystr option) result" where
  "deliver cfg x run tool cwd token sid prompt d =
     (let failed = (warn ''Tool execution failed. Inspect the workspace before retrying.'', None) in
      case ensure_execution_allowed cfg of
        Inl e \<Rightarrow> (None, Inl e)
      | Inr _ \<Rightarrow>
     (case build_exec_session cfg x tool cwd [] token sid prompt d of
        Inl AmbiguousPromptErr \<Rightarrow>
          (None, Inr (warn ''This tool would read a message starting with `-` as a command-line flag. Rephrase it so it doesn't start with `-` (e.g. `Please: - fix X`).'', None))
      | Inl (BadConfigErr _) \<Rightarrow>
          (None, Inr (warn ''Session configuration is unreadable. Ask an administrator to reset it.'', None))
      | Inl _ \<Rightarrow> (None, Inr failed)
      | Inr sp \<Rightarrow>
          (Some sp,
           Inr (case run sp of
                  Inl _ \<Rightarrow> failed
                | Inr ExecTimeout \<Rightarrow>
                    (warn ''Tool timed out. It may have changed files; inspect the workspace before retrying.'', None)
                | Inr (ExecFailed code _ _) \<Rightarrow>
                    (warn ''Tool exited with status '' @ int_str code @ u ''. Inspect the workspace before retrying.'', None)
                | Inr (ExecOk out err) \<Rightarrow>
                    (case get_adapter (rc_engine (xc_rc x)) tool d of
                       Inl _ \<Rightarrow> failed
                     | Inr row \<Rightarrow>
                         (reply_of (rc_engine (xc_rc x)) (td_config row) out err,
                          parse_resume_token (rc_engine (xc_rc x)) (td_config row) out err))))))"

lemma reply_of_length: "length (reply_of eng c out err) \<le> 900100"
  by (auto simp: reply_of_def Let_def MAX_REPLY_CHARS_def)

lemma deliver_allowed:
  "ensure_execution_allowed cfg = Inr () \<Longrightarrow> \<exists>sp reply tok. deliver cfg x run tool cwd token sid prompt d = (sp, Inr (reply, tok))"
  unfolding deliver_def Let_def
  by (cases "build_exec_session cfg x tool cwd [] token sid prompt d")
    (auto split: exc.split sum.split exec_outcome.split)

lemma deliver_token_safe:
  assumes "deliver cfg x run tool cwd token sid prompt d = (sp, Inr (reply, Some tok))"
  shows "\<not> prefix [dash] tok \<and> \<not> list_ex is_space tok"
proof -
  obtain c out err where "parse_resume_token (rc_engine (xc_rc x)) c out err = Some tok"
    using assms unfolding deliver_def Let_def
    by (auto split: exc.splits sum.splits exec_outcome.splits)
  then show ?thesis
    by (rule parse_resume_token_safe)
qed

end
