(* ===== verification/Samples.thy ===== *)
theory Samples
  imports Exec_Build
begin

text \<open>
  Concrete values on which the properties are applied: the default settings on a trusted host, a
  guild with one tool and one allowed root, a running session, and a runner whose realpath is the
  identity.
\<close>

definition sample_cfg :: settings where
  "sample_cfg = default_settings (u ''token-value'') (u ''postgresql://db'') (u ''redis://r'') (u ''key'') TrustedHost"

definition sample_tool :: tool_def where
  "sample_tool =
     \<lparr>td_name = u ''echo'',
      td_config = \<lparr>td_display = u ''Echo'', td_prefix = [u ''echo''], td_resume = [],
        td_suffix = [u ''--'', u ''{prompt}''], td_pty = False, td_source = SrcNone, td_pattern = None,
        td_extractor = StdoutRaw, td_json_field = None, td_extra_paths = [], td_env = [],
        td_model_flag = None, td_api_key_env = None, td_base_url_env = None\<rparr>,
      td_enabled = True, td_created_by = None\<rparr>"

definition sample_session :: session where
  "sample_session =
     \<lparr>s_id = 1, s_guild = Some (u ''g''), s_owner = Some (u ''alice''), s_tool = u ''echo'',
      s_name = u ''demo'', s_cwd = u ''/srv/p'', s_realpath = u ''/srv/p'', s_parent = Some (u ''ch''),
      s_thread = Some (u ''th''), s_host = Some (u ''h''), s_secret_hash = u ''x'', s_secret_ct = None,
      s_token = None, s_status = Running, s_version = 1, s_changed_at = 0, s_reason = None,
      s_created_at = 0, s_running_at = Some 0, s_recovery_at = None, s_activity_at = 0,
      s_stopped_at = None, s_archived_at = None, s_thread_archived_at = None,
      s_archive_requested_at = None, s_repairs = 0\<rparr>"

definition sample_db :: db where
  "sample_db = empty_db\<lparr>
     d_sessions := [sample_session], d_tools := [sample_tool],
     d_guilds := [\<lparr>g_id = u ''g'', g_name = u ''g''\<rparr>],
     d_users := [\<lparr>u_id = u ''alice'', u_name = u ''alice''\<rparr>],
     d_hosts := [\<lparr>h_id = u ''h'', h_status = Online, h_heartbeat = Some 0\<rparr>],
     d_roots := [\<lparr>r_guild = Some (u ''g''), r_user = [], r_host = u ''h'', r_path = u ''/srv'',
       r_realpath = u ''/srv'', r_created_by = u ''alice''\<rparr>]\<rparr>"

definition sample_rc :: runner_ctx where
  "sample_rc =
     \<lparr>rc_engine = \<lparr>re_groups = (\<lambda>_. None), re_search = (\<lambda>_ _. None), json_object = (\<lambda>_. None), field_error = (\<lambda>_. [])\<rparr>,
      rc_realpath = (\<lambda>p. p), rc_os_env = [(u ''HOME'', u ''/home/a'')], rc_venv_bin = u ''/venv/bin'',
      rc_host = u ''h''\<rparr>"

definition sample_xc :: exec_ctx where
  "sample_xc =
     \<lparr>xc_rc = sample_rc, xc_dec = (\<lambda>_. None), xc_expanduser = (\<lambda>p. p), xc_isdir = (\<lambda>_. False),
      xc_which = (\<lambda>_ _. None), xc_netloc_ok = (\<lambda>_. True), xc_ip6 = (\<lambda>_. None), xc_dns = (\<lambda>_. None)\<rparr>"

named_theorems sample_defs \<open>the concrete values\<close>

declare sample_cfg_def [sample_defs] default_settings_def [sample_defs] sample_tool_def [sample_defs]
  sample_session_def [sample_defs] sample_db_def [sample_defs] empty_db_def [sample_defs]
  sample_rc_def [sample_defs] sample_xc_def [sample_defs]

lemma sample_execution: "ensure_execution_allowed sample_cfg = Inr ()"
  by (simp add: execution_allowed_iff sample_defs)

lemma sample_session_of: "session_of 1 sample_db = Some sample_session"
  by (simp add: session_of_def sample_defs)

lemma sample_cwd:
  "revalidate_cwd (rc_realpath sample_rc) (u ''/srv/p'') (u ''g'') (u ''alice'') (u ''h'') sample_db = CwdOk (u ''/srv/p'')"
  by code_simp

lemma sample_adapter: "get_adapter (rc_engine sample_rc) (u ''echo'') sample_db = Inr sample_tool"
  by code_simp

end
