(* ===== verification/Turn_Command.thy ===== *)
theory Turn_Command
  imports Samples
begin

text \<open>
  What holds of the command of a turn, whatever the tool definition, the overrides and the output are:
  the environment, the base URL, the validity of the definition, and the result of the run.
\<close>

text \<open>C27. The environment of a tool holds no infrastructure secret: whatever the process environment, the tool
  definition and the overrides of the session are, none of the forbidden variables reaches it.\<close>

theorem tool_environment_is_clean:
  assumes "build_exec_session cfg x tool cwd [] token sid prompt d = Inr sp" "k \<in> set FORBIDDEN_ENV"
  shows "k \<notin> fst ` set (xs_env sp)"
  using build_env_clean [OF assms(1)] assms(2) by auto

theorem tool_environment_is_clean_witness:
  "\<exists>sp. build_exec_session sample_cfg sample_xc (u ''echo'') (u ''/srv/p'') [] None 1 (u ''hi'') sample_db = Inr sp \<and>
     u ''DISCORD_TOKEN'' \<notin> fst ` set (xs_env sp)"
proof -
  have "\<not> isl (build_exec_session sample_cfg sample_xc (u ''echo'') (u ''/srv/p'') [] None 1 (u ''hi'') sample_db)"
    by code_simp
  then obtain sp where "build_exec_session sample_cfg sample_xc (u ''echo'') (u ''/srv/p'') [] None 1 (u ''hi'') sample_db = Inr sp"
    by (auto simp: isl_def) (metis sum.exhaust)
  then show ?thesis
    using tool_environment_is_clean [of sample_cfg sample_xc "u ''echo''" "u ''/srv/p''" None 1 "u ''hi''" sample_db sp
        "u ''DISCORD_TOKEN''"] by (auto simp: FORBIDDEN_ENV_def)
qed

text \<open>A base URL that is passed on is public: it is an HTTP URL with a host, and every address the host
  stands for at the check is an address outside the private, loopback, link-local, reserved,
  multicast and unspecified ranges.\<close>

theorem allowed_base_url_is_public:
  assumes "is_base_url_allowed nk ip6 dns url"
  shows "\<exists>scheme netloc host cs. urlsplit nk url = Some (scheme, netloc) \<and> scheme \<in> {u ''http'', u ''https''} \<and>
    netloc_hostname netloc = Some host \<and> candidates ip6 dns host = Some cs \<and> cs \<noteq> [] \<and>
    (\<forall>c \<in> set cs. ip_blocked ip6 c = Some False)"
  using assms by (rule allowed_url_public)

lemma sample_url: "is_base_url_allowed (\<lambda>_. True) (\<lambda>_. None) (\<lambda>_. None) (u ''http://8.8.8.8/v1'')"
  by (simp add: is_base_url_allowed_def urlsplit_def cut_scheme_def url_clean_def u_def lstrip_by_def before_first_def
      after_first_def after_last_def netloc_hostname_def ip_blocked_def ipv4_of_def octet_def ipv4_blocked_def in_net_def
      quad_def private_nets_def alpha_ascii_def lower_ascii_def scheme_char_def)

theorem allowed_base_url_is_public_witness:
  "\<exists>cs. cs \<noteq> [] \<and> list_all (\<lambda>c. ip_blocked (\<lambda>_. None) c = Some False) cs"
  using allowed_base_url_is_public [OF sample_url] by (auto simp: list_all_iff)

text \<open>Running a tool is total and its results are safe to use again: an exception is raised only when
  execution is not allowed, every failure of the tool becomes a reply, and a resume token that is stored
  neither starts with a dash nor contains white space.\<close>

theorem tool_run_result:
  "case snd (deliver cfg x run tool cwd token sid prompt d) of
     Inl e \<Rightarrow> ensure_execution_allowed cfg = Inl e
   | Inr (reply, tok) \<Rightarrow> ensure_execution_allowed cfg = Inr () \<and>
       (case tok of None \<Rightarrow> True | Some t \<Rightarrow> \<not> prefix [dash] t \<and> \<not> list_ex is_space t)"
proof (cases "ensure_execution_allowed cfg")
  case (Inl e)
  then show ?thesis
    by (simp add: deliver_def)
next
  case (Inr y)
  then obtain sp reply tok where d: "deliver cfg x run tool cwd token sid prompt d = (sp, Inr (reply, tok))"
    using deliver_allowed [of cfg x run tool cwd token sid prompt d] by auto
  then show ?thesis
    using Inr deliver_token_safe by (cases tok) auto
qed

text \<open>An enabled tool of the registry is well formed: its environment keys are legal names outside the
  infrastructure's, and its arguments are nonempty and free of NUL.\<close>

theorem registered_tool_is_valid:
  assumes "get_adapter eng name d = Inr row"
  shows "row \<in> set (d_tools d)" "td_name row = name" "td_enabled row"
    "k \<in> set (env_keys (td_config row)) \<Longrightarrow> ENV_PATTERN k \<and> k \<notin> set FORBIDDEN_ENV"
    "a \<in> set (td_prefix (td_config row) @ td_resume (td_config row) @ td_suffix (td_config row)) \<Longrightarrow>
       a \<noteq> [] \<and> nul \<notin> set a"
  using get_adapter_ok [OF assms] validated_env [of eng "td_config row" "Some name" k]
    validated_args [of eng "td_config row" "Some name" a] by auto

theorem registered_tool_is_valid_witness:
  "td_name sample_tool = u ''echo'' \<and> td_enabled sample_tool"
  using registered_tool_is_valid(2,3) [OF sample_adapter] by simp

end
