(* ===== verification/Runner_Input.thy ===== *)
theory Runner_Input
  imports Runner_Resume Turn_Command
begin

text \<open>
  The second half of \<open>runner/saga_input.py\<close>: what a worker that holds the session's advisory lock
  does with an input job. \<open>plan_turn\<close> is the reading transaction and its decisions; \<open>admit\<close>,
  \<open>complete\<close> and \<open>mark_turn\<close> are the writing ones; \<open>run_locked\<close> composes them with the execution of
  the tool and the delivery of the reply. \<open>gap n\<close> is what others commit in between.
\<close>

record input_job =
  ij_session :: pystr
  ij_guild :: pystr
  ij_thread :: pystr
  ij_host :: pystr
  ij_text :: pystr
  ij_key :: pystr
  ij_version :: "int option"

datatype job_result = Delivered_J | Aborted_J | Deferred_J | Skipped_J

subsection \<open>The decision\<close>

datatype plan =
    PAborted
  | PDeferred
  | PSkipped
  | PUncertain int
  | PDenied int
  | PRefused exc
  | PRun int pystr session
  | PRepost int "pystr option"

definition blocking :: "turn_status \<Rightarrow> bool" where
  "blocking st \<longleftrightarrow> st \<in> {Queued, Executing, Completed, Uncertain}"

definition earliest_turn :: "uuid \<Rightarrow> int \<Rightarrow> db \<Rightarrow> pystr option" where
  "earliest_turn sid v d =
     (case order_by t_seq (sel (\<lambda>t. t_session t = sid \<and> t_version t = v \<and> blocking (t_status t)) (d_turns d)) of
        [] \<Rightarrow> None | t # _ \<Rightarrow> Some (t_key t))"

definition plan_queued :: "settings \<Rightarrow> runner_ctx \<Rightarrow> input_job \<Rightarrow> session \<Rightarrow> db \<Rightarrow> plan" where
  "plan_queued cfg rc j s d =
     (case revalidate_cwd (rc_realpath rc) (s_realpath s) (ij_guild j) (opt_str (s_owner s)) (ij_host j) d of
        CwdOk real \<Rightarrow>
          (case ensure_execution_allowed cfg of
             Inl e \<Rightarrow> PRefused e
           | Inr _ \<Rightarrow> PRun (s_version s) real s)
      | _ \<Rightarrow> PDenied (s_version s))"

definition plan_turn :: "settings \<Rightarrow> runner_ctx \<Rightarrow> input_job \<Rightarrow> uuid \<Rightarrow> db \<Rightarrow> plan" where
  "plan_turn cfg rc j sid d =
     (case session_of sid d of
        None \<Rightarrow> PAborted
      | Some s \<Rightarrow>
          if s_status s \<notin> {Running, Idle} then PAborted
          else if fstr (s_guild s) \<noteq> ij_guild j \<or> fstr (s_host s) \<noteq> ij_host j then PAborted
          else if ij_version j \<noteq> None \<and> ij_version j \<noteq> Some (s_version s) then PAborted
          else if earliest_turn sid (s_version s) d \<notin> {None, Some (ij_key j)} then PDeferred
          else
            (case turn_of (ij_key j) d of
               None \<Rightarrow> plan_queued cfg rc j s d
             | Some t \<Rightarrow>
                 if t_session t \<noteq> sid \<or> t_version t \<noteq> s_version s then PAborted
                 else
                   (case t_status t of
                      Queued \<Rightarrow> plan_queued cfg rc j s d
                    | Executing \<Rightarrow> PUncertain (s_version s)
                    | Uncertain \<Rightarrow> PUncertain (s_version s)
                    | Completed \<Rightarrow> PRepost (s_version s) (t_result t)
                    | Delivered \<Rightarrow> PSkipped
                    | DeliveryFailed \<Rightarrow> PSkipped
                    | Aborted \<Rightarrow> PSkipped)))"

subsection \<open>The writing transactions\<close>

definition set_turn :: "pystr \<Rightarrow> (input_turn \<Rightarrow> input_turn) \<Rightarrow> db \<Rightarrow> db" where
  "set_turn key f d = upd_turns (\<lambda>t. t_key t = key) f d"

definition mark_uncertain :: "int \<Rightarrow> pystr \<Rightarrow> db \<Rightarrow> db" where
  "mark_uncertain now key d = set_turn key (\<lambda>t. t\<lparr>t_status := Uncertain, t_updated_at := now\<rparr>) d"

definition mark_turn :: "int \<Rightarrow> pystr \<Rightarrow> turn_status \<Rightarrow> turn_status option \<Rightarrow> db \<Rightarrow> db" where
  "mark_turn now key st only_if d =
     upd_turns (\<lambda>t. t_key t = key \<and> (case only_if of None \<Rightarrow> True | Some q \<Rightarrow> t_status t = q))
       (\<lambda>t. t\<lparr>t_status := st, t_updated_at := now\<rparr>) d"

text \<open>
  \<open>INSERT ... ON CONFLICT (idempotency_key) DO UPDATE ... WHERE\<close> the stored turn is queued, of the same
  session and version.
\<close>

definition upsert_executing :: "int \<Rightarrow> pystr \<Rightarrow> uuid \<Rightarrow> int \<Rightarrow> db \<Rightarrow> db" where
  "upsert_executing now key sid v d =
     (if turn_of key d = None then
        d\<lparr>d_turns := d_turns d @
            [\<lparr>t_seq = d_next_turn d, t_key = key, t_session = sid, t_version = v, t_status = Executing,
              t_result = None, t_token = None, t_created_at = now, t_updated_at = now\<rparr>],
          d_next_turn := Suc (d_next_turn d)\<rparr>
      else
        upd_turns (\<lambda>t. t_key t = key \<and> t_status t = Queued \<and> t_session t = sid \<and> t_version t = v)
          (\<lambda>t. t\<lparr>t_status := Executing, t_updated_at := now\<rparr>) d)"

definition admit :: "int \<Rightarrow> pystr \<Rightarrow> uuid \<Rightarrow> int \<Rightarrow> db \<Rightarrow> bool \<times> db" where
  "admit now key sid v d =
     (let (ok, d1) = fenced_update sid v [Running, Idle]
            (\<lambda>s. s\<lparr>s_activity_at := now, s_status := Running\<rparr>) d
      in if ok then (True, upsert_executing now key sid v d1) else (False, d))"

definition complete :: "int \<Rightarrow> pystr \<Rightarrow> uuid \<Rightarrow> int \<Rightarrow> pystr \<Rightarrow> pystr option \<Rightarrow> db \<Rightarrow> db" where
  "complete now key sid v reply token d =
     snd (fenced_update sid v [Running, Idle]
       (\<lambda>s. s\<lparr>s_token := (case token of None \<Rightarrow> s_token s | Some t \<Rightarrow> Some t), s_activity_at := now\<rparr>)
       (set_turn key
          (\<lambda>t. t\<lparr>t_status := Completed, t_result := Some reply, t_token := token, t_updated_at := now\<rparr>) d))"

subsection \<open>The job\<close>

datatype post_outcome = PostOk | PostHttp int | PostOther

datatype effect = Ran pystr exec_spec | Posted pystr "pystr option"

definition post_phase ::
  "(pystr \<Rightarrow> pystr option \<Rightarrow> post_outcome) \<Rightarrow> (db \<Rightarrow> db) \<Rightarrow> int \<Rightarrow> pystr \<Rightarrow> pystr option \<Rightarrow> db \<Rightarrow> job_result \<times> db" where
  "post_phase post gap now key reply d =
     (case post key reply of
        PostOk \<Rightarrow> (Delivered_J, mark_turn now key Delivered None (gap d))
      | PostHttp c \<Rightarrow>
          if c \<in> {410, 422} then (Aborted_J, mark_turn now key DeliveryFailed None (gap d))
          else (Deferred_J, gap d)
      | PostOther \<Rightarrow> (Deferred_J, gap d))"

definition uncertain_notice :: pystr where
  "uncertain_notice = warn ''The previous execution was interrupted; its effects are uncertain. Inspect the workspace, then restart this session to continue.''"

definition denied_notice :: pystr where
  "denied_notice = warn ''This session's workspace is no longer an allowed root; input was not run. Ask an admin to re-allow it, then restart.''"

definition live_entry :: "uuid \<Rightarrow> pystr \<Rightarrow> session \<Rightarrow> store_entry" where
  "live_entry sid real s =
     build_session_store_entry (s_tool s) real [] (s_token s) (s_guild s) (s_thread s)
       (opt_str (s_host s)) (status_str (s_status s))"

definition run_locked ::
  "settings \<Rightarrow> exec_ctx \<Rightarrow> (exec_spec \<Rightarrow> exc + exec_outcome) \<Rightarrow> (pystr \<Rightarrow> pystr option \<Rightarrow> post_outcome) \<Rightarrow>
   (nat \<Rightarrow> db \<Rightarrow> db) \<Rightarrow> int \<Rightarrow> input_job \<Rightarrow> uuid \<Rightarrow> store \<times> db \<Rightarrow> job_result result \<times> effect list \<times> store \<times> db" where
  "run_locked cfg x run post gap now j sid st =
     (let (store, d) = st; key = ij_key j in
      case plan_turn cfg (xc_rc x) j sid d of
        PAborted \<Rightarrow> (Inr Aborted_J, [], store, d)
      | PDeferred \<Rightarrow> (Inr Deferred_J, [], store, d)
      | PSkipped \<Rightarrow> (Inr Skipped_J, [], store, d)
      | PRefused e \<Rightarrow> (Inl e, [], store, d)
      | PUncertain v \<Rightarrow>
          (let note_key = key @ u '':uncertain''; d = gap 1 (mark_uncertain now key (gap 0 d)) in
           (Inr (case post note_key (Some uncertain_notice) of
                   PostOk \<Rightarrow> Aborted_J
                 | PostHttp c \<Rightarrow> if c = 410 then Aborted_J else Deferred_J
                 | PostOther \<Rightarrow> Deferred_J),
            [Posted note_key (Some uncertain_notice)], store, d))
      | PDenied v \<Rightarrow>
          (Inr Aborted_J, [Posted (key @ u '':cwd_denied'') (Some denied_notice)], store,
           gap 1 (mark_turn now key Aborted (Some Queued) (gap 0 d)))
      | PRepost v reply \<Rightarrow>
          (let (r, d) = post_phase post (gap 0) now key reply d in (Inr r, [Posted key reply], store, d))
      | PRun v real s \<Rightarrow>
          (let store = AList.update (uuid_str sid) (live_entry sid real s) store;
               (ok, d) = admit now key sid v (gap 0 d)
           in if \<not> ok then (Inr Aborted_J, [], store, d)
              else
                (let d = gap 1 d; (sp, out) = deliver cfg x run (s_tool s) real (s_token s) sid (ij_text j) d;
                     ran = (case sp of None \<Rightarrow> [] | Some e \<Rightarrow> [Ran key e])
                 in case out of
                      Inl e \<Rightarrow> (Inl e, ran, store, d)
                    | Inr (reply, token) \<Rightarrow>
                        (let (r, d) = post_phase post (gap 3) now key (Some reply)
                                        (complete now key sid v reply token (gap 2 d))
                         in (Inr r, ran @ [Posted key (Some reply)], store, d)))))"

text \<open>\<open>run_input_job\<close>: the advisory lock is tried first; \<open>locked\<close> tells whether it was free.\<close>

definition run_input_job ::
  "settings \<Rightarrow> exec_ctx \<Rightarrow> (exec_spec \<Rightarrow> exc + exec_outcome) \<Rightarrow> (pystr \<Rightarrow> pystr option \<Rightarrow> post_outcome) \<Rightarrow>
   (nat \<Rightarrow> db \<Rightarrow> db) \<Rightarrow> int \<Rightarrow> bool \<Rightarrow> input_job \<Rightarrow> store \<times> db \<Rightarrow> job_result result \<times> effect list \<times> store \<times> db" where
  "run_input_job cfg x run post gap now locked j st =
     (if \<not> locked then (Inr Deferred_J, [], st)
      else (case uuid_of_str (ij_session j) of
              None \<Rightarrow> (Inl (ExternalErr (u ''invalid input for query argument'')), [], st)
            | Some sid \<Rightarrow> run_locked cfg x run post gap now j sid st))"

subsection \<open>Facts about the decision\<close>

lemma plan_queued_run:
  "plan_queued cfg rc j s d = PRun v real s' \<Longrightarrow>
     s' = s \<and> v = s_version s \<and> ensure_execution_allowed cfg = Inr () \<and>
     revalidate_cwd (rc_realpath rc) (s_realpath s) (ij_guild j) (opt_str (s_owner s)) (ij_host j) d = CwdOk real"
  unfolding plan_queued_def
  by (cases "revalidate_cwd (rc_realpath rc) (s_realpath s) (ij_guild j) (opt_str (s_owner s)) (ij_host j) d";
      cases "ensure_execution_allowed cfg") auto

text \<open>A turn is run only when it is absent or queued, and the first of its session and version.\<close>

definition runnable :: "pystr \<Rightarrow> uuid \<Rightarrow> int \<Rightarrow> db \<Rightarrow> bool" where
  "runnable key sid v d \<longleftrightarrow>
     (case turn_of key d of
        None \<Rightarrow> True
      | Some t \<Rightarrow> t_status t = Queued \<and> t_session t = sid \<and> t_version t = v) \<and>
     earliest_turn sid v d \<in> {None, Some key}"

lemma plan_run_cases:
  assumes "plan_turn cfg rc j sid d = PRun v real s"
  shows "session_of sid d = Some s \<and> v = s_version s \<and> s_status s \<in> {Running, Idle} \<and>
    runnable (ij_key j) sid v d \<and> ensure_execution_allowed cfg = Inr () \<and>
    revalidate_cwd (rc_realpath rc) (s_realpath s) (ij_guild j) (opt_str (s_owner s)) (ij_host j) d = CwdOk real"
proof (cases "session_of sid d")
  case None
  then show ?thesis
    using assms by (simp add: plan_turn_def)
next
  case (Some r)
  note p = assms [unfolded plan_turn_def Some option.case]
  have g: "s_status r \<in> {Running, Idle}" "earliest_turn sid (s_version r) d \<in> {None, Some (ij_key j)}"
    using p by (metis plan.distinct)+
  have rest: "(case turn_of (ij_key j) d of
               None \<Rightarrow> plan_queued cfg rc j r d
             | Some t \<Rightarrow>
                 if t_session t \<noteq> sid \<or> t_version t \<noteq> s_version r then PAborted
                 else
                   (case t_status t of
                      Queued \<Rightarrow> plan_queued cfg rc j r d
                    | Executing \<Rightarrow> PUncertain (s_version r)
                    | Uncertain \<Rightarrow> PUncertain (s_version r)
                    | Completed \<Rightarrow> PRepost (s_version r) (t_result t)
                    | Delivered \<Rightarrow> PSkipped
                    | DeliveryFailed \<Rightarrow> PSkipped
                    | Aborted \<Rightarrow> PSkipped)) = PRun v real s"
    using p by (metis plan.distinct)
  have q: "plan_queued cfg rc j r d = PRun v real s \<and>
      (turn_of (ij_key j) d = None \<or> (\<exists>t. turn_of (ij_key j) d = Some t \<and> t_status t = Queued \<and>
         t_session t = sid \<and> t_version t = s_version r))"
  proof (cases "turn_of (ij_key j) d")
    case None
    then show ?thesis
      using rest by simp
  next
    case (Some t)
    then show ?thesis
      using rest by (cases "t_status t") (simp_all split: if_splits)
  qed
  show ?thesis
    using plan_queued_run [OF conjunct1 [OF q]] q g Some by (auto simp: runnable_def)
qed

lemma earliest_turn_le:
  assumes "earliest_turn sid v d = Some k" "distinct (map t_key (d_turns d))"
    "t' \<in> set (d_turns d)" "t_session t' = sid" "t_version t' = v" "blocking (t_status t')"
  shows "\<exists>t. turn_of k d = Some t \<and> t_session t = sid \<and> blocking (t_status t) \<and> t_seq t \<le> t_seq t'"
proof -
  obtain t where t: "t \<in> set (sel (\<lambda>t. t_session t = sid \<and> t_version t = v \<and> blocking (t_status t)) (d_turns d))"
    "k = t_key t" "\<forall>t' \<in> set (sel (\<lambda>t. t_session t = sid \<and> t_version t = v \<and> blocking (t_status t)) (d_turns d)).
       t_seq t \<le> t_seq t'"
    using first_by_Some [OF assms(1) [unfolded earliest_turn_def]] by blast
  have "turn_of k d = Some t"
    using get_distinct [OF assms(2)] t by (simp add: turn_of_def sel_def)
  then show ?thesis
    using t assms by (auto simp: sel_def)
qed

lemma earliest_turn_None:
  assumes "earliest_turn sid v d = None" "t \<in> set (d_turns d)" "t_session t = sid" "t_version t = v"
  shows "\<not> blocking (t_status t)"
  using first_by_None [OF assms(1) [unfolded earliest_turn_def]] assms(2-4)
  by (auto simp: sel_def filter_empty_conv)

subsection \<open>A job and its plan\<close>

definition sample_job :: input_job where
  "sample_job = \<lparr>ij_session = uuid_str 1, ij_guild = u ''g'', ij_thread = u ''th'', ij_host = u ''h'',
     ij_text = u ''hi'', ij_key = u ''k1'', ij_version = Some 1\<rparr>"

lemma sample_plan: "plan_turn sample_cfg sample_rc sample_job 1 sample_db = PRun 1 (u ''/srv/p'') sample_session"
  by code_simp

text \<open>C3. A turn is executed only for a live session at the version that was read, with execution allowed,
  in a workspace whose real path is not denied and lies under an allowed root of its guild, host and
  owner.\<close>

theorem turn_run_is_allowed:
  assumes "plan_turn cfg rc j sid d = PRun v real s"
  shows "session_of sid d = Some s \<and> v = s_version s \<and> s_status s \<in> {Running, Idle} \<and>
    ensure_execution_allowed cfg = Inr () \<and> real = rc_realpath rc (s_realpath s) \<and> deny_reason real = None \<and>
    (\<exists>r \<in> set (d_roots d). r_guild r = Some (ij_guild j) \<and> r_host r = ij_host j \<and>
       r_user r \<in> {[], opt_str (s_owner s)} \<and> is_within_root real (r_realpath r))"
  using plan_run_cases [OF assms] revalidate_ok by blast

theorem turn_run_is_allowed_witness:
  "deny_reason (u ''/srv/p'') = None \<and>
   (\<exists>r \<in> set (d_roots sample_db). is_within_root (u ''/srv/p'') (r_realpath r))"
  using turn_run_is_allowed [OF sample_plan] by auto

text \<open>C2. Turns of a session are executed in the order of their sequence numbers: when a job may run, no
  open turn of that session and version is older than its own.\<close>

theorem turns_run_in_order:
  assumes "plan_turn cfg rc j sid d = PRun v real s" "distinct (map t_key (d_turns d))"
    "t \<in> set (d_turns d)" "t_session t = sid" "t_version t = v" "blocking (t_status t)"
  shows "\<exists>q. turn_of (ij_key j) d = Some q \<and> t_status q = Queued \<and> t_seq q \<le> t_seq t"
proof -
  have r: "runnable (ij_key j) sid v d"
    using plan_run_cases [OF assms(1)] by blast
  then have "earliest_turn sid v d = Some (ij_key j)"
    using earliest_turn_None [of sid v d t] assms(3-6) by (auto simp: runnable_def)
  then obtain q where "turn_of (ij_key j) d = Some q" "t_seq q \<le> t_seq t"
    using earliest_turn_le [of sid v d "ij_key j" t] assms(2-6) by blast
  then show ?thesis
    using r by (auto simp: runnable_def)
qed

definition sample_turn :: input_turn where
  "sample_turn = \<lparr>t_seq = 1, t_key = u ''k1'', t_session = 1, t_version = 1, t_status = Queued, t_result = None,
     t_token = None, t_created_at = 0, t_updated_at = 0\<rparr>"

lemma sample_turn_plan:
  "plan_turn sample_cfg sample_rc sample_job 1 (sample_db\<lparr>d_turns := [sample_turn, sample_turn\<lparr>t_seq := 2, t_key := u ''k2''\<rparr>]\<rparr>) =
     PRun 1 (u ''/srv/p'') sample_session"
  by code_simp

theorem turns_run_in_order_witness:
  "\<exists>q. turn_of (u ''k1'') (sample_db\<lparr>d_turns := [sample_turn, sample_turn\<lparr>t_seq := 2, t_key := u ''k2''\<rparr>]\<rparr>) = Some q \<and>
     t_seq q \<le> 2"
  using turns_run_in_order [OF sample_turn_plan, of "sample_turn\<lparr>t_seq := 2, t_key := u ''k2''\<rparr>"]
  by (auto simp: sample_turn_def sample_job_def blocking_def)

end
