(* ===== verification/Turn_System.thy ===== *)
theory Turn_System
  imports Runner_Input
begin

text \<open>
  The runner's input processing as a transition system: any number of workers handle redelivered
  jobs, each holding the advisory lock of its session from the decision to the end, and may crash
  between any two transactions; the other processes change the database in between. A ghost
  counter records how often the tool was run for a key of a session.
\<close>

subsection \<open>What other processes may do to the ledger\<close>

text \<open>
  They keep every turn with its session, version and status; what they add is a new turn. The
  locale states this of one operation, which is interpreted for the operations of the other
  components in their theories.
\<close>

definition ledger_safe :: "db \<Rightarrow> db \<Rightarrow> bool" where
  "ledger_safe d d' \<longleftrightarrow>
     (\<forall>k t. turn_of k d = Some t \<longrightarrow>
        (\<exists>t'. turn_of k d' = Some t' \<and> t_session t' = t_session t \<and> t_version t' = t_version t \<and>
           t_status t' = t_status t))"

lemma ledger_safe_refl [simp]: "ledger_safe d d"
  by (simp add: ledger_safe_def)

lemma ledger_safe_trans: "ledger_safe d d' \<Longrightarrow> ledger_safe d' d'' \<Longrightarrow> ledger_safe d d''"
  unfolding ledger_safe_def by metis

lemma ledger_safe_frame: "d_turns d' = d_turns d \<Longrightarrow> ledger_safe d d'"
  by (simp add: ledger_safe_def turn_of_def)

locale ledger_op =
  fixes oper :: "'a \<Rightarrow> db \<Rightarrow> db"
  assumes keeps_ledger: "ledger_safe d (oper x d)"
begin

lemma keeps_done: "turn_of k d = Some t \<Longrightarrow> t_status t \<noteq> Queued \<Longrightarrow>
    \<exists>t'. turn_of k (oper x d) = Some t' \<and> t_status t' \<noteq> Queued"
  using keeps_ledger [of d x] unfolding ledger_safe_def by metis

lemma keeps_many: "ledger_safe d (foldr oper xs d)"
  by (induction xs) (auto intro: ledger_safe_trans keeps_ledger)

end

subsection \<open>States and steps\<close>

datatype phase =
    Idle_W
  | Decided input_job uuid plan          \<comment> \<open>after the reading transaction\<close>
  | Admitted input_job uuid int pystr session
  | Ran_W input_job uuid int pystr "pystr option"
  | Posting input_job uuid "pystr option"

record sys =
  y_db :: db
  y_lock :: "uuid \<Rightarrow> nat option"
  y_work :: "nat \<Rightarrow> phase"
  y_runs :: "uuid \<times> pystr \<Rightarrow> nat"
  y_used :: "pystr set"

definition release :: "nat \<Rightarrow> uuid \<Rightarrow> sys \<Rightarrow> sys" where
  "release w sid y = y\<lparr>y_lock := (y_lock y)(sid := None), y_work := (y_work y)(w := Idle_W)\<rparr>"

definition phase_session :: "phase \<Rightarrow> uuid option" where
  "phase_session p =
     (case p of Idle_W \<Rightarrow> None | Decided j sid pl \<Rightarrow> Some sid | Admitted j sid v r s \<Rightarrow> Some sid
      | Ran_W j sid v r t \<Rightarrow> Some sid | Posting j sid r \<Rightarrow> Some sid)"

inductive step :: "settings \<Rightarrow> exec_ctx \<Rightarrow> sys \<Rightarrow> sys \<Rightarrow> bool" for cfg x where
  start: "\<lbrakk>y_work y w = Idle_W; uuid_of_str (ij_session j) = Some sid; y_lock y sid = None\<rbrakk> \<Longrightarrow>
    step cfg x y (y\<lparr>y_lock := (y_lock y)(sid := Some w),
      y_work := (y_work y)(w := Decided j sid (plan_turn cfg (xc_rc x) j sid (y_db y))),
      y_used := insert (ij_key j) (y_used y)\<rparr>)"
| settle: "\<lbrakk>y_work y w = Decided j sid pl; pl \<in> {PAborted, PDeferred, PSkipped} \<or> (\<exists>e. pl = PRefused e)\<rbrakk> \<Longrightarrow>
    step cfg x y (release w sid y)"
| uncertain: "y_work y w = Decided j sid (PUncertain v) \<Longrightarrow>
    step cfg x y (release w sid (y\<lparr>y_db := mark_uncertain now (ij_key j) (y_db y)\<rparr>))"
| denied: "y_work y w = Decided j sid (PDenied v) \<Longrightarrow>
    step cfg x y (release w sid (y\<lparr>y_db := mark_turn now (ij_key j) Aborted (Some Queued) (y_db y)\<rparr>))"
| repost: "y_work y w = Decided j sid (PRepost v r) \<Longrightarrow>
    step cfg x y (y\<lparr>y_work := (y_work y)(w := Posting j sid r)\<rparr>)"
| admitted: "\<lbrakk>y_work y w = Decided j sid (PRun v real s); admit now (ij_key j) sid v (y_db y) = (True, d')\<rbrakk> \<Longrightarrow>
    step cfg x y (y\<lparr>y_db := d', y_work := (y_work y)(w := Admitted j sid v real s)\<rparr>)"
| rejected: "\<lbrakk>y_work y w = Decided j sid (PRun v real s); admit now (ij_key j) sid v (y_db y) = (False, d')\<rbrakk> \<Longrightarrow>
    step cfg x y (release w sid y)"
| execute: "\<lbrakk>y_work y w = Admitted j sid v real s;
      deliver cfg x run (s_tool s) real (s_token s) sid (ij_text j) (y_db y) = (sp, Inr (reply, token))\<rbrakk> \<Longrightarrow>
    step cfg x y (y\<lparr>y_work := (y_work y)(w := Ran_W j sid v reply token),
      y_runs := (y_runs y)((sid, ij_key j) := y_runs y (sid, ij_key j) + (if sp = None then 0 else 1))\<rparr>)"
| completed: "y_work y w = Ran_W j sid v reply token \<Longrightarrow>
    step cfg x y (y\<lparr>y_db := complete now (ij_key j) sid v reply token (y_db y),
      y_work := (y_work y)(w := Posting j sid (Some reply))\<rparr>)"
| posted: "\<lbrakk>y_work y w = Posting j sid r; st \<in> {Delivered, DeliveryFailed}\<rbrakk> \<Longrightarrow>
    step cfg x y (release w sid (y\<lparr>y_db := mark_turn now (ij_key j) st None (y_db y)\<rparr>))"
| deferred: "y_work y w = Posting j sid r \<Longrightarrow> step cfg x y (release w sid y)"
| crash: "phase_session (y_work y w) = Some sid \<Longrightarrow> step cfg x y (release w sid y)"
| others: "\<lbrakk>ledger_safe (y_db y) d'; \<forall>k. turn_of k (y_db y) = None \<and> turn_of k d' \<noteq> None \<longrightarrow> k \<notin> y_used y\<rbrakk> \<Longrightarrow>
    step cfg x y (y\<lparr>y_db := d'\<rparr>)"

inductive reachable :: "settings \<Rightarrow> exec_ctx \<Rightarrow> sys \<Rightarrow> sys \<Rightarrow> bool" for cfg x where
  reach_init: "reachable cfg x y y"
| reach_step: "reachable cfg x y0 y \<Longrightarrow> step cfg x y y' \<Longrightarrow> reachable cfg x y0 y'"

definition init_sys :: "db \<Rightarrow> sys" where
  "init_sys d = \<lparr>y_db = d, y_lock = (\<lambda>_. None), y_work = (\<lambda>_. Idle_W), y_runs = (\<lambda>_. 0), y_used = {}\<rparr>"

subsection \<open>How the ledger moves\<close>

definition done_turn :: "pystr \<Rightarrow> db \<Rightarrow> bool" where
  "done_turn k d \<longleftrightarrow> (\<exists>t. turn_of k d = Some t \<and> t_status t \<noteq> Queued)"

text \<open>The turn of a key that is about to run: absent, already taken, or queued where the job says.\<close>

definition ready_turn :: "pystr \<Rightarrow> uuid \<Rightarrow> int \<Rightarrow> db \<Rightarrow> bool" where
  "ready_turn k sid v d \<longleftrightarrow>
     (\<forall>t. turn_of k d = Some t \<longrightarrow> t_status t \<noteq> Queued \<or> (t_session t = sid \<and> t_version t = v))"

lemma turn_of_set [simp]:
  "(\<And>t. t_key (f t) = t_key t) \<Longrightarrow>
   turn_of k (set_turn key f d) = (if k = key then map_option f (turn_of k d) else turn_of k d)"
  by (cases "turn_of k d") (auto simp: set_turn_def turn_of_upd dest: turn_of_key)

lemma turn_of_mark:
  "turn_of k (mark_turn now key st only d) =
     (case turn_of k d of
        None \<Rightarrow> None
      | Some t \<Rightarrow> if k = key \<and> (case only of None \<Rightarrow> True | Some q \<Rightarrow> t_status t = q)
                  then Some (t\<lparr>t_status := st, t_updated_at := now\<rparr>) else Some t)"
proof -
  have 1: "turn_of k (mark_turn now key st only d) =
      map_option (\<lambda>t. if t_key t = key \<and> (case only of None \<Rightarrow> True | Some q \<Rightarrow> t_status t = q)
        then t\<lparr>t_status := st, t_updated_at := now\<rparr> else t) (turn_of k d)"
    unfolding mark_turn_def by (rule turn_of_upd) simp
  then show ?thesis
  proof (cases "turn_of k d")
    case (Some t)
    then show ?thesis
      using 1 turn_of_key [OF Some] by simp
  qed simp
qed

lemma fenced_turns [simp]: "turn_of k (snd (fenced_update sid v ss f d)) = turn_of k d"
  by (simp add: fenced_update_def)

lemma turn_of_complete:
  "turn_of k (complete now key sid v reply token d) =
     (if k = key then map_option
        (\<lambda>t. t\<lparr>t_status := Completed, t_result := Some reply, t_token := token, t_updated_at := now\<rparr>) (turn_of k d)
      else turn_of k d)"
  by (simp add: complete_def)

lemma turn_of_upsert:
  "turn_of k (upsert_executing now key sid v d) =
     (if k \<noteq> key then turn_of k d
      else (case turn_of k d of
              None \<Rightarrow> Some \<lparr>t_seq = d_next_turn d, t_key = key, t_session = sid, t_version = v,
                 t_status = Executing, t_result = None, t_token = None, t_created_at = now, t_updated_at = now\<rparr>
            | Some t \<Rightarrow> if t_status t = Queued \<and> t_session t = sid \<and> t_version t = v
                        then Some (t\<lparr>t_status := Executing, t_updated_at := now\<rparr>) else Some t))"
proof (cases "turn_of key d")
  case None
  then show ?thesis
    by (auto simp: upsert_executing_def turn_of_def get_append split: option.splits)
next
  case (Some t)
  have 1: "turn_of k (upsert_executing now key sid v d) =
      map_option (\<lambda>t. if t_key t = key \<and> t_status t = Queued \<and> t_session t = sid \<and> t_version t = v
        then t\<lparr>t_status := Executing, t_updated_at := now\<rparr> else t) (turn_of k d)"
    unfolding upsert_executing_def using Some by (simp, intro turn_of_upd) simp
  then show ?thesis
  proof (cases "turn_of k d")
    case (Some t')
    then show ?thesis
      using 1 turn_of_key [OF Some] by (cases "k = key") simp_all
  qed (use \<open>turn_of key d = Some t\<close> in auto)
qed

text \<open>A step of the ledger: no turn is lost, moved to another session, or queued again.\<close>

definition ledger_step :: "db \<Rightarrow> db \<Rightarrow> bool" where
  "ledger_step d d' \<longleftrightarrow>
     (\<forall>k t. turn_of k d = Some t \<longrightarrow>
        (\<exists>t'. turn_of k d' = Some t' \<and> t_session t' = t_session t \<and> t_version t' = t_version t \<and>
           (t_status t' = Queued \<longrightarrow> t_status t = Queued)))"

lemma ledger_safe_step: "ledger_safe d d' \<Longrightarrow> ledger_step d d'"
  unfolding ledger_safe_def ledger_step_def by metis

lemma mark_turn_step: "st \<noteq> Queued \<Longrightarrow> ledger_step d (mark_turn now key st only d)"
  by (auto simp: ledger_step_def turn_of_mark split: option.splits)

lemma mark_uncertain_step: "ledger_step d (mark_uncertain now key d)"
  by (auto simp: ledger_step_def mark_uncertain_def)

lemma complete_step: "ledger_step d (complete now key sid v reply token d)"
  by (auto simp: ledger_step_def turn_of_complete)

lemma next_turn_set: "d_next_turn (set_session sid f d) = d_next_turn d"
  by (simp add: set_session_def upd_sessions_def)

lemma admit_turns:
  "admit now key sid v d = (True, d') \<Longrightarrow> turn_of k d' = turn_of k (upsert_executing now key sid v d)"
  by (auto simp: admit_def fenced_update_def turn_of_upsert next_turn_set split: if_splits option.splits)

lemma admit_step: "admit now key sid v d = (True, d') \<Longrightarrow> ledger_step d d'"
  by (auto simp: ledger_step_def admit_turns turn_of_upsert)

lemma admit_done:
  "admit now key sid v d = (True, d') \<Longrightarrow> ready_turn key sid v d \<Longrightarrow> done_turn key d'"
  by (auto simp: done_turn_def admit_turns turn_of_upsert ready_turn_def split: option.split)

text \<open>What a step leaves of the two facts about a turn; only a worker adds a turn for a used key.\<close>

lemma done_turn_step: "ledger_step d d' \<Longrightarrow> done_turn k d \<Longrightarrow> done_turn k d'"
  unfolding ledger_step_def done_turn_def by metis

lemma ready_turn_step:
  assumes "ledger_step d d'" "ready_turn k sid v d"
    "turn_of k d = None \<Longrightarrow> turn_of k d' = None \<or> done_turn k d'"
  shows "ready_turn k sid v d'"
proof (cases "turn_of k d")
  case None
  then show ?thesis
    using assms(3) by (auto simp: ready_turn_def done_turn_def)
next
  case (Some t)
  then obtain t' where t': "turn_of k d' = Some t'" "t_session t' = t_session t" "t_version t' = t_version t"
    "t_status t' = Queued \<longrightarrow> t_status t = Queued"
    using assms(1) unfolding ledger_step_def by blast
  then show ?thesis
    using assms(2) Some by (auto simp: ready_turn_def)
qed

subsection \<open>The invariant\<close>

definition phase_ok :: "sys \<Rightarrow> nat \<Rightarrow> phase \<Rightarrow> bool" where
  "phase_ok y w p \<longleftrightarrow>
     (\<forall>sid. phase_session p = Some sid \<longrightarrow> y_lock y sid = Some w) \<and>
     (case p of
        Decided j sid (PRun v real s) \<Rightarrow>
          ready_turn (ij_key j) sid v (y_db y) \<and> y_runs y (sid, ij_key j) = 0 \<and> ij_key j \<in> y_used y
      | Admitted j sid v real s \<Rightarrow> done_turn (ij_key j) (y_db y) \<and> y_runs y (sid, ij_key j) = 0
      | _ \<Rightarrow> True)"

definition sys_ok :: "sys \<Rightarrow> bool" where
  "sys_ok y \<longleftrightarrow> (\<forall>w. phase_ok y w (y_work y w)) \<and>
     (\<forall>sid k. y_runs y (sid, k) \<le> 1 \<and> (y_runs y (sid, k) \<noteq> 0 \<longrightarrow> done_turn k (y_db y)))"

text \<open>How the database may change under a worker that waits.\<close>

definition db_step :: "pystr set \<Rightarrow> db \<Rightarrow> db \<Rightarrow> bool" where
  "db_step used d d' \<longleftrightarrow> ledger_step d d' \<and>
     (\<forall>k \<in> used. turn_of k d = None \<longrightarrow> turn_of k d' = None \<or> done_turn k d')"

lemma db_step_refl [simp]: "db_step us d d"
  by (auto simp: db_step_def ledger_step_def)

lemma db_step_mark: "st \<noteq> Queued \<Longrightarrow> db_step us d (mark_turn now key st only d)"
  by (simp add: db_step_def mark_turn_step turn_of_mark)

lemma db_step_uncertain: "db_step us d (mark_uncertain now key d)"
  using mark_uncertain_step by (simp add: db_step_def) (simp add: mark_uncertain_def)

lemma db_step_complete: "db_step us d (complete now key sid v reply token d)"
  by (simp add: db_step_def complete_step turn_of_complete)

lemma db_step_admit:
  assumes "admit now key sid v d = (True, d')"
  shows "db_step us d d'"
proof -
  have "turn_of k d = None \<Longrightarrow> turn_of k d' = None \<or> done_turn k d'" for k
    using admit_turns [OF assms, of k] by (cases "k = key") (auto simp: turn_of_upsert done_turn_def)
  then show ?thesis
    using admit_step [OF assms] by (simp add: db_step_def)
qed

lemma db_step_others:
  "ledger_safe d d' \<Longrightarrow> \<forall>k. turn_of k d = None \<and> turn_of k d' \<noteq> None \<longrightarrow> k \<notin> us \<Longrightarrow> db_step us d d'"
  using ledger_safe_step unfolding db_step_def by blast

text \<open>A waiting worker stays sound when the database takes such a step and its session is its own.\<close>

lemma phase_ok_keep:
  assumes ok: "phase_ok y w p" and db: "db_step (y_used y) (y_db y) (y_db y')"
    and used: "y_used y \<subseteq> y_used y'"
    and own: "\<And>sid. phase_session p = Some sid \<Longrightarrow>
      y_lock y' sid = y_lock y sid \<and> (\<forall>k. y_runs y' (sid, k) = y_runs y (sid, k))"
  shows "phase_ok y' w p"
proof -
  have l: "\<forall>sid. phase_session p = Some sid \<longrightarrow> y_lock y' sid = Some w"
    using ok own by (auto simp: phase_ok_def)
  show ?thesis
  proof (cases p)
    case (Decided j sid pl)
    have o: "y_runs y' (sid, k) = y_runs y (sid, k)" for k
      using own [of sid] Decided by (simp add: phase_session_def)
    show ?thesis
    proof (cases pl)
      case (PRun v real s)
      have a: "ready_turn (ij_key j) sid v (y_db y)" "y_runs y (sid, ij_key j) = 0" "ij_key j \<in> y_used y"
        using ok Decided PRun by (auto simp: phase_ok_def)
      then have "ready_turn (ij_key j) sid v (y_db y')"
        using db ready_turn_step unfolding db_step_def by blast
      then show ?thesis
        using a l o used Decided PRun by (auto simp: phase_ok_def)
    qed (use l Decided in \<open>simp_all add: phase_ok_def\<close>)
  next
    case (Admitted j sid v real s)
    have "y_runs y' (sid, k) = y_runs y (sid, k)" for k
      using own [of sid] Admitted by (simp add: phase_session_def)
    then show ?thesis
      using ok db l Admitted done_turn_step unfolding db_step_def by (auto simp: phase_ok_def)
  qed (use l in \<open>simp_all add: phase_ok_def\<close>)
qed

lemma phase_lock:
  "sys_ok y \<Longrightarrow> phase_session (y_work y w) = Some sid \<Longrightarrow> y_lock y sid = Some w"
  unfolding sys_ok_def phase_ok_def by blast

text \<open>
  Moving one worker \<open>w\<close>, whose session is \<open>sid\<close>: the others stay sound if only the lock and the run
  counts of \<open>sid\<close> change.
\<close>

lemma sys_ok_move:
  assumes ok: "sys_ok y" and db: "db_step (y_used y) (y_db y) (y_db y')"
    and used: "y_used y \<subseteq> y_used y'"
    and work: "\<And>w'. w' \<noteq> w \<Longrightarrow> y_work y' w' = y_work y w'"
    and lock: "\<And>sid'. sid' \<noteq> sid \<Longrightarrow> y_lock y' sid' = y_lock y sid'"
    and runs: "\<And>sid' k. sid' \<noteq> sid \<Longrightarrow> y_runs y' (sid', k) = y_runs y (sid', k)"
    and free: "y_lock y sid \<in> {None, Some w}"
    and new: "phase_ok y' w (y_work y' w)"
    and count: "\<And>k. y_runs y' (sid, k) \<le> 1 \<and> (y_runs y' (sid, k) \<noteq> 0 \<longrightarrow> done_turn k (y_db y'))"
  shows "sys_ok y'"
proof -
  have "phase_ok y' w' (y_work y' w')" for w'
  proof (cases "w' = w")
    case False
    have "phase_session (y_work y w') \<noteq> Some sid"
      using phase_lock [OF ok, of w' sid] free False by auto
    then have "phase_ok y' w' (y_work y w')"
      using ok lock runs by (intro phase_ok_keep [OF _ db used]) (auto simp: sys_ok_def)
    then show ?thesis
      using work [OF False] by simp
  qed (use new in simp)
  moreover have "y_runs y' (i, k) \<le> 1 \<and> (y_runs y' (i, k) \<noteq> 0 \<longrightarrow> done_turn k (y_db y'))" for i k
  proof (cases "i = sid")
    case False
    then show ?thesis
      using runs [OF False] ok done_turn_step db unfolding sys_ok_def db_step_def by metis
  qed (use count in simp)
  ultimately show ?thesis
    by (simp add: sys_ok_def)
qed

lemma count_keep:
  "sys_ok y \<Longrightarrow> db_step (y_used y) (y_db y) d' \<Longrightarrow>
   y_runs y (sid, k) \<le> 1 \<and> (y_runs y (sid, k) \<noteq> 0 \<longrightarrow> done_turn k d')"
  using done_turn_step unfolding sys_ok_def db_step_def by metis

lemma sys_ok_release:
  assumes "sys_ok y" "phase_session (y_work y w) = Some sid" "db_step (y_used y) (y_db y) d'"
  shows "sys_ok (release w sid (y\<lparr>y_db := d'\<rparr>))"
  using phase_lock [OF assms(1,2)] assms(3) count_keep [OF assms(1,3)]
  by (intro sys_ok_move [OF assms(1), of _ w sid])
    (auto simp: release_def phase_ok_def phase_session_def)

lemma plan_ready:
  "plan_turn cfg rc j sid d = PRun v real s \<Longrightarrow> ready_turn (ij_key j) sid v d \<and> \<not> done_turn (ij_key j) d"
  using plan_run_cases [of cfg rc j sid d v real s]
  by (auto simp: ready_turn_def done_turn_def runnable_def split: option.splits)

lemma release_db: "release w sid y = release w sid (y\<lparr>y_db := y_db y\<rparr>)"
  by simp

lemma sys_ok_start:
  assumes ok: "sys_ok y" and w: "y_work y w = Idle_W" and l: "y_lock y sid = None"
  shows "sys_ok (y\<lparr>y_lock := (y_lock y)(sid := Some w),
      y_work := (y_work y)(w := Decided j sid (plan_turn cfg rc j sid (y_db y))),
      y_used := insert (ij_key j) (y_used y)\<rparr>)" (is "sys_ok ?y")
proof (rule sys_ok_move [OF ok, of ?y w sid])
  show "phase_ok ?y w (y_work ?y w)"
  proof (cases "plan_turn cfg rc j sid (y_db y)")
    case (PRun v real s)
    have "y_runs y (sid, ij_key j) = 0"
      using ok plan_ready [OF PRun] by (auto simp: sys_ok_def)
    then show ?thesis
      using plan_ready [OF PRun] PRun by (simp add: phase_ok_def phase_session_def)
  qed (simp_all add: phase_ok_def phase_session_def)
qed (use l count_keep [OF ok db_step_refl] in auto)

lemma sys_ok_step:
  assumes "step cfg x y y'" "sys_ok y"
  shows "sys_ok y'"
  using assms(1)
proof cases
  case (start w j sid)
  then show ?thesis
    using sys_ok_start [OF assms(2)] by simp
next
  case (settle w j sid pl)
  then show ?thesis
    using sys_ok_release [OF assms(2), of w sid "y_db y"] by (simp add: phase_session_def)
next
  case (uncertain w j sid v now)
  then show ?thesis
    using sys_ok_release [OF assms(2) _ db_step_uncertain] by (simp add: phase_session_def)
next
  case (denied w j sid v now)
  then show ?thesis
    using sys_ok_release [OF assms(2) _ db_step_mark] by (simp add: phase_session_def)
next
  case (repost w j sid v r)
  then have l: "y_lock y sid = Some w"
    using phase_lock [OF assms(2), of w sid] by (simp add: phase_session_def)
  show ?thesis
    unfolding repost(1)
    by (rule sys_ok_move [OF assms(2), of _ w sid])
      (use l count_keep [OF assms(2) db_step_refl] in \<open>auto simp: phase_ok_def phase_session_def\<close>)
next
  case (admitted w j sid v real s now d')
  then have l: "y_lock y sid = Some w" and p: "phase_ok y w (Decided j sid (PRun v real s))"
    using phase_lock [OF assms(2), of w sid] assms(2) by (auto simp: phase_session_def sys_ok_def dest: spec [of _ w])
  have db: "db_step (y_used y) (y_db y) d'"
    by (rule db_step_admit [OF admitted(3)])
  have "done_turn (ij_key j) d'"
    using admit_done [OF admitted(3)] p by (simp add: phase_ok_def)
  then show ?thesis
    unfolding admitted(1)
    by (intro sys_ok_move [OF assms(2), of _ w sid])
      (use l p db count_keep [OF assms(2) db] in \<open>auto simp: phase_ok_def phase_session_def\<close>)
next
  case (rejected w j sid v real s now d')
  then show ?thesis
    using sys_ok_release [OF assms(2), of w sid "y_db y"] by (simp add: phase_session_def)
next
  case (execute w j sid v real s run sp reply token)
  then have l: "y_lock y sid = Some w" and p: "phase_ok y w (Admitted j sid v real s)"
    using phase_lock [OF assms(2), of w sid] assms(2) by (auto simp: phase_session_def sys_ok_def dest: spec [of _ w])
  have z: "y_runs y (sid, ij_key j) = 0" "done_turn (ij_key j) (y_db y)"
    using p by (auto simp: phase_ok_def)
  show ?thesis
    unfolding execute(1)
    by (rule sys_ok_move [OF assms(2), of _ w sid])
      (use l z count_keep [OF assms(2) db_step_refl] in \<open>auto simp: phase_ok_def phase_session_def\<close>)
next
  case (completed w j sid v reply token now)
  then have l: "y_lock y sid = Some w"
    using phase_lock [OF assms(2), of w sid] by (simp add: phase_session_def)
  have db: "db_step (y_used y) (y_db y) (complete now (ij_key j) sid v reply token (y_db y))"
    by (rule db_step_complete)
  show ?thesis
    unfolding completed(1)
    by (rule sys_ok_move [OF assms(2), of _ w sid])
      (use l db count_keep [OF assms(2) db] in \<open>auto simp: phase_ok_def phase_session_def\<close>)
next
  case (posted w j sid r st now)
  then show ?thesis
    using sys_ok_release [OF assms(2) _ db_step_mark] by (auto simp: phase_session_def)
next
  case (deferred w j sid r)
  then show ?thesis
    using sys_ok_release [OF assms(2), of w sid "y_db y"] by (simp add: phase_session_def)
next
  case (crash w sid)
  then show ?thesis
    using sys_ok_release [OF assms(2), of w sid "y_db y"] by simp
next
  case (others d')
  have db: "db_step (y_used y) (y_db y) d'"
    using others by (intro db_step_others) auto
  have "phase_ok y' w (y_work y' w)" for w
    using assms(2) phase_ok_keep [of y w "y_work y w" y'] db others(1) by (simp add: sys_ok_def)
  then show ?thesis
    using count_keep [OF assms(2) db] others(1) by (simp add: sys_ok_def)
qed

lemma sys_ok_init: "sys_ok (init_sys d)"
  by (simp add: sys_ok_def init_sys_def phase_ok_def phase_session_def)

lemma sys_ok_reachable: "reachable cfg x y0 y \<Longrightarrow> sys_ok y0 \<Longrightarrow> sys_ok y"
  by (induction rule: reachable.induct) (auto intro: sys_ok_step)

subsection \<open>At most one execution\<close>

text \<open>A run of the system in which the tool is executed once.\<close>

lemma sample_admit: "admit 5 (u ''k1'') 1 1 sample_db = (True, snd (admit 5 (u ''k1'') 1 1 sample_db))"
  by code_simp


abbreviation "admitted_db \<equiv> snd (admit 5 (u ''k1'') 1 1 sample_db)"

lemma sample_admitted: "get_adapter (rc_engine sample_rc) (u ''echo'') admitted_db = Inr sample_tool"
  by code_simp

lemma sample_reply: "reply_of (rc_engine sample_rc) (td_config sample_tool) (u ''hello'') [] = u ''hello''"
  by (simp add: reply_of_def MAX_REPLY_CHARS_def extract_reply_def sample_tool_def u_def py_strip_def strip_by_def
      lstrip_by_def rstrip_by_def is_space_def)

lemma sample_build: "\<not> isl (build_exec_session sample_cfg sample_xc (u ''echo'') (u ''/srv/p'') [] None 1 (u ''hi'') admitted_db)"
  by code_simp

lemma sample_token: "parse_resume_token (rc_engine sample_rc) (td_config sample_tool) (u ''hello'') [] = None"
  by (simp add: parse_resume_token_def raw_resume_token_def sample_tool_def)

lemma sample_deliver:
  "\<exists>sp. deliver sample_cfg sample_xc (\<lambda>_. Inr (ExecOk (u ''hello'') [])) (u ''echo'') (u ''/srv/p'') None 1
     (u ''hi'') admitted_db = (Some sp, Inr (u ''hello'', None))"
  using sample_build sample_admitted
  by (cases "build_exec_session sample_cfg sample_xc (u ''echo'') (u ''/srv/p'') [] None 1 (u ''hi'') admitted_db")
    (simp_all add: deliver_def sample_execution sample_reply sample_token sample_xc_def)

lemma sample_fields: "s_tool sample_session = u ''echo''" "s_token sample_session = None"
  by (simp_all add: sample_session_def)

lemma sample_run:
  "\<exists>y. reachable sample_cfg sample_xc (init_sys sample_db) y \<and> y_runs y (1, u ''k1'') = 1"
proof -
  let ?y0 = "init_sys sample_db"
  let ?y1 = "?y0\<lparr>y_lock := (y_lock ?y0)(1 := Some 0),
      y_work := (y_work ?y0)(0 := Decided sample_job 1 (plan_turn sample_cfg (xc_rc sample_xc) sample_job 1 (y_db ?y0))),
      y_used := insert (ij_key sample_job) (y_used ?y0)\<rparr>"
  let ?y2 = "?y1\<lparr>y_db := admitted_db,
      y_work := (y_work ?y1)(0 := Admitted sample_job 1 1 (u ''/srv/p'') sample_session)\<rparr>"
  obtain sp where sp: "deliver sample_cfg sample_xc (\<lambda>_. Inr (ExecOk (u ''hello'') [])) (u ''echo'') (u ''/srv/p'') None 1
     (u ''hi'') admitted_db = (Some sp, Inr (u ''hello'', None))"
    using sample_deliver by blast
  let ?y3 = "?y2\<lparr>y_work := (y_work ?y2)(0 := Ran_W sample_job 1 1 (u ''hello'') None),
      y_runs := (y_runs ?y2)((1, ij_key sample_job) := y_runs ?y2 (1, ij_key sample_job) +
        (if Some sp = None then 0 else 1))\<rparr>"
  have 1: "step sample_cfg sample_xc ?y0 ?y1"
    by (rule step.start) (simp_all add: init_sys_def sample_job_def)
  have 2: "step sample_cfg sample_xc ?y1 ?y2"
    by (rule step.admitted [where now = 5]) (use sample_plan sample_admit in \<open>simp_all add: init_sys_def sample_xc_def sample_job_def\<close>)
  have 3: "step sample_cfg sample_xc ?y2 ?y3"
    by (rule step.execute [where run = "\<lambda>_. Inr (ExecOk (u ''hello'') [])" and w = 0 and j = sample_job
          and s = sample_session and real = "u ''/srv/p''"])
      (use sp in \<open>simp_all add: sample_job_def sample_fields\<close>)
  have "reachable sample_cfg sample_xc ?y0 ?y3"
    using reach_step [OF reach_step [OF reach_step [OF reach_init 1] 2] 3] .
  moreover have "y_runs ?y3 (1, u ''k1'') = 1"
    by (simp add: sample_job_def init_sys_def)
  ultimately show ?thesis
    by blast
qed

text \<open>C1. Whatever workers, crashes, redeliveries and other processes do, the tool is run at most once for
  an input of a session, and an input for which it was run has a turn in the ledger that is not queued.\<close>

theorem tool_runs_at_most_once:
  assumes "reachable cfg x (init_sys d) y"
  shows "y_runs y (sid, k) \<le> 1 \<and>
    (y_runs y (sid, k) = 1 \<longrightarrow> (\<exists>t. turn_of k (y_db y) = Some t \<and> t_status t \<noteq> Queued))"
proof -
  have "y_runs y (sid, k) \<le> 1 \<and> (y_runs y (sid, k) \<noteq> 0 \<longrightarrow> done_turn k (y_db y))"
    using sys_ok_reachable [OF assms sys_ok_init] unfolding sys_ok_def by blast
  then show ?thesis
    by (simp add: done_turn_def)
qed

lemma tool_runs_at_most_once_witness:
  "\<exists>y. reachable sample_cfg sample_xc (init_sys sample_db) y \<and> y_runs y (1, u ''k1'') = 1 \<and>
     (\<exists>t. turn_of (u ''k1'') (y_db y) = Some t \<and> t_status t \<noteq> Queued)"
proof -
  obtain y where "reachable sample_cfg sample_xc (init_sys sample_db) y" "y_runs y (1, u ''k1'') = 1"
    using sample_run by blast
  then show ?thesis
    using tool_runs_at_most_once [of sample_cfg sample_xc sample_db y 1 "u ''k1''"] by auto
qed

text \<open>What the answer to the reply's post makes of the job and of its turn.\<close>

fun settled_as :: "post_outcome \<Rightarrow> job_result \<times> turn_status" where
  "settled_as PostOk = (Delivered_J, Delivered)"
| "settled_as (PostHttp c) = (if c \<in> {410, 422} then (Aborted_J, DeliveryFailed) else (Deferred_J, Completed))"
| "settled_as PostOther = (Deferred_J, Completed)"

lemma admit_session:
  assumes "session_of sid d = Some s" "s_status s \<in> {Running, Idle}" "v = s_version s"
  shows "\<exists>d'. admit now key sid v d = (True, d') \<and>
    session_of sid d' = Some (s\<lparr>s_activity_at := now, s_status := Running\<rparr>)"
proof -
  have "session_of sid (upsert_executing now key sid v e) = session_of sid e" for e
    by (simp add: upsert_executing_def session_of_def upd_turns_def)
  then show ?thesis
    using assms by (auto simp: admit_def fenced_update_def at_version_def)
qed

lemma complete_session:
  assumes "session_of sid d = Some s" "s_status s \<in> {Running, Idle}" "v = s_version s"
  shows "session_of sid (complete now key sid v reply token d) =
    Some (s\<lparr>s_token := (case token of None \<Rightarrow> s_token s | Some t \<Rightarrow> Some t), s_activity_at := now\<rparr>)"
proof -
  have "session_of sid (set_turn key f d) = session_of sid d" for f
    by (simp add: set_turn_def)
  then show ?thesis
    using assms by (simp add: complete_def fenced_update_def at_version_def)
qed

lemma post_phase_cases:
  "post_phase post (\<lambda>d. d) now key reply d =
     (fst (settled_as (post key reply)),
      if snd (settled_as (post key reply)) = Completed then d
      else mark_turn now key (snd (settled_as (post key reply))) None d)"
  by (auto simp: post_phase_def split: post_outcome.split)

text \<open>Without interference, the job of a turn that may run executes the tool once and posts its reply once;
  the turn keeps the reply and ends delivered, failed to deliver or completed (to be posted again) by
  the answer to the post, and the session is running with the token the tool gave.\<close>


theorem executed_turn_outcome:
  assumes "plan_turn cfg (xc_rc x) j sid d = PRun v real s"
    "deliver cfg x run (s_tool s) real (s_token s) sid (ij_text j) (snd (admit now (ij_key j) sid v d)) =
       (Some sp, Inr (reply, token))"
    "run_locked cfg x run post (\<lambda>_ d. d) now j sid (store, d) = (r, effs, store', d')"
  shows "r = Inr (fst (settled_as (post (ij_key j) (Some reply))))"
    "effs = [Ran (ij_key j) sp, Posted (ij_key j) (Some reply)]"
    "\<exists>t. turn_of (ij_key j) d' = Some t \<and> t_session t = sid \<and> t_version t = v \<and> t_result t = Some reply \<and>
       t_status t = snd (settled_as (post (ij_key j) (Some reply)))"
    "session_of sid d' = Some (s\<lparr>s_status := Running, s_activity_at := now,
       s_token := (case token of None \<Rightarrow> s_token s | Some k \<Rightarrow> Some k)\<rparr>)"
proof -
  let ?k = "ij_key j" and ?st = "settled_as (post (ij_key j) (Some reply))"
  note p = plan_run_cases [OF assms(1)]
  obtain d1 where ad: "admit now ?k sid v d = (True, d1)"
    and s1: "session_of sid d1 = Some (s\<lparr>s_activity_at := now, s_status := Running\<rparr>)"
    using admit_session [of sid d s v now ?k] p by blast
  obtain t1 where t1: "turn_of ?k d1 = Some t1" "t_session t1 = sid" "t_version t1 = v" "t_status t1 = Executing"
    using p by (cases "turn_of ?k d") (auto simp: admit_turns [OF ad] turn_of_upsert runnable_def)
  define d2 where "d2 = complete now ?k sid v reply token d1"
  have s2: "session_of sid d2 = Some (s\<lparr>s_status := Running, s_activity_at := now,
       s_token := (case token of None \<Rightarrow> s_token s | Some k \<Rightarrow> Some k)\<rparr>)"
    using complete_session [OF s1, of v now ?k reply token] p by (cases token) (simp_all add: d2_def)
  have t2: "turn_of ?k d2 = Some (t1\<lparr>t_status := Completed, t_result := Some reply, t_token := token, t_updated_at := now\<rparr>)"
    using t1 by (simp add: d2_def turn_of_complete)
  have run: "(r, effs, store', d') =
      (Inr (fst ?st), [Ran ?k sp, Posted ?k (Some reply)], AList.update (uuid_str sid) (live_entry sid real s) store,
       if snd ?st = Completed then d2 else mark_turn now ?k (snd ?st) None d2)"
    using assms(3) by (auto simp: run_locked_def assms(1) ad assms(2) [unfolded ad snd_conv] post_phase_cases Let_def d2_def)
  then show "r = Inr (fst ?st)" "effs = [Ran ?k sp, Posted ?k (Some reply)]"
    by simp_all
  have d': "d' = (if snd ?st = Completed then d2 else mark_turn now ?k (snd ?st) None d2)"
    using run by simp
  show "\<exists>t. turn_of ?k d' = Some t \<and> t_session t = sid \<and> t_version t = v \<and> t_result t = Some reply \<and>
       t_status t = snd ?st"
    using t1 t2 d' by (simp add: turn_of_mark)
  show "session_of sid d' = Some (s\<lparr>s_status := Running, s_activity_at := now,
       s_token := (case token of None \<Rightarrow> s_token s | Some k \<Rightarrow> Some k)\<rparr>)"
    using s2 d' by (simp add: mark_turn_def)
qed

definition sample_locked :: "job_result result \<times> effect list \<times> store \<times> db" where
  "sample_locked = run_locked sample_cfg sample_xc (\<lambda>_. Inr (ExecOk (u ''hello'') [])) (\<lambda>_ _. PostHttp 422)
     (\<lambda>_ d. d) 5 sample_job 1 ([], sample_db)"

theorem executed_turn_outcome_witness:
  "fst sample_locked = Inr Aborted_J \<and>
   (\<exists>t. turn_of (u ''k1'') (snd (snd (snd sample_locked))) = Some t \<and> t_status t = DeliveryFailed \<and>
      t_result t = Some (u ''hello''))"
proof -
  obtain sp where sp: "deliver sample_cfg sample_xc (\<lambda>_. Inr (ExecOk (u ''hello'') [])) (s_tool sample_session) (u ''/srv/p'')
      (s_token sample_session) 1 (ij_text sample_job) (snd (admit 5 (ij_key sample_job) 1 1 sample_db)) = (Some sp, Inr (u ''hello'', None))"
    using sample_deliver by (auto simp: sample_fields sample_job_def)
  have pl: "plan_turn sample_cfg (xc_rc sample_xc) sample_job 1 sample_db = PRun 1 (u ''/srv/p'') sample_session"
    using sample_plan by (simp add: sample_xc_def)
  have l: "run_locked sample_cfg sample_xc (\<lambda>_. Inr (ExecOk (u ''hello'') [])) (\<lambda>_ _. PostHttp 422) (\<lambda>_ d. d) 5 sample_job 1
      ([], sample_db) = (fst sample_locked, fst (snd sample_locked), fst (snd (snd sample_locked)), snd (snd (snd sample_locked)))"
    by (simp add: sample_locked_def)
  show ?thesis
    using executed_turn_outcome(1,3) [OF pl sp l] by (auto simp: sample_job_def)
qed

end
