(* ===== verification/Delivery.thy ===== *)
theory Delivery
  imports Session_Service
begin

text \<open>
  The two idempotent deliveries of the program: \<open>_claim_act_finalize\<close> of
  \<open>dispatcher/handlers/terminal_notice.py\<close>, which keeps one transaction open around the side effect,
  and \<open>_send_checkpointed\<close> of \<open>runner/control_api.py\<close>, which takes a lease and records the message id.
  Both are instances of the locale \<open>delivery_gate\<close>: a delivery that is recorded is never acted on
  again.
\<close>

subsection \<open>The contract\<close>

text \<open>A run of attempts, on any keys; the outcomes that were acted on for \<open>k\<close>.\<close>

primrec acted :: "('o \<Rightarrow> 'k \<Rightarrow> 's \<Rightarrow> bool \<times> 's) \<Rightarrow> 'k \<Rightarrow> ('o \<times> 'k) list \<Rightarrow> 's \<Rightarrow> 'o list" where
  "acted attempt k [] s = []"
| "acted attempt k (a # as) s =
     (if snd a = k \<and> fst (attempt (fst a) (snd a) s) then [fst a] else []) @
       acted attempt k as (snd (attempt (fst a) (snd a) s))"

locale delivery_gate =
  fixes attempt :: "'o \<Rightarrow> 'k \<Rightarrow> 's \<Rightarrow> bool \<times> 's"
    and recorded :: "'o \<Rightarrow> 'k \<Rightarrow> bool"
    and settled :: "'k \<Rightarrow> 's \<Rightarrow> bool"
  assumes settled_silent: "settled k s \<Longrightarrow> \<not> fst (attempt w k s)"
    and acted_settles: "fst (attempt w k s) \<Longrightarrow> recorded w k \<Longrightarrow> settled k (snd (attempt w k s))"
    and settled_stays: "settled k s \<Longrightarrow> settled k (snd (attempt w k' s))"
begin

lemma acted_settled: "settled k s \<Longrightarrow> acted attempt k as s = []"
proof (induction as arbitrary: s)
  case (Cons a as)
  then show ?case
    using settled_silent [of k s "fst a"] settled_stays [of k s "fst a" "snd a"] by auto
qed simp

text \<open>An attempt that is recorded is the last one acted on.\<close>

lemma recorded_last:
  "acted attempt k as s = ws @ w # ws' \<Longrightarrow> recorded w k \<Longrightarrow> ws' = []"
proof (induction as arbitrary: s ws)
  case (Cons a as)
  let ?s = "snd (attempt (fst a) (snd a) s)"
  show ?case
  proof (cases "snd a = k \<and> fst (attempt (fst a) (snd a) s)")
    case True
    have "acted attempt k (a # as) s = fst a # acted attempt k as ?s"
      using True by (cases a) simp
    then have e: "fst a # acted attempt k as ?s = ws @ w # ws'"
      using Cons.prems(1) by metis
    show ?thesis
    proof (cases ws)
      case Nil
      have a: "fst a = w" "acted attempt k as ?s = ws'"
        using e unfolding Nil append_Nil list.inject by blast+
      then have "settled k ?s"
        using True a acted_settles [of "fst a" k s] Cons.prems(2) by auto
      then show ?thesis
        using a acted_settled by metis
    next
      case ws: (Cons b bs)
      have "acted attempt k as ?s = bs @ w # ws'"
        using e unfolding ws append_Cons list.inject by blast
      then show ?thesis
        using Cons.IH Cons.prems(2) by blast
    qed
  next
    case False
    have "acted attempt k (a # as) s = acted attempt k as ?s"
      by (simp only: acted.simps if_not_P [OF False] append_Nil)
    then show ?thesis
      using Cons.IH Cons.prems by metis
  qed
qed simp

lemma recorded_once: "length (filter (\<lambda>w. recorded w k) (acted attempt k as s)) \<le> 1"
proof (rule ccontr)
  let ?r = "\<lambda>w. recorded w k"
  assume "\<not> length (filter ?r (acted attempt k as s)) \<le> 1"
  then obtain a b cs where f: "filter ?r (acted attempt k as s) = a # b # cs"
    by (cases "filter ?r (acted attempt k as s)" rule: remdups_adj.cases) auto
  obtain us vs where l: "acted attempt k as s = us @ a # vs" "filter ?r vs = b # cs" "recorded a k"
    using filter_eq_ConsD [OF f] by auto
  then have "vs = []"
    using recorded_last by blast
  then show False
    using l by simp
qed

end

subsection \<open>Claim, act, finalise\<close>

text \<open>
  The side effect succeeds, raises, or succeeds and the process dies before the commit, which rolls
  the transaction back.
\<close>

datatype act_outcome = ActOk | ActRaise exc | ActCrash

text \<open>\<open>session_id or None\<close> as a UUID column: \<open>None\<close> when the text is no UUID or breaks the foreign key.\<close>

definition ikey_session :: "pystr \<Rightarrow> db \<Rightarrow> uuid option option" where
  "ikey_session session_id d =
     (if session_id = [] then Some None
      else (case uuid_of_str session_id of
              None \<Rightarrow> None
            | Some i \<Rightarrow> if session_of i d = None then None else Some (Some i)))"

definition claim_row :: "int \<Rightarrow> pystr \<Rightarrow> pystr \<Rightarrow> uuid option \<Rightarrow> expiry \<Rightarrow> pystr option \<Rightarrow> ikey_row" where
  "claim_row now ety ikey sid expires outcome =
     \<lparr>k_etype = ety, k_key = ikey, k_session = sid, k_seen_at = now, k_expires = expires,
      k_outcome = outcome, k_claim_until = None, k_claim_owner = None\<rparr>"

definition insert_claim :: "ikey_row \<Rightarrow> db \<Rightarrow> db" where
  "insert_claim r d = d\<lparr>d_ikeys := ins_or_skip ikey_id r (d_ikeys d)\<rparr>"

definition upd_ikey :: "pystr \<Rightarrow> pystr \<Rightarrow> (ikey_row \<Rightarrow> ikey_row) \<Rightarrow> db \<Rightarrow> db" where
  "upd_ikey ety k f d = d\<lparr>d_ikeys := upd (\<lambda>r. ikey_id r = (ety, k)) f (d_ikeys d)\<rparr>"

definition week_ms :: int where "week_ms = 7 * 24 * 3600 * 1000"

text \<open>
  Returns the result, whether the side effect was performed, and the database; \<open>fin\<close> is \<open>finalize\<close>,
  whose failure rolls the transaction back after the side effect.
\<close>

definition claim_act_finalize ::
  "int \<Rightarrow> pystr \<Rightarrow> pystr \<Rightarrow> pystr \<Rightarrow> act_outcome \<Rightarrow> (db \<Rightarrow> db result) \<Rightarrow> db \<Rightarrow> unit result \<times> bool \<times> db" where
  "claim_act_finalize now ety ikey session_id side_effect fin d =
     (if ikey = [] then (Inl (ValueErr (u ''delivery requires an idempotency key'')), False, d)
      else
        (case ikey_session session_id d of
           None \<Rightarrow> (Inl (IntegrityErr (u ''idempotency_keys'')), False, d)
         | Some sid \<Rightarrow>
             (let d1 = insert_claim (claim_row now ety ikey sid (At (now + week_ms)) None) d in
              case ikey_of ety ikey d1 of
                None \<Rightarrow> (Inl (ExternalErr (u ''NoResultFound'')), False, d)
              | Some r \<Rightarrow>
                  if k_outcome r \<noteq> None then (Inr (), False, d1)
                  else
                    (case side_effect of
                       ActRaise e \<Rightarrow> (Inl e, False, d)
                     | ActCrash \<Rightarrow> (Inl (ExternalErr (u ''crash'')), True, d)
                     | ActOk \<Rightarrow>
                         (case fin d1 of
                            Inl e \<Rightarrow> (Inl e, True, d)
                          | Inr d2 \<Rightarrow>
                              (Inr (), True, upd_ikey ety ikey (\<lambda>r. r\<lparr>k_outcome := Some (u ''done'')\<rparr>) d2))))))"

definition settled_key :: "pystr \<Rightarrow> pystr \<Rightarrow> db \<Rightarrow> bool" where
  "settled_key ety k d \<longleftrightarrow> (\<exists>r. ikey_of ety k d = Some r \<and> k_outcome r \<noteq> None)"

lemma ikey_of_insert:
  "ikey_of e k (insert_claim r d) =
     (if ikey_of e k d = None \<and> (e, k) = ikey_id r then Some r else ikey_of e k d)"
  unfolding ikey_of_def insert_claim_def by (auto simp: get_ins_or_skip)

lemma ikey_of_upd:
  assumes "\<And>r. ikey_id (f r) = ikey_id r"
  shows "ikey_of e k (upd_ikey ety key f d) =
     (if (e, k) = (ety, key) then map_option f (ikey_of e k d) else ikey_of e k d)"
proof -
  have *: "ikey_of e k (upd_ikey ety key f d) =
      map_option (\<lambda>r. if ikey_id r = (ety, key) then f r else r) (ikey_of e k d)"
    unfolding ikey_of_def upd_ikey_def using assms by (simp add: ike.look_change)
  show ?thesis
  proof (cases "ikey_of e k d")
    case (Some r)
    then have "ikey_id r = (e, k)"
      unfolding ikey_of_def by (rule ike.look_key)
    then show ?thesis
      using * Some by (cases "(e, k) = (ety, key)") auto
  qed (use * in auto)
qed

lemma ikey_id_claim [simp]: "ikey_id (claim_row now e k s x oc) = (e, k)"
  by (simp add: ikey_id_def claim_row_def)

lemma ikey_id_outcome [simp]:
  "ikey_id (r\<lparr>k_outcome := oc\<rparr>) = ikey_id r"
  "ikey_id (r\<lparr>k_claim_until := t\<rparr>) = ikey_id r"
  "ikey_id (r\<lparr>k_claim_owner := w, k_claim_until := t\<rparr>) = ikey_id r"
  "ikey_id (r\<lparr>k_outcome := oc, k_claim_until := t\<rparr>) = ikey_id r"
  by (simp_all add: ikey_id_def)

lemma settled_insert: "settled_key e k d \<Longrightarrow> settled_key e k (insert_claim r d)"
  by (auto simp: settled_key_def ikey_of_insert)

lemma settled_done:
  "settled_key e k (upd_ikey ety key (\<lambda>r. r\<lparr>k_outcome := Some v\<rparr>) d) \<longleftrightarrow>
     (if (e, k) = (ety, key) then ikey_of e k d \<noteq> None else settled_key e k d)"
  by (auto simp: settled_key_def ikey_of_upd)

text \<open>The three laws of the gate, for any finaliser that does not touch the keys.\<close>

lemma caf_silent:
  "settled_key ety ikey d \<Longrightarrow> \<not> fst (snd (claim_act_finalize now ety ikey sid act fin d))"
  by (auto simp: claim_act_finalize_def settled_key_def ikey_of_insert Let_def split: option.split)

lemma caf_settles:
  assumes "fst (snd (claim_act_finalize now ety ikey sid ActOk fin d))"
    "\<And>d. \<exists>d'. fin d = Inr d' \<and> d_ikeys d' = d_ikeys d"
  shows "settled_key ety ikey (snd (snd (claim_act_finalize now ety ikey sid ActOk fin d)))"
proof -
  obtain s r where s: "ikey \<noteq> []" "ikey_session sid d = Some s"
    and r: "ikey_of ety ikey (insert_claim (claim_row now ety ikey s (At (now + week_ms)) None) d) = Some r"
      "k_outcome r = None"
    using assms(1) by (auto simp: claim_act_finalize_def Let_def split: option.splits if_splits)
  obtain d2 where d2: "fin (insert_claim (claim_row now ety ikey s (At (now + week_ms)) None) d) = Inr d2"
    "d_ikeys d2 = d_ikeys (insert_claim (claim_row now ety ikey s (At (now + week_ms)) None) d)"
    using assms(2) by blast
  show ?thesis
    using s r d2 by (auto simp: claim_act_finalize_def settled_done ikey_of_def)
qed

lemma settled_frame: "d_ikeys d' = d_ikeys d \<Longrightarrow> settled_key e k d' = settled_key e k d"
  by (simp add: settled_key_def ikey_of_def)

lemma caf_keeps:
  assumes "settled_key e k d" "\<And>d d'. fin d = Inr d' \<Longrightarrow> d_ikeys d' = d_ikeys d"
  shows "settled_key e k (snd (snd (claim_act_finalize now ety ikey sid act fin d)))"
proof -
  have ins: "settled_key e k (insert_claim r d)" for r
    by (rule settled_insert [OF assms(1)])
  have "settled_key e k (upd_ikey ety ikey (\<lambda>r. r\<lparr>k_outcome := Some (u ''done'')\<rparr>) d2)"
    if "fin (insert_claim r d) = Inr d2" for r d2
  proof -
    have "settled_key e k d2"
      using ins settled_frame [OF assms(2) [OF that]] by simp
    moreover from this have "ikey_of e k d2 \<noteq> None"
      by (auto simp: settled_key_def)
    ultimately show ?thesis
      by (auto simp: settled_done)
  qed
  then show ?thesis
    using assms(1) ins by (simp add: claim_act_finalize_def Let_def split: option.split act_outcome.split sum.split)
qed

text \<open>\<open>claim_act_finalize\<close> is such a gate.\<close>

definition caf_attempt ::
  "int \<times> act_outcome \<Rightarrow> pystr \<times> pystr \<Rightarrow> db \<Rightarrow> bool \<times> db" where
  "caf_attempt w k d = snd (claim_act_finalize (fst w) (fst k) (snd k) [] (snd w) Inr d)"

interpretation caf: delivery_gate caf_attempt "\<lambda>w k. snd w = ActOk" "\<lambda>k. settled_key (fst k) (snd k)"
proof
  fix w :: "int \<times> act_outcome" and k k' :: "pystr \<times> pystr" and d :: db
  show "\<not> fst (caf_attempt w k d)" if "settled_key (fst k) (snd k) d"
    using caf_silent [OF that] by (simp add: caf_attempt_def)
  show "settled_key (fst k) (snd k) (snd (caf_attempt w k d))"
    if "fst (caf_attempt w k d)" "snd w = ActOk"
    using caf_settles [of "fst w" "fst k" "snd k" "[]" Inr d] that by (simp add: caf_attempt_def)
  show "settled_key (fst k) (snd k) (snd (caf_attempt w k' d))" if "settled_key (fst k) (snd k) d"
    using caf_keeps [OF that, of Inr "fst w" "fst k'" "snd k'" "[]" "snd w"] by (simp add: caf_attempt_def)
qed

subsection \<open>The checkpointed send\<close>

definition reply_chunk :: pystr where "reply_chunk = u ''discord.reply_chunk.v1''"

definition lease_ms :: int where "lease_ms = 10 * 60 * 1000"

datatype claim_result = Already pystr | Claimed | Busy | ClaimErr exc

text \<open>\<open>if outcome and outcome != "pending"\<close>.\<close>

definition finished_outcome :: "pystr option \<Rightarrow> bool" where
  "finished_outcome x \<longleftrightarrow> opt_str x \<noteq> [] \<and> x \<noteq> Some (u ''pending'')"

definition claimable :: "int \<Rightarrow> ikey_row \<Rightarrow> bool" where
  "claimable now r \<longleftrightarrow> k_outcome r = Some (u ''pending'') \<and>
     (case k_claim_until r of None \<Rightarrow> True | Some t \<Rightarrow> t \<le> now)"

text \<open>The first transaction: insert the key, return a stored message id, or take the lease.\<close>

definition take_claim :: "int \<Rightarrow> pystr \<Rightarrow> pystr \<Rightarrow> pystr \<Rightarrow> db \<Rightarrow> claim_result \<times> db" where
  "take_claim now sid key owner d =
     (case ikey_session sid d of
        None \<Rightarrow> (ClaimErr (IntegrityErr (u ''idempotency_keys'')), d)
      | Some i \<Rightarrow>
          (let d1 = insert_claim (claim_row now reply_chunk key i Infinity (Some (u ''pending''))) d in
           case ikey_of reply_chunk key d1 of
             None \<Rightarrow> (Busy, d1)
           | Some r \<Rightarrow>
               if finished_outcome (k_outcome r) then (Already (opt_str (k_outcome r)), d1)
               else if claimable now r then
                 (Claimed, upd_ikey reply_chunk key
                    (\<lambda>r. r\<lparr>k_claim_owner := Some owner, k_claim_until := Some (now + lease_ms)\<rparr>) d1)
               else (Busy, d1)))"

text \<open>The recording transaction and the release in the \<open>finally\<close> block: only for the lease's owner.\<close>

definition upd_owned :: "pystr \<Rightarrow> pystr \<Rightarrow> (ikey_row \<Rightarrow> ikey_row) \<Rightarrow> db \<Rightarrow> db" where
  "upd_owned key owner f d =
     d\<lparr>d_ikeys := upd (\<lambda>r. ikey_id r = (reply_chunk, key) \<and> k_claim_owner r = Some owner) f (d_ikeys d)\<rparr>"

definition record_sent :: "pystr \<Rightarrow> pystr \<Rightarrow> pystr \<Rightarrow> db \<Rightarrow> db" where
  "record_sent key owner message_id d =
     upd_owned key owner (\<lambda>r. r\<lparr>k_outcome := Some message_id, k_claim_until := None\<rparr>) d"

definition release_claim :: "pystr \<Rightarrow> pystr \<Rightarrow> db \<Rightarrow> db" where
  "release_claim key owner d = upd_owned key owner (\<lambda>r. r\<lparr>k_claim_until := None\<rparr>) d"

text \<open>
  \<open>send\<close> gives the message id or the exception of the send, with the database as it leaves it; \<open>gap\<close> is
  what others commit meanwhile. The flag tells whether \<open>send\<close> was called.
\<close>

definition send_checkpointed ::
  "int \<Rightarrow> pystr \<Rightarrow> pystr \<Rightarrow> pystr \<Rightarrow> (db \<Rightarrow> pystr result) \<Rightarrow> (nat \<Rightarrow> db \<Rightarrow> db) \<Rightarrow> db \<Rightarrow>
   pystr result \<times> bool \<times> db" where
  "send_checkpointed now sid key owner send gap d =
     (case take_claim now sid key owner d of
        (ClaimErr e, d) \<Rightarrow> (Inl e, False, d)
      | (Already i, d) \<Rightarrow> (Inr i, False, d)
      | (Busy, d) \<Rightarrow> (Inl (HttpErr 409 (u ''reply_chunk_in_progress'')), False, d)
      | (Claimed, d) \<Rightarrow>
          (let d = gap 0 d in
           case send d of
             Inl e \<Rightarrow> (Inl e, True, release_claim key owner (gap 1 d))
           | Inr i \<Rightarrow> (Inr i, True, release_claim key owner (gap 2 (record_sent key owner i (gap 1 d))))))"

text \<open>\<open>settled_chunk\<close>: a message id is stored, which later calls return without sending.\<close>

definition settled_chunk :: "pystr \<Rightarrow> db \<Rightarrow> bool" where
  "settled_chunk key d \<longleftrightarrow> (\<exists>r. ikey_of reply_chunk key d = Some r \<and> finished_outcome (k_outcome r))"

lemma ikey_of_owned:
  assumes "\<And>r. ikey_id (f r) = ikey_id r"
  shows "ikey_of e k (upd_owned key owner f d) =
    (case ikey_of e k d of
       None \<Rightarrow> None
     | Some r \<Rightarrow> Some (if (e, k) = (reply_chunk, key) \<and> k_claim_owner r = Some owner then f r else r))"
proof -
  have *: "ikey_of e k (upd_owned key owner f d) =
      map_option (\<lambda>r. if ikey_id r = (reply_chunk, key) \<and> k_claim_owner r = Some owner then f r else r) (ikey_of e k d)"
    unfolding ikey_of_def upd_owned_def using assms by (simp add: ike.look_change)
  show ?thesis
  proof (cases "ikey_of e k d")
    case (Some r)
    then have "ikey_id r = (e, k)"
      unfolding ikey_of_def by (rule ike.look_key)
    then show ?thesis
      using * Some by simp
  qed (use * in simp)
qed

text \<open>
  The checkpointed send, without interference, is a delivery gate too: \<open>send\<close> is fixed by the outcome,
  and a Discord message id is a nonempty text other than \<open>pending\<close>.
\<close>

record chunk_try =
  ct_now :: int
  ct_owner :: pystr
  ct_send :: "pystr result"

definition message_id_ok :: "pystr result \<Rightarrow> bool" where
  "message_id_ok r = (case r of Inl _ \<Rightarrow> False | Inr i \<Rightarrow> i \<noteq> [] \<and> i \<noteq> u ''pending'')"

definition chunk_attempt :: "chunk_try \<Rightarrow> pystr \<Rightarrow> db \<Rightarrow> bool \<times> db" where
  "chunk_attempt w key d =
     snd (send_checkpointed (ct_now w) [] key (ct_owner w) (\<lambda>_. ct_send w) (\<lambda>_ d. d) d)"

text \<open>\<open>claim_owner = owner, claim_until = now + lease\<close>, and what it leaves of the keys.\<close>

lemma ikey_of_lease:
  "ikey_of e k (upd_ikey ety key (\<lambda>r. r\<lparr>k_claim_owner := ow, k_claim_until := t\<rparr>) d) =
     (if (e, k) = (ety, key) then map_option (\<lambda>r. r\<lparr>k_claim_owner := ow, k_claim_until := t\<rparr>) (ikey_of e k d)
      else ikey_of e k d)"
  by (rule ikey_of_upd) (simp add: ikey_id_def)

lemma settled_lease:
  "settled_chunk k (upd_ikey ety key (\<lambda>r. r\<lparr>k_claim_owner := ow, k_claim_until := t\<rparr>) d) = settled_chunk k d"
  by (auto simp: settled_chunk_def ikey_of_lease)

lemma settled_chunk_insert: "settled_chunk k d \<Longrightarrow> settled_chunk k (insert_claim r d)"
  by (auto simp: settled_chunk_def ikey_of_insert)

lemma take_claim_settled:
  "settled_chunk key d \<Longrightarrow> \<exists>i d'. take_claim now [] key ow d = (Already i, d')"
  by (auto simp: settled_chunk_def take_claim_def ikey_session_def ikey_of_insert Let_def)

lemma take_claim_keeps:
  "settled_chunk k d \<Longrightarrow> settled_chunk k (snd (take_claim now [] key ow d))"
  by (simp add: take_claim_def ikey_session_def Let_def settled_lease settled_chunk_insert split: option.split)

text \<open>A lease taken: the row, with this owner and this deadline.\<close>

lemma take_claim_row:
  assumes "take_claim now [] key ow d = (Claimed, d')"
  shows "\<exists>r. ikey_of reply_chunk key d' = Some r \<and> k_claim_owner r = Some ow \<and>
    k_outcome r = Some (u ''pending'') \<and> k_claim_until r = Some (now + lease_ms)"
proof -
  define d1 where "d1 = insert_claim (claim_row now reply_chunk key None Infinity (Some (u ''pending''))) d"
  obtain r where r: "ikey_of reply_chunk key d1 = Some r"
    by (cases "ikey_of reply_chunk key d") (auto simp: d1_def ikey_of_insert)
  have e: "take_claim now [] key ow d =
      (if finished_outcome (k_outcome r) then (Already (opt_str (k_outcome r)), d1)
       else if claimable now r then
         (Claimed, upd_ikey reply_chunk key
            (\<lambda>r. r\<lparr>k_claim_owner := Some ow, k_claim_until := Some (now + lease_ms)\<rparr>) d1)
       else (Busy, d1))"
    using r by (simp add: take_claim_def ikey_session_def Let_def flip: d1_def)
  then have "claimable now r" and
    "d' = upd_ikey reply_chunk key (\<lambda>r. r\<lparr>k_claim_owner := Some ow, k_claim_until := Some (now + lease_ms)\<rparr>) d1"
    using assms by (auto split: if_splits)
  then show ?thesis
    using r by (simp add: ikey_of_lease claimable_def)
qed

lemma owned_keeps_settled:
  assumes "\<And>r. ikey_id (f r) = ikey_id r" "\<And>r. finished_outcome (k_outcome r) \<Longrightarrow> finished_outcome (k_outcome (f r))"
  shows "settled_chunk k d \<Longrightarrow> settled_chunk k (upd_owned key ow f d)"
  using assms by (auto simp: settled_chunk_def ikey_of_owned)

lemma release_keeps_settled: "settled_chunk k d \<Longrightarrow> settled_chunk k (release_claim key ow d)"
  unfolding release_claim_def by (rule owned_keeps_settled) simp_all

lemma record_sent_settles:
  assumes "ikey_of reply_chunk key d = Some r" "k_claim_owner r = Some ow" "i \<noteq> []" "i \<noteq> u ''pending''"
  shows "settled_chunk key (record_sent key ow i d)"
  using assms by (simp add: settled_chunk_def record_sent_def ikey_of_owned finished_outcome_def)

lemma record_sent_other: "k \<noteq> key \<Longrightarrow> settled_chunk k d \<Longrightarrow> settled_chunk k (record_sent key ow i d)"
  by (auto simp: settled_chunk_def record_sent_def ikey_of_owned)

lemma chunk_attempt_cases:
  obtains (quiet) c d1 where "take_claim (ct_now w) [] key (ct_owner w) d = (c, d1)" "chunk_attempt w key d = (False, d1)"
  | (failed) d1 e where "take_claim (ct_now w) [] key (ct_owner w) d = (Claimed, d1)" "ct_send w = Inl e"
      "chunk_attempt w key d = (True, release_claim key (ct_owner w) d1)"
  | (sent) d1 i where "take_claim (ct_now w) [] key (ct_owner w) d = (Claimed, d1)" "ct_send w = Inr i"
      "chunk_attempt w key d = (True, release_claim key (ct_owner w) (record_sent key (ct_owner w) i d1))"
proof -
  obtain c d1 where t: "take_claim (ct_now w) [] key (ct_owner w) d = (c, d1)"
    by (cases "take_claim (ct_now w) [] key (ct_owner w) d")
  show thesis
  proof (cases "c = Claimed")
    case True
    then show ?thesis
      using t failed sent by (cases "ct_send w") (simp_all add: chunk_attempt_def send_checkpointed_def)
  next
    case False
    then show ?thesis
      using t quiet by (cases c) (simp_all add: chunk_attempt_def send_checkpointed_def)
  qed
qed

interpretation chk: delivery_gate chunk_attempt "\<lambda>w k. message_id_ok (ct_send w)" settled_chunk
proof
  fix w :: chunk_try and k k' :: pystr and d :: db
  show "\<not> fst (chunk_attempt w k d)" if "settled_chunk k d"
    using take_claim_settled [OF that, of "ct_now w" "ct_owner w"]
    by (cases rule: chunk_attempt_cases [of w k d]) auto
  show "settled_chunk k (snd (chunk_attempt w k d))"
    if "fst (chunk_attempt w k d)" "message_id_ok (ct_send w)"
  proof (rule chunk_attempt_cases [of w k d])
    fix d1 i
    assume a: "take_claim (ct_now w) [] k (ct_owner w) d = (Claimed, d1)" "ct_send w = Inr i"
      "chunk_attempt w k d = (True, release_claim k (ct_owner w) (record_sent k (ct_owner w) i d1))"
    then show ?thesis
      using take_claim_row [OF a(1)] record_sent_settles [of k d1 _ "ct_owner w" i] that(2)
      by (auto simp: message_id_ok_def intro: release_keeps_settled)
  qed (use that in \<open>auto simp: message_id_ok_def\<close>)
  show "settled_chunk k (snd (chunk_attempt w k' d))" if s: "settled_chunk k d"
  proof (rule chunk_attempt_cases [of w k' d])
    fix c d1
    assume a: "take_claim (ct_now w) [] k' (ct_owner w) d = (c, d1)" "chunk_attempt w k' d = (False, d1)"
    then show ?thesis
      using take_claim_keeps [OF s, of "ct_now w" k' "ct_owner w"] by simp
  next
    fix d1 e
    assume a: "take_claim (ct_now w) [] k' (ct_owner w) d = (Claimed, d1)"
      "chunk_attempt w k' d = (True, release_claim k' (ct_owner w) d1)"
    then show ?thesis
      using take_claim_keeps [OF s, of "ct_now w" k' "ct_owner w"] by (simp add: release_keeps_settled)
  next
    fix d1 i
    assume a: "take_claim (ct_now w) [] k' (ct_owner w) d = (Claimed, d1)"
      "chunk_attempt w k' d = (True, release_claim k' (ct_owner w) (record_sent k' (ct_owner w) i d1))"
    have "k \<noteq> k'"
      using take_claim_settled [of k' d "ct_now w" "ct_owner w"] s a(1) by auto
    then show ?thesis
      using take_claim_keeps [OF s, of "ct_now w" k' "ct_owner w"] a record_sent_other [of k k' d1]
      by (simp add: release_keeps_settled)
  qed
qed

text \<open>
  Two callers: while the lease of the first runs and nothing is recorded, the second is refused.
\<close>

lemma lease_excludes:
  assumes "take_claim now [] key ow d = (Claimed, d1)" "now' < now + lease_ms"
  shows "fst (take_claim now' [] key ow' d1) = Busy"
proof -
  obtain r where r: "ikey_of reply_chunk key d1 = Some r" "k_outcome r = Some (u ''pending'')"
    "k_claim_until r = Some (now + lease_ms)"
    using take_claim_row [OF assms(1)] by blast
  then show ?thesis
    using assms(2)
    by (simp add: take_claim_def ikey_session_def ikey_of_insert finished_outcome_def claimable_def Let_def)
qed

end
