(* ===== verification/Control_Api.thy ===== *)
theory Control_Api
  imports Delivery Discord_Rest Message_Builder Redaction Samples
begin

text \<open>
  The HTTP handlers of \<open>runner/control_api.py\<close>: the two middlewares, the check of the bind address, the
  preflight, the diff preview with its neutralised git filters, and \<open>post_reply\<close>. HTTP framing is
  left out; a handler returns the exception it raises (\<open>HttpErr\<close> with status and detail) or its
  result.
\<close>

subsection \<open>Middlewares and the bind address\<close>

definition LOOPBACK_IPS :: "pystr list" where "LOOPBACK_IPS = [u ''127.0.0.1'', u ''::1'']"

text \<open>\<open>bind.rsplit(":", 1)[0].strip("[]")\<close>.\<close>

definition bind_host :: "pystr \<Rightarrow> pystr" where
  "bind_host bind =
     strip_by (\<lambda>c. c = 91 \<or> c = 93) (case before_last colon bind of None \<Rightarrow> bind | Some h \<Rightarrow> h)"

definition is_loopback_only :: "pystr \<Rightarrow> bool" where
  "is_loopback_only bind \<longleftrightarrow> bind_host bind \<in> set LOOPBACK_IPS \<or> bind_host bind = u ''localhost''"

definition loopback_only :: "settings \<Rightarrow> pystr option \<Rightarrow> unit result" where
  "loopback_only cfg client =
     (case client of
        None \<Rightarrow> Inl (HttpErr 403 (u ''forbidden: non-loopback client''))
      | Some host \<Rightarrow>
          if is_loopback_only (RUNNER_CONTROL_BIND cfg) \<and> host \<notin> set LOOPBACK_IPS then
            Inl (HttpErr 403 (u ''forbidden: non-loopback client''))
          else Inr ())"

definition bearer_auth :: "settings \<Rightarrow> pystr \<Rightarrow> pystr option \<Rightarrow> unit result" where
  "bearer_auth cfg own_token header =
     (let token = or_str (Some own_token) (Some (RUNNER_CONTROL_AUTH cfg)) in
      if token = [] \<or> opt_str header \<noteq> u ''Bearer '' @ token then Inl (HttpErr 401 (u ''unauthorized''))
      else Inr ())"

text \<open>
  The app registers \<open>BearerAuthMiddleware\<close> with an empty token of its own, and then
  \<open>LoopbackOnlyMiddleware\<close>, which so runs first.
\<close>

definition admitted_request :: "settings \<Rightarrow> pystr option \<Rightarrow> pystr option \<Rightarrow> unit result" where
  "admitted_request cfg client header =
     (case loopback_only cfg client of Inl e \<Rightarrow> Inl e | Inr _ \<Rightarrow> bearer_auth cfg [] header)"

text \<open>
  The address test: an IPv4 address by the three flags, \<open>local6\<close> the same for IPv6 (\<open>None\<close> when the
  text is no address), and the name \<open>localhost\<close>.
\<close>

definition ipv4_local :: "ipv4 \<Rightarrow> bool" where
  "ipv4_local ip \<longleftrightarrow>
     in_net (quad 127 0 0 0) 8 ip \<or> in_net (quad 169 254 0 0) 16 ip \<or>
     (list_ex (\<lambda>(net, len). in_net net len ip) private_nets \<and> ip \<notin> set private_exceptions)"

definition is_private_or_loopback :: "(pystr \<Rightarrow> bool option) \<Rightarrow> pystr \<Rightarrow> bool" where
  "is_private_or_loopback local6 host =
     (case ipv4_of host of
        Some ip \<Rightarrow> ipv4_local ip
      | None \<Rightarrow> (case local6 host of Some b \<Rightarrow> b | None \<Rightarrow> host = u ''localhost''))"

definition startup_validation :: "(pystr \<Rightarrow> bool option) \<Rightarrow> settings \<Rightarrow> unit result" where
  "startup_validation local6 cfg =
     (let host = bind_host (RUNNER_CONTROL_BIND cfg) in
      if RUNNER_CONTROL_AUTH cfg = [] then Inl (RuntimeErr (u ''control_api_auth_required''))
      else if host = u ''0.0.0.0'' \<or> \<not> is_private_or_loopback local6 host then
        Inl (RuntimeErr (u ''control_api_public_bind_refused''))
      else Inr ())"

text \<open>\<open>preflight\<close>: the reason of a refusal, which \<open>ensure_execution_allowed\<close> raises as a \<open>ValueError\<close>.\<close>

fun exc_message :: "exc \<Rightarrow> pystr" where
  "exc_message (ValueErr m) = m"
| "exc_message (ExecutionDenied m) = m"
| "exc_message _ = []"

definition preflight :: "settings \<Rightarrow> pystr option result" where
  "preflight cfg =
     (case ensure_execution_allowed cfg of
        Inl e \<Rightarrow> if is_value_error e then Inr (Some (exc_message e)) else Inl e
      | Inr _ \<Rightarrow> Inr None)"

subsection \<open>The diff preview\<close>

definition DIFF_PREVIEW_MAX_BYTES :: nat where "DIFF_PREVIEW_MAX_BYTES = 64 * 1024"

text \<open>\<open>str.splitlines\<close>: every line boundary of Python, and CR LF as one.\<close>

definition is_linebreak :: "nat \<Rightarrow> bool" where
  "is_linebreak c \<longleftrightarrow> (10 \<le> c \<and> c \<le> 13) \<or> (28 \<le> c \<and> c \<le> 30) \<or> c = 133 \<or> c = 8232 \<or> c = 8233"

fun lines_from :: "pystr \<Rightarrow> pystr \<Rightarrow> pystr list" where
  "lines_from acc [] = (if acc = [] then [] else [acc])"
| "lines_from acc (c # s) =
     (if c = 13 \<and> s \<noteq> [] \<and> hd s = 10 then acc # lines_from [] (tl s)
      else if is_linebreak c then acc # lines_from [] s
      else lines_from (acc @ [c]) s)"

definition splitlines :: "pystr \<Rightarrow> pystr list" where "splitlines s = lines_from [] s"

text \<open>\<open>key.strip()[len("filter."):].rsplit(".", 1)[0]\<close> of the nonblank lines, as a sorted set.\<close>

definition filter_name :: "pystr \<Rightarrow> pystr" where
  "filter_name line =
     (let key = drop 7 (py_strip line) in case before_last dot key of None \<Rightarrow> key | Some n \<Rightarrow> n)"

definition filter_names :: "pystr \<Rightarrow> pystr list" where
  "filter_names listing =
     sort_by lex_le (remdups (map filter_name (filter (\<lambda>l. py_strip l \<noteq> []) (splitlines listing))))"

definition filter_override :: "pystr \<Rightarrow> string \<times> string \<Rightarrow> pystr list" where
  "filter_override name vv =
     [u ''-c'', u ''filter.'' @ name @ u ''.'' @ u (fst vv) @ u ''='' @ u (snd vv)]"

definition OVERRIDES :: "(string \<times> string) list" where
  "OVERRIDES = [(''clean'', []), (''smudge'', []), (''process'', []), (''required'', ''false'')]"

definition neutralized :: "pystr list \<Rightarrow> pystr list" where
  "neutralized names = concat (map (\<lambda>name. concat (map (filter_override name) OVERRIDES)) names)"

text \<open>The listing fails with status 1 when no key matches; other failures are raised again.\<close>

definition neutralized_filter_args :: "exec_outcome \<Rightarrow> exec_outcome + exc + pystr list" where
  "neutralized_filter_args listing =
     (case listing of
        ExecFailed code err out \<Rightarrow> if code = 1 then Inr (Inr []) else Inl listing
      | ExecTimeout \<Rightarrow> Inl ExecTimeout
      | ExecOk out err \<Rightarrow>
          (let names = filter_names out in
           if list_ex (\<lambda>n. 61 \<in> set n \<or> n = []) names then
             Inr (Inl (HttpErr 422 (u ''diff_failed: unsupported filter config'')))
           else Inr (Inr (neutralized names))))"

text \<open>\<open>build_session_lookup\<close> of \<open>runner/main.py\<close>: the session, when it is on this host.\<close>

definition session_lookup :: "settings \<Rightarrow> pystr \<Rightarrow> db \<Rightarrow> session option" where
  "session_lookup cfg sid d =
     (case uuid_of_str sid of
        None \<Rightarrow> None
      | Some i \<Rightarrow>
          (case session_of i d of
             None \<Rightarrow> None
           | Some s \<Rightarrow> if s_host s = Some (RUNNER_HOST_ID cfg) then Some s else None))"

definition diff_argv :: "pystr list \<Rightarrow> pystr \<Rightarrow> pystr list" where
  "diff_argv filter_args realpath =
     [u ''git'', u ''--no-pager'', u ''-c'', u ''core.fsmonitor=false''] @ filter_args @
     [u ''-C'', realpath, u ''diff'', u ''--no-ext-diff'', u ''--no-textconv'', u ''--ignore-submodules=all'',
      u ''--no-color'', u ''--patch'']"

definition listing_argv :: "pystr \<Rightarrow> pystr list" where
  "listing_argv realpath =
     [u ''git'', u ''-C'', realpath, u ''config'', u ''--name-only'', u ''--get-regexp'', u ''^filter'' @ [92, dot]]"

text \<open>\<open>data[:n].decode("utf-8", errors="ignore")\<close>: a character cut in two is dropped.\<close>

fun utf8_take :: "nat \<Rightarrow> pystr \<Rightarrow> pystr" where
  "utf8_take n [] = []"
| "utf8_take n (c # s) = (if utf8_width c \<le> n then c # utf8_take (n - utf8_width c) s else [])"

text \<open>\<open>git\<close> runs a command in an environment; \<open>None\<close> is an \<open>OSError\<close>. The result is the patch and the flag.\<close>

definition diff_preview ::
  "settings \<Rightarrow> (pystr \<Rightarrow> pystr) \<Rightarrow> (pystr \<Rightarrow> bool) \<Rightarrow> env \<Rightarrow> (pystr list \<Rightarrow> env \<Rightarrow> exec_outcome option) \<Rightarrow>
   pystr \<Rightarrow> pystr \<Rightarrow> db \<Rightarrow> (pystr \<times> bool) result" where
  "diff_preview cfg rp isdir environ git sid guild d =
     (case session_lookup cfg sid d of
        None \<Rightarrow> Inl (HttpErr 404 (u ''session_not_found''))
      | Some s \<Rightarrow>
          if fstr (s_guild s) \<noteq> guild then Inl (HttpErr 404 (u ''session_not_found''))
          else
            (let (path, denied) = canonicalize rp (s_realpath s); env = scrub_env environ [];
                 failed = (\<lambda>x. case x of
                   ExecTimeout \<Rightarrow> Inl (HttpErr 504 (u ''diff_timeout''))
                 | _ \<Rightarrow> Inl (HttpErr 422 (u ''diff_failed: workspace is not a readable Git repository'')));
                 no_git = Inl (HttpErr 503 (u ''git_unavailable''))
             in if denied \<noteq> None \<or> \<not> isdir path then Inl (HttpErr 400 (u ''cwd_unavailable''))
                else
                  (case git (listing_argv path) env of
                     None \<Rightarrow> no_git
                   | Some listing \<Rightarrow>
                       (case neutralized_filter_args listing of
                          Inl x \<Rightarrow> failed x
                        | Inr (Inl e) \<Rightarrow> Inl e
                        | Inr (Inr args) \<Rightarrow>
                            (case git (diff_argv args path) env of
                               None \<Rightarrow> no_git
                             | Some (ExecOk out err) \<Rightarrow>
                                 Inr (utf8_take DIFF_PREVIEW_MAX_BYTES out, DIFF_PREVIEW_MAX_BYTES < utf8_len out)
                             | Some x \<Rightarrow> failed x)))))"

subsection \<open>What the preview guarantees\<close>

lemma utf8_take_len: "utf8_len (utf8_take n s) \<le> n"
  by (induction n s rule: utf8_take.induct) (auto simp: utf8_len_def)

lemma utf8_take_prefix: "prefix (utf8_take n s) s"
  by (induction n s rule: utf8_take.induct) auto

lemma utf8_take_all: "utf8_len s \<le> n \<Longrightarrow> utf8_take n s = s"
  by (induction n s rule: utf8_take.induct) (auto simp: utf8_len_def)

lemma insert_by_set [simp]: "set (insert_by le x ys) = insert x (set ys)"
  by (induction ys) auto

lemma sort_by_set [simp]: "set (sort_by le xs) = set xs"
  by (induction xs) (auto simp: sort_by_def)

lemma filter_names_set:
  "line \<in> set (splitlines out) \<Longrightarrow> py_strip line \<noteq> [] \<Longrightarrow> filter_name line \<in> set (filter_names out)"
  by (simp add: filter_names_def)

lemma neutralized_has:
  assumes "name \<in> set names" "vv \<in> set OVERRIDES"
  shows "sublist (filter_override name vv) (neutralized names)"
proof -
  have c: "x \<in> set xs \<Longrightarrow> sublist (f x) (concat (map f xs))" for x :: 'b and f :: "'b \<Rightarrow> pystr list" and xs
    by (auto simp: sublist_def dest!: split_list) metis
  have "sublist (filter_override name vv) (concat (map (filter_override name) OVERRIDES))"
    by (rule c [OF assms(2)])
  also have "sublist \<dots> (neutralized names)"
    unfolding neutralized_def by (rule c [OF assms(1)])
  finally show ?thesis .
qed

text \<open>A key \<open>filter.<name>.<variable>\<close> of the listing: all four overrides of its driver are passed.\<close>

lemma filter_name_key:
  assumes "py_strip line = u ''filter.'' @ name @ dot # var" "dot \<notin> set var"
  shows "filter_name line = name"
proof -
  have "dropWhile (\<lambda>x. x \<noteq> dot) (rev var @ dot # rev name) = dot # rev name"
    using assms(2) by (subst dropWhile_append2) auto
  then show ?thesis
    using assms(1) by (simp add: filter_name_def before_last_def after_first_def)
qed

lemma neutralized_key:
  assumes "neutralized_filter_args (ExecOk out err) = Inr (Inr args)" "line \<in> set (splitlines out)"
    "py_strip line = u ''filter.'' @ name @ dot # var" "dot \<notin> set var" "vv \<in> set OVERRIDES"
  shows "sublist (filter_override name vv) args"
proof -
  have "args = neutralized (filter_names out)"
    using assms(1) by (simp add: neutralized_filter_args_def Let_def split: if_splits)
  moreover have "name \<in> set (filter_names out)"
    using filter_names_set [OF assms(2)] filter_name_key [OF assms(3,4)] assms(3) by auto
  ultimately show ?thesis
    using neutralized_has assms(5) by simp
qed

subsection \<open>The output quota\<close>

text \<open>
  The Lua script of \<open>runner/main.py\<close> on the hash of one session: the field \<open>total\<close>, one field per
  nonce, and the expiry of the key (\<open>None\<close>: the key is absent, or has none).
\<close>

record quota_hash =
  q_total :: "int option"
  q_nonces :: "pystr list"
  q_expire :: "int option"

definition live_quota :: "int \<Rightarrow> quota_hash \<Rightarrow> quota_hash" where
  "live_quota now q =
     (case q_expire q of
        Some t \<Rightarrow> if t \<le> now then \<lparr>q_total = None, q_nonces = [], q_expire = None\<rparr> else q
      | None \<Rightarrow> q)"

definition hexists :: "pystr \<Rightarrow> quota_hash \<Rightarrow> bool" where
  "hexists f q \<longleftrightarrow> (if f = u ''total'' then q_total q \<noteq> None else f \<in> set (q_nonces q))"

definition hset_one :: "pystr \<Rightarrow> quota_hash \<Rightarrow> quota_hash" where
  "hset_one f q = (if f = u ''total'' then q\<lparr>q_total := Some 1\<rparr> else q\<lparr>q_nonces := f # q_nonces q\<rparr>)"

definition total_of :: "quota_hash \<Rightarrow> int" where
  "total_of q = (case q_total q of None \<Rightarrow> 0 | Some n \<Rightarrow> n)"

definition output_quota :: "int \<Rightarrow> int \<Rightarrow> pystr \<Rightarrow> int \<Rightarrow> quota_hash \<Rightarrow> bool \<times> quota_hash" where
  "output_quota limit now nonce sz q =
     (let q = live_quota now q in
      if hexists nonce q then (True, q)
      else if limit < total_of q + sz then (False, q)
      else (let q = hset_one nonce q in
            (True, q\<lparr>q_total := Some (total_of q + sz),
              q_expire := (case q_expire q of None \<Rightarrow> Some (now + 60) | Some t \<Rightarrow> Some t)\<rparr>)))"

text \<open>The sizes charged in the window that is running, each nonce once.\<close>

definition quota_ok :: "int \<Rightarrow> (pystr \<Rightarrow> int) \<Rightarrow> quota_hash \<Rightarrow> bool" where
  "quota_ok limit sz q \<longleftrightarrow> distinct (q_nonces q) \<and> total_of q = sum_list (map sz (q_nonces q)) \<and>
     (total_of q \<le> limit \<or> q_nonces q = [])"

lemma live_quota_ok: "quota_ok limit sz q \<Longrightarrow> quota_ok limit sz (live_quota now q)"
  by (cases "q_expire q") (auto simp: quota_ok_def live_quota_def total_of_def)

lemma output_quota_ok:
  "quota_ok limit sz q \<Longrightarrow> nonce \<noteq> u ''total'' \<Longrightarrow>
   quota_ok limit sz (snd (output_quota limit now nonce (sz nonce) q))"
  using live_quota_ok [of limit sz q now] unfolding output_quota_def
  by (auto simp: Let_def quota_ok_def hset_one_def hexists_def total_of_def)

text \<open>A chunk that was charged is charged once: sending it again within the window is free.\<close>

lemma output_quota_again:
  assumes "output_quota limit now nonce sz q = (True, q')" "\<forall>t. q_expire q' = Some t \<longrightarrow> now' < t"
  shows "output_quota limit now' nonce sz q' = (True, q')"
proof -
  have l: "live_quota now' q' = q'"
    using assms(2) by (auto simp: live_quota_def split: option.split)
  have "hexists nonce q'"
    using assms(1) by (auto simp: output_quota_def Let_def hexists_def hset_one_def split: if_splits)
  then show ?thesis
    unfolding output_quota_def l Let_def by simp
qed

subsection \<open>Posting a reply\<close>

record reply_body =
  rb_text :: pystr
  rb_key :: pystr
  rb_version :: "int option"

text \<open>The field constraints of \<open>ReplyBody\<close>; a body that breaks one is refused with status 422.\<close>

definition reply_body_ok :: "reply_body \<Rightarrow> bool" where
  "reply_body_ok b \<longleftrightarrow> length (rb_text b) \<le> 1000000 \<and> 1 \<le> length (rb_key b) \<and> length (rb_key b) \<le> 200 \<and>
     (case rb_version b of None \<Rightarrow> True | Some v \<Rightarrow> 0 \<le> v)"

text \<open>
  The state of the application: \<open>wired\<close> when lookup, client and limiter are set; \<open>a_word\<close> is the
  Unicode word class from code point 128 on; \<open>a_quota\<close> answers the quota question for a nonce and a size; \<open>a_send\<close> is
  \<open>DiscordRestClient.send_message\<close>.
\<close>

record reply_app =
  a_cfg :: settings
  a_wired :: bool
  a_netloc :: "pystr \<Rightarrow> bool"
  a_word :: "nat \<Rightarrow> bool"
  a_quota :: "pystr \<Rightarrow> nat \<Rightarrow> bool"
  a_send :: "pystr option \<Rightarrow> pystr \<Rightarrow> pystr \<Rightarrow> pystr result"

definition live_status :: "session \<Rightarrow> bool" where
  "live_status s \<longleftrightarrow> s_status s \<in> {Running, Idle}"

text \<open>The guards of \<open>send_chunk\<close>, after the wait for the rate limiter.\<close>

definition chunk_guard :: "reply_app \<Rightarrow> pystr \<Rightarrow> int \<Rightarrow> pystr \<Rightarrow> pystr \<Rightarrow> db \<Rightarrow> unit result" where
  "chunk_guard a sid version nonce content d =
     (case session_lookup (a_cfg a) sid d of
        None \<Rightarrow> Inl (HttpErr 409 (u ''session_version_changed''))
      | Some s \<Rightarrow>
          if \<not> live_status s \<or> s_version s \<noteq> version then Inl (HttpErr 409 (u ''session_version_changed''))
          else
            (case ensure_outbound_allowed (a_cfg a) of
               Inl e \<Rightarrow> Inl e
             | Inr _ \<Rightarrow>
                 if \<not> a_quota a nonce (utf8_len content) then Inl (HttpErr 429 (u ''output_quota''))
                 else Inr ()))"

definition send_chunk ::
  "reply_app \<Rightarrow> pystr \<Rightarrow> pystr option \<Rightarrow> int \<Rightarrow> pystr \<Rightarrow> pystr \<Rightarrow> db \<Rightarrow> pystr result" where
  "send_chunk a sid thread version nonce content d =
     (case chunk_guard a sid version nonce content d of
        Inl e \<Rightarrow> Inl e
      | Inr _ \<Rightarrow> a_send a thread content nonce)"

definition chunk_nonce :: "pystr \<Rightarrow> nat \<Rightarrow> pystr" where
  "chunk_nonce key idx = (if idx = 0 then key else key @ u '':'' @ nat_str idx)"

text \<open>
  The loop over the chunks. \<open>owner idx\<close> is the fresh lease owner, \<open>gap idx\<close> what others commit. The log
  lists the nonces for which \<open>send_chunk\<close> was called.
\<close>

fun post_chunks ::
  "reply_app \<Rightarrow> int \<Rightarrow> (nat \<Rightarrow> pystr) \<Rightarrow> (nat \<Rightarrow> nat \<Rightarrow> db \<Rightarrow> db) \<Rightarrow> pystr \<Rightarrow> pystr \<Rightarrow> pystr option \<Rightarrow> int \<Rightarrow>
   nat \<Rightarrow> pystr list \<Rightarrow> db \<Rightarrow> pystr list result \<times> pystr list \<times> db" where
  "post_chunks a now owner gap sid key thread version idx [] d = (Inr [], [], d)"
| "post_chunks a now owner gap sid key thread version idx (c # cs) d =
     (let nonce = chunk_nonce key idx;
          (r, called, d1) = send_checkpointed now sid (sid @ u '':'' @ nonce) (owner idx)
            (send_chunk a sid thread version nonce c) (gap idx) d;
          sent = (if called then [nonce] else [])
      in case r of
           Inl (PermanentErr st) \<Rightarrow> (Inl (HttpErr 410 (u ''discord_rejected:'' @ int_str st)), sent, d1)
         | Inl e \<Rightarrow> (Inl e, sent, d1)
         | Inr i \<Rightarrow>
             (let (rs, more, d2) = post_chunks a now owner gap sid key thread version (Suc idx) cs d1
              in ((case rs of Inl e \<Rightarrow> Inl e | Inr is \<Rightarrow> Inr (i # is)), sent @ more, d2)))"

text \<open>\<open>build_message(redacted_text) or [""]\<close>.\<close>

definition reply_chunks :: "reply_app \<Rightarrow> pystr \<Rightarrow> pystr list" where
  "reply_chunks a txt =
     (case build_message (a_word a) (apply_common_redaction (a_word a) (a_netloc a) (Some (a_cfg a)) txt) of
        [] \<Rightarrow> [[]] | cs \<Rightarrow> cs)"

definition post_reply ::
  "reply_app \<Rightarrow> int \<Rightarrow> (nat \<Rightarrow> pystr) \<Rightarrow> (nat \<Rightarrow> nat \<Rightarrow> db \<Rightarrow> db) \<Rightarrow> pystr \<Rightarrow> reply_body \<Rightarrow> db \<Rightarrow>
   pystr list result \<times> pystr list \<times> db" where
  "post_reply a now owner gap sid b d =
     (if \<not> reply_body_ok b then (Inl (HttpErr 422 (u ''validation'')), [], d)
      else if \<not> a_wired a then (Inl (HttpErr 503 (u ''reply pipeline not wired'')), [], d)
      else
        (case session_lookup (a_cfg a) sid d of
           None \<Rightarrow> (Inl (HttpErr 404 (u ''session_not_found_or_dead'')), [], d)
         | Some s \<Rightarrow>
             if \<not> live_status s then (Inl (HttpErr 404 (u ''session_not_found_or_dead'')), [], d)
             else if rb_version b \<noteq> None \<and> rb_version b \<noteq> Some (s_version s) then
               (Inl (HttpErr 409 (u ''session_version_changed'')), [], d)
             else if ensure_outbound_allowed (a_cfg a) \<noteq> Inr () then
               (Inl (HttpErr 503 (u ''outbound_disabled'')), [], d)
             else post_chunks a now owner gap sid (rb_key b) (s_thread s) (s_version s) 0
                    (reply_chunks a (rb_text b)) d))"

subsection \<open>A reply that was delivered is not sent again\<close>

definition stored :: "pystr \<Rightarrow> pystr \<Rightarrow> db \<Rightarrow> bool" where
  "stored key i d \<longleftrightarrow> finished_outcome (Some i) \<and>
     (\<exists>r. ikey_of reply_chunk key d = Some r \<and> k_outcome r = Some i)"

lemma stored_insert: "stored k i d \<Longrightarrow> stored k i (insert_claim r d)"
  by (auto simp: stored_def ikey_of_insert)

lemma stored_lease:
  "stored k i (upd_ikey ety key (\<lambda>r. r\<lparr>k_claim_owner := ow, k_claim_until := t\<rparr>) d) = stored k i d"
  by (auto simp: stored_def ikey_of_lease)

lemma stored_take: "stored k i d \<Longrightarrow> stored k i (snd (take_claim now sid key ow d))"
  by (simp add: take_claim_def Let_def stored_lease stored_insert split: option.split)

lemma stored_release: "stored k i (release_claim key ow d) = stored k i d"
  by (auto simp: stored_def release_claim_def ikey_of_owned split: option.split)

lemma stored_record_other: "k \<noteq> key \<Longrightarrow> stored k i (record_sent key ow j d) = stored k i d"
  by (auto simp: stored_def record_sent_def ikey_of_owned split: option.split)

lemma insert_claim_present: "ikey_of e k d = Some r' \<Longrightarrow> ikey_id r = (e, k) \<Longrightarrow> insert_claim r d = d"
  unfolding insert_claim_def ikey_of_def ins_or_skip_def by simp

lemma take_claim_stored:
  assumes "stored key i d" "ikey_session sid d = Some s"
  shows "take_claim now sid key ow d = (Already i, d)"
proof -
  obtain r where r: "ikey_of reply_chunk key d = Some r" "k_outcome r = Some i" "finished_outcome (Some i)"
    using assms(1) by (auto simp: stored_def)
  show ?thesis
    using r assms(2) by (simp add: take_claim_def insert_claim_present [OF r(1)])
qed

lemma take_claim_already:
  assumes "take_claim now sid key ow d = (Already i, d')"
  shows "stored key i d'"
proof -
  obtain r where "ikey_of reply_chunk key d' = Some r" "finished_outcome (k_outcome r)" "i = opt_str (k_outcome r)"
    using assms by (auto simp: take_claim_def Let_def split: option.splits if_splits)
  then show ?thesis
    by (cases "k_outcome r") (auto simp: stored_def finished_outcome_def)
qed

text \<open>A lease taken gives its owner the row.\<close>

lemma take_claim_owned:
  assumes "take_claim now sid key ow d = (Claimed, d')"
  shows "\<exists>r. ikey_of reply_chunk key d' = Some r \<and> k_claim_owner r = Some ow"
  using assms by (auto simp: take_claim_def Let_def ikey_of_lease split: option.splits if_splits)

lemma record_sent_stored:
  assumes "take_claim now sid key ow d = (Claimed, d1)" "i \<noteq> []" "i \<noteq> u ''pending''"
  shows "stored key i (record_sent key ow i d1)"
  using take_claim_owned [OF assms(1)] assms(2,3)
  by (auto simp: stored_def record_sent_def ikey_of_owned finished_outcome_def)

text \<open>The checkpointed send without interference.\<close>

abbreviation alone :: "nat \<Rightarrow> db \<Rightarrow> db" where "alone \<equiv> \<lambda>_ d. d"

lemma checkpoint_stored:
  "stored key i d \<Longrightarrow> ikey_session sid d = Some s \<Longrightarrow>
   send_checkpointed now sid key ow send gap d = (Inr i, False, d)"
  by (simp add: send_checkpointed_def take_claim_stored)

lemma checkpoint_cases:
  obtains (quiet) c d1 where "take_claim now sid key ow d = (c, d1)" "c \<noteq> Claimed"
    "send_checkpointed now sid key ow send alone d =
       ((case c of ClaimErr e \<Rightarrow> Inl e | Already i \<Rightarrow> Inr i
         | _ \<Rightarrow> Inl (HttpErr 409 (u ''reply_chunk_in_progress''))), False, d1)"
  | (failed) d1 e where "take_claim now sid key ow d = (Claimed, d1)" "send d1 = Inl e"
      "send_checkpointed now sid key ow send alone d = (Inl e, True, release_claim key ow d1)"
  | (sent) d1 i where "take_claim now sid key ow d = (Claimed, d1)" "send d1 = Inr i"
      "send_checkpointed now sid key ow send alone d = (Inr i, True, release_claim key ow (record_sent key ow i d1))"
proof -
  obtain c d1 where t: "take_claim now sid key ow d = (c, d1)"
    by (cases "take_claim now sid key ow d")
  show thesis
  proof (cases "c = Claimed")
    case True
    then show ?thesis
      using t failed sent by (cases "send d1") (simp_all add: send_checkpointed_def)
  next
    case False
    then show ?thesis
      using t quiet by (cases c) (simp_all add: send_checkpointed_def)
  qed
qed

lemma checkpoint_keeps:
  assumes "stored k i d" "ikey_session sid d = Some s"
  shows "stored k i (snd (snd (send_checkpointed now sid key ow send alone d)))"
proof (cases rule: checkpoint_cases [of now sid key ow d send])
  case (quiet c d1)
  then show ?thesis
    using stored_take [OF assms(1), of now sid key ow] by simp
next
  case (failed d1 e)
  then show ?thesis
    using stored_take [OF assms(1), of now sid key ow] by (simp add: stored_release)
next
  case (sent d1 j)
  have "k \<noteq> key"
    using take_claim_stored [OF assms, of now ow] assms sent(1) take_claim_stored by fastforce
  then show ?thesis
    using stored_take [OF assms(1), of now sid key ow] sent by (simp add: stored_release stored_record_other)
qed

lemma checkpoint_stores:
  assumes "send_checkpointed now sid key ow send alone d = (Inr i, c, d')"
    "\<And>d j. send d = Inr j \<Longrightarrow> j \<noteq> [] \<and> j \<noteq> u ''pending''"
  shows "stored key i d'"
proof (cases rule: checkpoint_cases [of now sid key ow d send])
  case (quiet c1 d1)
  then show ?thesis
    using assms(1) take_claim_already [of now sid key ow d i d1] by (cases c1) auto
next
  case (failed d1 e)
  then show ?thesis
    using assms(1) by simp
next
  case (sent d1 j)
  then show ?thesis
    using assms record_sent_stored [OF sent(1), of j] by (auto simp: stored_release)
qed

lemma checkpoint_sessions:
  "d_sessions (snd (snd (send_checkpointed now sid key ow send alone d))) = d_sessions d"
proof -
  have t: "d_sessions (snd (take_claim now sid key ow d)) = d_sessions d"
    by (simp add: take_claim_def insert_claim_def upd_ikey_def Let_def split: option.split)
  show ?thesis
    by (cases rule: checkpoint_cases [of now sid key ow d send])
      (use t in \<open>auto simp: release_claim_def record_sent_def upd_owned_def\<close>)
qed

lemma uuid_of_Nil: "uuid_of_str [] = None"
  by (simp add: uuid_of_str_def strip_by_def lstrip_by_def rstrip_by_def)

lemma session_frame: "d_sessions d' = d_sessions d \<Longrightarrow> session_of i d' = session_of i d"
  by (simp add: session_of_def)

lemma ikey_session_frame: "d_sessions d' = d_sessions d \<Longrightarrow> ikey_session sid d' = ikey_session sid d"
  by (simp add: ikey_session_def session_frame [of d' d] split: option.split)

lemma lookup_frame: "d_sessions d' = d_sessions d \<Longrightarrow> session_lookup cfg sid d' = session_lookup cfg sid d"
  by (simp add: session_lookup_def session_frame [of d' d] split: option.split)

text \<open>The keys of the chunks from \<open>idx\<close> on, with the message ids stored for them.\<close>

definition all_stored :: "pystr \<Rightarrow> pystr \<Rightarrow> nat \<Rightarrow> pystr list \<Rightarrow> db \<Rightarrow> bool" where
  "all_stored sid key idx ids d \<longleftrightarrow>
     (\<forall>j < length ids. stored (sid @ u '':'' @ chunk_nonce key (idx + j)) (ids ! j) d)"

lemma all_stored_Cons:
  "all_stored sid key idx (i # is) d \<longleftrightarrow>
     stored (sid @ u '':'' @ chunk_nonce key idx) i d \<and> all_stored sid key (Suc idx) is d"
  by (auto simp: all_stored_def less_Suc_eq_0_disj nth_Cons')

lemma post_chunks_again:
  "all_stored sid key idx ids d \<Longrightarrow> length ids = length cs \<Longrightarrow> ikey_session sid d = Some s \<Longrightarrow>
   post_chunks a now owner gap sid key thread version idx cs d = (Inr ids, [], d)"
proof (induction cs arbitrary: idx ids)
  case (Cons c cs)
  then obtain i "is" where ids: "ids = i # is"
    by (cases ids) auto
  have "post_chunks a now owner gap sid key thread version (Suc idx) cs d = (Inr is, [], d)"
    using Cons by (simp add: ids all_stored_Cons)
  then show ?case
    using Cons.prems checkpoint_stored [of "sid @ u '':'' @ chunk_nonce key idx" i d sid s]
    by (simp add: ids all_stored_Cons Let_def)
qed simp

lemma post_chunks_Cons:
  obtains (stop) r called d1 e where
    "send_checkpointed now sid (sid @ u '':'' @ chunk_nonce key idx) (owner idx)
       (send_chunk a sid thread version (chunk_nonce key idx) c) (gap idx) d = (Inl r, called, d1)"
    "post_chunks a now owner gap sid key thread version idx (c # cs) d =
       (Inl e, if called then [chunk_nonce key idx] else [], d1)"
  | (go) i called d1 rs more d2 where
    "send_checkpointed now sid (sid @ u '':'' @ chunk_nonce key idx) (owner idx)
       (send_chunk a sid thread version (chunk_nonce key idx) c) (gap idx) d = (Inr i, called, d1)"
    "post_chunks a now owner gap sid key thread version (Suc idx) cs d1 = (rs, more, d2)"
    "post_chunks a now owner gap sid key thread version idx (c # cs) d =
       ((case rs of Inl e \<Rightarrow> Inl e | Inr is \<Rightarrow> Inr (i # is)),
        (if called then [chunk_nonce key idx] else []) @ more, d2)"
proof -
  obtain r called d1 where c: "send_checkpointed now sid (sid @ u '':'' @ chunk_nonce key idx) (owner idx)
      (send_chunk a sid thread version (chunk_nonce key idx) c) (gap idx) d = (r, called, d1)"
    using prod_cases3 by blast
  show thesis
  proof (cases r)
    case (Inl e)
    then show ?thesis
      using c stop by (cases e) (simp_all add: Let_def)
  next
    case (Inr i)
    obtain rs more d2 where "post_chunks a now owner gap sid key thread version (Suc idx) cs d1 = (rs, more, d2)"
      using prod_cases3 by blast
    then show ?thesis
      using c Inr go by (simp add: Let_def)
  qed
qed

text \<open>What a loop without interference leaves of the sessions and of the ids stored before.\<close>

lemma post_chunks_frame:
  "ikey_session sid d = Some s \<Longrightarrow>
   post_chunks a now owner (\<lambda>_. alone) sid key thread version idx cs d = (r, sent, d') \<Longrightarrow>
   d_sessions d' = d_sessions d \<and> (\<forall>k i. stored k i d \<longrightarrow> stored k i d')"
proof (induction cs arbitrary: idx d r sent d')
  case (Cons c cs)
  show ?case
  proof (cases rule: post_chunks_Cons [of now sid key idx owner a thread version c "\<lambda>_. alone" d cs])
    case (stop r1 called d1 e)
    then show ?thesis
      using Cons.prems checkpoint_keeps [OF _ Cons.prems(1)] checkpoint_sessions
      by (metis prod.inject snd_conv)
  next
    case (go i called d1 rs more d2)
    have d1: "d_sessions d1 = d_sessions d" "\<forall>k i. stored k i d \<longrightarrow> stored k i d1"
      using go(1) checkpoint_keeps [OF _ Cons.prems(1)] checkpoint_sessions by (metis snd_conv)+
    have "d_sessions d2 = d_sessions d1 \<and> (\<forall>k i. stored k i d1 \<longrightarrow> stored k i d2)"
      using Cons.IH [OF _ go(2)] Cons.prems(1) ikey_session_frame [OF d1(1)] by simp
    then show ?thesis
      using d1 go(3) Cons.prems(2) by simp
  qed
qed simp

lemma post_chunks_stores:
  assumes "\<And>t c n i. a_send a t c n = Inr i \<Longrightarrow> i \<noteq> [] \<and> i \<noteq> u ''pending''"
  shows "ikey_session sid d = Some s \<Longrightarrow>
   post_chunks a now owner (\<lambda>_. alone) sid key thread version idx cs d = (Inr ids, sent, d') \<Longrightarrow>
   length ids = length cs \<and> all_stored sid key idx ids d'"
proof (induction cs arbitrary: idx d ids sent)
  case Nil
  then show ?case
    by (simp add: all_stored_def)
next
  case (Cons c cs)
  show ?case
  proof (cases rule: post_chunks_Cons [of now sid key idx owner a thread version c "\<lambda>_. alone" d cs])
    case (stop r1 called d1 e)
    then show ?thesis
      using Cons.prems by simp
  next
    case (go i called d1 rs more d2)
    have s1: "ikey_session sid d1 = Some s"
      using checkpoint_sessions go(1) ikey_session_frame Cons.prems(1) by (metis snd_conv)
    obtain js where js: "rs = Inr js" "ids = i # js" "d2 = d'"
      using go(3) Cons.prems(2) by (cases rs) auto
    have st: "stored (sid @ u '':'' @ chunk_nonce key idx) i d1"
    proof (rule checkpoint_stores [OF go(1)])
      show "j \<noteq> [] \<and> j \<noteq> u ''pending''"
        if "send_chunk a sid thread version (chunk_nonce key idx) c d = Inr j" for d j
        using that assms by (auto simp: send_chunk_def split: sum.splits)
    qed
    then show ?thesis
      using Cons.IH [OF s1] post_chunks_frame [OF s1] go(2) js by (auto simp: all_stored_Cons)
  qed
qed

text \<open>A second call with the same key and text sends nothing and answers the same ids.\<close>

lemma post_reply_again:
  assumes ids: "\<And>t c n i. a_send a t c n = Inr i \<Longrightarrow> i \<noteq> [] \<and> i \<noteq> u ''pending''"
    and first: "post_reply a now owner (\<lambda>_. alone) sid b d = (Inr is, sent, d')"
  shows "post_reply a now' owner' gap sid b d' = (Inr is, [], d')"
proof -
  obtain s where s: "session_lookup (a_cfg a) sid d = Some s"
    using first by (cases "session_lookup (a_cfg a) sid d") (auto simp: post_reply_def split: if_splits)
  then obtain i where "uuid_of_str sid = Some i" "session_of i d = Some s"
    by (auto simp: session_lookup_def split: option.splits if_splits)
  then have i: "ikey_session sid d = Some (Some i)"
    using uuid_of_Nil by (auto simp: ikey_session_def)
  have c: "post_chunks a now owner (\<lambda>_. alone) sid (rb_key b) (s_thread s) (s_version s) 0
      (reply_chunks a (rb_text b)) d = (Inr is, sent, d')"
    using first s by (simp add: post_reply_def split: if_splits)
  have f: "d_sessions d' = d_sessions d"
    using post_chunks_frame [OF i c] by simp
  show ?thesis
    using post_chunks_stores [OF ids i c] post_chunks_again first s i
      lookup_frame [OF f] ikey_session_frame [OF f]
    by (simp add: post_reply_def split: if_splits)
qed

subsection \<open>Properties\<close>

definition sample_app :: reply_app where
  "sample_app =
     \<lparr>a_cfg = sample_cfg\<lparr>RUNNER_HOST_ID := u ''h''\<rparr>, a_wired = True, a_netloc = (\<lambda>_. True),
      a_word = (\<lambda>c. 97 \<le> c \<and> c \<le> 122), a_quota = (\<lambda>_ _. True), a_send = (\<lambda>_ _ _. Inr (u ''m1''))\<rparr>"

definition sample_body :: reply_body where
  "sample_body = \<lparr>rb_text = u ''done'', rb_key = u ''k1'', rb_version = Some 1\<rparr>"

lemma sample_redacted:
  "apply_common_redaction (a_word sample_app) (a_netloc sample_app) (Some (a_cfg sample_app)) (u ''done'') = u ''done''"
  by (simp add: apply_common_short)

lemma sample_post_at:
  assumes "d_sessions d = d_sessions sample_db" "d_ikeys d = []"
  shows "\<exists>d'. post_reply sample_app 5 (\<lambda>_. u ''o'') (\<lambda>_. alone) (uuid_str 1) sample_body d = (Inr [u ''m1''], [u ''k1''], d') \<and>
    d_sessions d' = d_sessions d \<and> d_turns d' = d_turns d"
proof -
  have ok: "reply_body_ok sample_body"
    by (simp add: reply_body_ok_def sample_body_def)
  have look: "session_lookup (a_cfg sample_app) (uuid_str 1) e = Some sample_session" if "d_sessions e = d_sessions sample_db" for e
    using that by (simp add: session_lookup_def sample_app_def session_of_def sample_defs)
  have out: "ensure_outbound_allowed (a_cfg sample_app) = Inr ()"
    by (simp add: ensure_outbound_allowed_def sample_app_def sample_defs)
  have chunks: "reply_chunks sample_app (rb_text sample_body) = [u ''done'']"
    by (simp add: reply_chunks_def sample_redacted sample_body_def build_message_def build_loop_short)
  have new: "ikey_of reply_chunk key (insert_claim (claim_row 5 reply_chunk key s x oc) d) =
      Some (claim_row 5 reply_chunk key s x oc)" for key s x oc
    by (simp add: ikey_of_insert) (simp add: ikey_of_def assms)
  have i: "ikey_session (uuid_str 1) d = Some (Some 1)"
    using sample_session_of session_frame [OF assms(1)] by (simp add: ikey_session_def)
  have c: "\<exists>d1. take_claim 5 (uuid_str 1) key (u ''o'') d = (Claimed, d1) \<and> d_sessions d1 = d_sessions d \<and> d_turns d1 = d_turns d" for key
    by (simp add: take_claim_def i new finished_outcome_def Let_def)
      (simp add: claim_row_def insert_claim_def upd_ikey_def claimable_def)
  have "send_chunk sample_app (uuid_str 1) (Some (u ''th'')) 1 n t e = Inr (u ''m1'')"
    if "d_sessions e = d_sessions sample_db" for n t e
    using out by (simp add: send_chunk_def chunk_guard_def look [OF that] live_status_def)
      (simp add: sample_session_def sample_app_def)
  then have "\<exists>d'. send_checkpointed 5 (uuid_str 1) key (u ''o'') (send_chunk sample_app (uuid_str 1) (Some (u ''th'')) 1 n t)
      alone d = (Inr (u ''m1''), True, d') \<and> d_sessions d' = d_sessions d \<and> d_turns d' = d_turns d" for key n t
    using c [of key] by (auto simp: send_checkpointed_def assms(1) record_sent_def release_claim_def upd_owned_def upd_ikey_def)
  then obtain d' where "send_checkpointed 5 (uuid_str 1) (uuid_str 1 @ u '':'' @ u ''k1'') (u ''o'')
      (send_chunk sample_app (uuid_str 1) (Some (u ''th'')) 1 (u ''k1'') (u ''done'')) alone d = (Inr (u ''m1''), True, d')"
    "d_sessions d' = d_sessions d" "d_turns d' = d_turns d"
    by blast
  then have "post_chunks sample_app 5 (\<lambda>_. u ''o'') (\<lambda>_. alone) (uuid_str 1) (u ''k1'') (Some (u ''th'')) 1 0
      [u ''done''] d = (Inr [u ''m1''], [u ''k1''], d')" "d_sessions d' = d_sessions d" "d_turns d' = d_turns d"
    by (simp_all add: chunk_nonce_def)
  moreover have "live_status sample_session" "s_version sample_session = 1" "s_thread sample_session = Some (u ''th'')"
      "rb_key sample_body = u ''k1''" "rb_version sample_body = Some 1" "a_wired sample_app"
    by (simp_all add: live_status_def sample_session_def sample_body_def sample_app_def)
  ultimately show ?thesis
    using ok out chunks look [OF assms(1)] by (simp add: post_reply_def)
qed

text \<open>A reply is posted once: when a call has stored every message id, a later call with the same body, by
  any worker and whatever is committed meanwhile between its transactions, sends nothing and answers
  the same ids.\<close>

lemma reply_is_posted_once:
  assumes "\<And>t c n i. a_send a t c n = Inr i \<Longrightarrow> i \<noteq> [] \<and> i \<noteq> u ''pending''"
    and "post_reply a now owner (\<lambda>_. alone) sid b d = (Inr ids, sent, d')"
  shows "post_reply a now' owner' gap sid b d' = (Inr ids, [], d')"
  using assms by (rule post_reply_again)

lemma reply_lease_is_exclusive_parts:
  assumes "take_claim now [] key ow d = (Claimed, d1)" "ow' \<noteq> ow"
  shows "now' < now + lease_ms \<Longrightarrow> fst (take_claim now' [] key ow' d1) = Busy"
    "ikey_of reply_chunk key (record_sent key ow' i d1) = ikey_of reply_chunk key d1"
    "ikey_of reply_chunk key (release_claim key ow' d1) = ikey_of reply_chunk key d1"
proof -
  show "now' < now + lease_ms \<Longrightarrow> fst (take_claim now' [] key ow' d1) = Busy"
    by (rule lease_excludes [OF assms(1)])
  obtain r where r: "ikey_of reply_chunk key d1 = Some r" "k_claim_owner r = Some ow"
    using take_claim_row [OF assms(1)] by blast
  then show "ikey_of reply_chunk key (record_sent key ow' i d1) = ikey_of reply_chunk key d1"
    "ikey_of reply_chunk key (release_claim key ow' d1) = ikey_of reply_chunk key d1"
    using assms(2) by (simp_all add: record_sent_def release_claim_def ikey_of_owned)
qed


lemma sample_claim: "take_claim 0 [] (u ''k'') (u ''a'') empty_db = (Claimed, snd (take_claim 0 [] (u ''k'') (u ''a'') empty_db))"
  by code_simp


text \<open>C31. The diff preview runs no filter driver of the repository's configuration: for every key
  \<open>filter.name.variable\<close> that the listing shows, the four overrides of that driver are among the
  arguments of the diff command.\<close>

theorem listed_filters_are_neutralized:
  assumes "neutralized_filter_args (ExecOk out err) = Inr (Inr args)" "line \<in> set (splitlines out)"
    "py_strip line = u ''filter.'' @ name @ dot # var" "dot \<notin> set var" "vv \<in> set OVERRIDES"
  shows "sublist (filter_override name vv) (diff_argv args path)"
proof -
  obtain xs ys where "args = xs @ filter_override name vv @ ys"
    using neutralized_key [OF assms] by (auto simp: sublist_def)
  then have "diff_argv args path = ([u ''git'', u ''--no-pager'', u ''-c'', u ''core.fsmonitor=false''] @ xs) @
      filter_override name vv @ (ys @ drop 4 (diff_argv [] path))"
    by (simp add: diff_argv_def)
  then show ?thesis
    by (metis sublist_appendI)
qed

theorem listed_filters_are_neutralized_witness:
  "sublist [u ''-c'', u ''filter.lfs.smudge='']
     (diff_argv (neutralized [u ''lfs'']) (u ''/srv/p''))"
proof -
  have l: "splitlines (u ''filter.lfs.smudge'') = [u ''filter.lfs.smudge'']"
    by (simp add: splitlines_def u_def is_linebreak_def)
  have s: "py_strip (u ''filter.lfs.smudge'') = u ''filter.lfs.smudge''"
    by (rule py_strip_idem_on) (simp_all add: u_def is_space_def)
  have n: "filter_name (u ''filter.lfs.smudge'') = u ''lfs''"
    using filter_name_key [of "u ''filter.lfs.smudge''" "u ''lfs''" "u ''smudge''"] s by (simp add: u_def)
  have a: "neutralized_filter_args (ExecOk (u ''filter.lfs.smudge'') []) = Inr (Inr (neutralized [u ''lfs'']))"
    by (simp add: neutralized_filter_args_def filter_names_def l s n sort_by_def) (simp add: u_def)
  have d: "u ''filter.lfs.smudge'' = u ''filter.'' @ u ''lfs'' @ dot # u ''smudge''" "dot \<notin> set (u ''smudge'')"
    "(''smudge'', []) \<in> set OVERRIDES"
    by (simp_all add: u_def OVERRIDES_def)
  show ?thesis
    using listed_filters_are_neutralized [OF a _ _ d(2,3), of "u ''filter.lfs.smudge''" "u ''lfs''"] l s d(1)
    by (simp add: filter_override_def flip: u_append)
qed

text \<open>The output budget of a session: over any sequence of calls the bytes charged in the running window
  are those of distinct chunks and stay within the limit, and a chunk that was accepted is accepted
  again for free within the window.\<close>

theorem output_budget_respected:
  assumes "quota_ok limit sz q" "nonce \<noteq> u ''total''" "output_quota limit now nonce (sz nonce) q = (ok, q')"
  shows "quota_ok limit sz q'"
    "ok \<Longrightarrow> q_expire q' = Some t \<Longrightarrow> now' < t \<Longrightarrow> output_quota limit now' nonce (sz nonce) q' = (True, q')"
  using output_quota_ok [OF assms(1,2), of now] output_quota_again [of limit now nonce "sz nonce" q q' now'] assms(3)
  by simp_all

theorem output_budget_respected_witness:
  "quota_ok 10 (\<lambda>_. 6) (snd (output_quota 10 0 (u ''n'') 6 \<lparr>q_total = None, q_nonces = [], q_expire = None\<rparr>))"
proof (rule output_budget_respected(1))
  show "quota_ok 10 (\<lambda>_. 6) \<lparr>q_total = None, q_nonces = [], q_expire = None\<rparr>"
    by (simp add: quota_ok_def total_of_def)
qed (simp_all add: prod_eq_iff)

end
