(* ===== verification/Streams.thy ===== *)
theory Streams
  imports Domain
begin

text \<open>
  The consumer groups of the program: \<open>queues/consumers/runner_cg.py\<close> over a Redis stream, what
  \<open>_process_runner_message\<close> (\<open>runner/main.py\<close>) and \<open>_process_dispatcher_message\<close>
  (\<open>dispatcher/main.py\<close>) do with a message after its handler, and the replay of a dead letter
  (\<open>scripts/recover_dispatcher.py\<close>). Both are instances of \<open>stream_worker\<close>: no message is lost.
\<close>

subsection \<open>Messages\<close>

text \<open>\<open>json.loads\<close> of the payload field: an error, a value that is no object, or an object.\<close>

datatype json_doc = BadJson | NotObject | Object payload

record fields =
  fd_type :: "pystr option"
  fd_payload :: "json_doc option"

subsection \<open>The group\<close>

text \<open>
  A message is new, pending with its delivery count, acknowledged, or retained in the dead-letter
  hash (and acknowledged).
\<close>

record 'f cgroup =
  g_new :: "(nat \<times> 'f) list"
  g_pending :: "(nat \<times> 'f \<times> nat) list"
  g_acked :: "nat list"
  g_dead :: "(nat \<times> 'f) list"

definition pending_ids :: "'f cgroup \<Rightarrow> nat set" where
  "pending_ids g = fst ` set (g_pending g)"

definition read_new :: "nat \<Rightarrow> 'f cgroup \<Rightarrow> (nat \<times> 'f) list \<times> 'f cgroup" where
  "read_new count g =
     (take count (g_new g),
      g\<lparr>g_new := drop count (g_new g),
        g_pending := g_pending g @ map (\<lambda>(m, f). (m, f, 1)) (take count (g_new g))\<rparr>)"

text \<open>\<open>XAUTOCLAIM\<close> of at most ten messages that have been idle for long enough.\<close>

definition claim_pending :: "(nat \<Rightarrow> bool) \<Rightarrow> 'f cgroup \<Rightarrow> (nat \<times> 'f) list \<times> 'f cgroup" where
  "claim_pending idle g =
     (let taken = take 10 (filter (\<lambda>(m, f, n). idle m) (g_pending g)); ids = map fst taken
      in (map (\<lambda>(m, f, n). (m, f)) taken,
          g\<lparr>g_pending := map (\<lambda>(m, f, n). (m, f, if m \<in> set ids then Suc n else n)) (g_pending g)\<rparr>))"

definition ack :: "nat \<Rightarrow> 'f cgroup \<Rightarrow> 'f cgroup" where
  "ack m g =
     (if m \<in> pending_ids g then
        g\<lparr>g_pending := filter (\<lambda>(m', f, n). m' \<noteq> m) (g_pending g), g_acked := m # g_acked g\<rparr>
      else g)"

text \<open>\<open>HSET\<close> and \<open>XACK\<close> in one transaction.\<close>

definition dead_letter :: "nat \<Rightarrow> 'f \<Rightarrow> 'f cgroup \<Rightarrow> 'f cgroup" where
  "dead_letter m f g = ack m (g\<lparr>g_dead := AList.update m f (g_dead g)\<rparr>)"

text \<open>\<open>delivery_count\<close>: 0 for an unknown message and when Redis fails.\<close>

definition delivery_count :: "bool \<Rightarrow> nat \<Rightarrow> 'f cgroup \<Rightarrow> nat" where
  "delivery_count redis_ok m g =
     (if \<not> redis_ok then 0
      else (case map_of (g_pending g) m of None \<Rightarrow> 0 | Some (f, n) \<Rightarrow> n))"

subsection \<open>The two processors\<close>

definition process_dispatcher ::
  "nat \<Rightarrow> bool \<Rightarrow> nat \<Rightarrow> 'f \<Rightarrow> bool result \<Rightarrow> 'f cgroup \<Rightarrow> 'f cgroup" where
  "process_dispatcher max_deliveries redis_ok m f handled g =
     (case handled of
        Inr True \<Rightarrow> ack m g
      | _ \<Rightarrow> if max_deliveries \<le> delivery_count redis_ok m g then dead_letter m f g else g)"

text \<open>\<open>local\<close> counts this process's own attempts, so that a failing Redis does not disable the budget.\<close>

definition process_runner ::
  "nat \<Rightarrow> bool \<Rightarrow> nat \<Rightarrow> 'f \<Rightarrow> bool result \<Rightarrow> (nat \<Rightarrow> nat) \<times> 'f cgroup \<Rightarrow> (nat \<Rightarrow> nat) \<times> 'f cgroup" where
  "process_runner max_deliveries redis_ok m f handled st =
     (let (attempts, g) = st in
      case handled of
        Inr True \<Rightarrow> (attempts(m := 0), ack m g)
      | _ \<Rightarrow>
          if max_deliveries \<le> max (attempts m) (delivery_count redis_ok m g) then
            (attempts(m := 0), dead_letter m f g)
          else (attempts, g))"

definition runner_round ::
  "nat \<Rightarrow> bool \<Rightarrow> nat \<Rightarrow> 'f \<Rightarrow> bool result \<Rightarrow> (nat \<Rightarrow> nat) \<times> 'f cgroup \<Rightarrow> (nat \<Rightarrow> nat) \<times> 'f cgroup" where
  "runner_round max_deliveries redis_ok m f handled st =
     process_runner max_deliveries redis_ok m f handled ((fst st)(m := Suc (fst st m)), snd st)"

text \<open>The replay of a retained entry: a new stream entry, and the retained one is deleted.\<close>

definition replay :: "nat \<Rightarrow> nat \<Rightarrow> 'f cgroup \<Rightarrow> bool \<times> 'f cgroup" where
  "replay m fresh g =
     (case map_of (g_dead g) m of
        None \<Rightarrow> (False, g)
      | Some f \<Rightarrow> (True, g\<lparr>g_new := g_new g @ [(fresh, f)], g_dead := AList.delete m (g_dead g)\<rparr>))"

subsection \<open>The contract of a processor\<close>

text \<open>Where a message is: every message stays in the group, and is retained when it was not handled.\<close>

definition known :: "'f cgroup \<Rightarrow> nat set" where
  "known g = fst ` set (g_new g) \<union> pending_ids g \<union> set (g_acked g)"

lemma known_ack [simp]: "known (ack m g) = known g"
  by (force simp: known_def ack_def pending_ids_def)

lemma pending_ack: "pending_ids (ack m g) = pending_ids g - {m}"
  by (force simp: ack_def pending_ids_def)

lemma known_dead [simp]: "known (dead_letter m f g) = known g"
  unfolding dead_letter_def known_ack by (simp add: known_def pending_ids_def)

lemma pending_dead: "pending_ids (dead_letter m f g) = pending_ids g - {m}"
  unfolding dead_letter_def pending_ack by (simp add: pending_ids_def)

lemma dead_of_dead: "map_of (g_dead (dead_letter m f g)) k = (if k = m then Some f else map_of (g_dead g) k)"
  by (simp add: dead_letter_def ack_def update_conv')

lemma dead_ack [simp]: "g_dead (ack m g) = g_dead g"
  by (simp add: ack_def)

lemma known_read: "known (snd (read_new n g)) = known g"
proof -
  have "fst ` set (g_new g) = fst ` set (take n (g_new g)) \<union> fst ` set (drop n (g_new g))"
    by (metis append_take_drop_id image_Un set_append)
  then show ?thesis
    by (auto simp: known_def pending_ids_def read_new_def image_Un image_image case_prod_beta)
qed

lemma known_claim: "known (snd (claim_pending idle g)) = known g"
  by (simp add: known_def pending_ids_def claim_pending_def Let_def image_image case_prod_beta)

text \<open>A run of the consumer: the deliveries, each with the outcome of its handler.\<close>

primrec run_worker :: "('w \<Rightarrow> nat \<Rightarrow> 'f \<Rightarrow> bool result \<Rightarrow> 's \<Rightarrow> 's) \<Rightarrow> ('w \<times> nat \<times> 'f \<times> bool result) list \<Rightarrow> 's \<Rightarrow> 's" where
  "run_worker process [] s = s"
| "run_worker process (x # xs) s =
     run_worker process xs (process (fst x) (fst (snd x)) (fst (snd (snd x))) (snd (snd (snd x))) s)"

text \<open>The two loops, with the limit of deliveries and whether Redis answers, for each delivery.\<close>

definition dispatcher_run ::
  "((nat \<times> bool) \<times> nat \<times> 'f \<times> bool result) list \<Rightarrow> 'f cgroup \<Rightarrow> 'f cgroup" where
  "dispatcher_run = run_worker (\<lambda>w. process_dispatcher (fst w) (snd w))"

definition runner_run ::
  "((nat \<times> bool) \<times> nat \<times> 'f \<times> bool result) list \<Rightarrow> (nat \<Rightarrow> nat) \<times> 'f cgroup \<Rightarrow> (nat \<Rightarrow> nat) \<times> 'f cgroup" where
  "runner_run = run_worker (\<lambda>w. runner_round (fst w) (snd w))"

locale stream_worker =
  fixes process :: "'w \<Rightarrow> nat \<Rightarrow> 'f \<Rightarrow> bool result \<Rightarrow> 's \<Rightarrow> 's"
    and grp :: "'s \<Rightarrow> 'f cgroup"
  assumes handled_acks: "grp (process w m f (Inr True) s) = ack m (grp s)"
    and unhandled: "h \<noteq> Inr True \<Longrightarrow> grp (process w m f h s) \<in> {grp s, dead_letter m f (grp s)}"
begin

lemma process_cases:
  obtains (ack) "h = Inr True" "grp (process w m f h s) = ack m (grp s)"
  | (same) "h \<noteq> Inr True" "grp (process w m f h s) = grp s"
  | (dead) "h \<noteq> Inr True" "grp (process w m f h s) = dead_letter m f (grp s)"
  using handled_acks [of w m f s] unhandled [of h w m f s] by fastforce

lemma known_process: "known (grp (process w m f h s)) = known (grp s)"
  by (cases rule: process_cases [of h w m f s]) simp_all

lemma known_run: "known (grp (run_worker process xs s)) = known (grp s)"
  by (induction xs arbitrary: s) (simp_all add: known_process)

text \<open>A dead letter stays retained under the message's id.\<close>

lemma dead_process: "map_of (g_dead (grp s)) k \<noteq> None \<Longrightarrow> map_of (g_dead (grp (process w m f h s))) k \<noteq> None"
  by (cases rule: process_cases [of h w m f s]) (simp_all add: dead_of_dead)

lemma dead_run: "map_of (g_dead (grp s)) k \<noteq> None \<Longrightarrow> map_of (g_dead (grp (run_worker process xs s))) k \<noteq> None"
proof (induction xs arbitrary: s)
  case (Cons x xs)
  show ?case
    unfolding run_worker.simps by (rule Cons.IH [OF dead_process [OF Cons.prems]])
qed simp

text \<open>
  A pending message is, after any run, still pending, or some handler handled it, or it is retained.
\<close>

lemma never_lost:
  "k \<in> pending_ids (grp s) \<Longrightarrow>
   k \<in> pending_ids (grp (run_worker process xs s)) \<or> (\<exists>w f. (w, k, f, Inr True) \<in> set xs) \<or>
     map_of (g_dead (grp (run_worker process xs s))) k \<noteq> None"
proof (induction xs arbitrary: s)
  case (Cons x xs)
  obtain w m f h where x: "x = (w, m, f, h)"
    by (cases x)
  show ?case
  proof (cases rule: process_cases [of h w m f s])
    case ack
    show ?thesis
    proof (cases "m = k")
      case True
      then show ?thesis
        using ack(1) x by auto
    next
      case False
      then show ?thesis
        using Cons.IH [of "process w m f h s"] Cons.prems ack x by (auto simp: pending_ack)
    qed
  next
    case same
    then show ?thesis
      using Cons.IH [of "process w m f h s"] Cons.prems x by auto
  next
    case dead
    show ?thesis
    proof (cases "m = k")
      case True
      then show ?thesis
        using dead dead_run [of "process w m f h s" k xs] x by (simp add: dead_of_dead)
    next
      case False
      then show ?thesis
        using Cons.IH [of "process w m f h s"] Cons.prems dead x by (auto simp: pending_dead)
    qed
  qed
qed simp

end

subsection \<open>Both processors keep it\<close>

interpretation dispatcher_worker:
  stream_worker "\<lambda>w. process_dispatcher (fst w) (snd w)" "\<lambda>g. g"
proof
  fix h :: "bool result"
  show "process_dispatcher (fst w) (snd w) m f h g \<in> {g, dead_letter m f g}" if "h \<noteq> Inr True" for w m f g
    using that by (auto simp: process_dispatcher_def split: sum.split bool.split)
qed (simp add: process_dispatcher_def)

interpretation runner_worker: stream_worker "\<lambda>w. runner_round (fst w) (snd w)" snd
proof
  fix h :: "bool result"
  show "snd (runner_round (fst w) (snd w) m f h st) \<in> {snd st, dead_letter m f (snd st)}" if "h \<noteq> Inr True" for w m f st
    using that by (auto simp: runner_round_def process_runner_def split: sum.split bool.split)
qed (simp add: runner_round_def process_runner_def)

text \<open>
  The budget of the runner does not depend on Redis: \<open>n\<close> failed rounds with the own counter at
  \<open>c\<close>, and the message is dead-lettered once \<open>c + n\<close> reaches the limit.
\<close>

definition fail_round :: "nat \<Rightarrow> nat \<Rightarrow> 'f \<Rightarrow> (nat \<Rightarrow> nat) \<times> 'f cgroup \<Rightarrow> (nat \<Rightarrow> nat) \<times> 'f cgroup" where
  "fail_round lim m f st = runner_round lim False m f (Inr False) st"

lemma fail_round_step:
  "fail_round lim m f (a, g) =
     (if lim \<le> Suc (a m) then (a(m := 0), dead_letter m f g) else (a(m := Suc (a m)), g))"
  by (simp add: fail_round_def runner_round_def process_runner_def delivery_count_def)

lemma fail_rounds:
  "a m + n < lim \<Longrightarrow> (fail_round lim m f ^^ n) (a, g) = (a(m := a m + n), g)"
  by (induction n) (simp_all add: fail_round_step)

lemma messages_never_lost_parts:
  assumes "k \<in> pending_ids g"
  shows "let g' = dispatcher_run xs g in
      k \<in> pending_ids g' \<or> (\<exists>w f. (w, k, f, Inr True) \<in> set xs) \<or> map_of (g_dead g') k \<noteq> None"
    "let g' = snd (runner_run ys (counts, g)) in
      k \<in> pending_ids g' \<or> (\<exists>w f. (w, k, f, Inr True) \<in> set ys) \<or> map_of (g_dead g') k \<noteq> None"
  using dispatcher_worker.never_lost [of k g xs] runner_worker.never_lost [of k "(counts, g)" ys] assms
  by (simp_all add: Let_def dispatcher_run_def runner_run_def)

text \<open>C9. A message that a consumer has been given is never lost: after any run of the dispatcher's or the
  runner's loop it is still pending, a handler reported it done, or it is retained as a dead letter.\<close>

theorem messages_never_lost:
  assumes "k \<in> pending_ids g"
  shows "(let g' = dispatcher_run xs g in k \<in> pending_ids g' \<or> (\<exists>w f. (w, k, f, Inr True) \<in> set xs) \<or> map_of (g_dead g') k \<noteq> None) \<and>
     (let g' = snd (runner_run ys (counts, g)) in k \<in> pending_ids g' \<or> (\<exists>w f. (w, k, f, Inr True) \<in> set ys) \<or> map_of (g_dead g') k \<noteq> None)"
proof -
  have c1: "(let g' = dispatcher_run xs g in k \<in> pending_ids g' \<or> (\<exists>w f. (w, k, f, Inr True) \<in> set xs) \<or> map_of (g_dead g') k \<noteq> None)"
    by (rule messages_never_lost_parts(1) [OF assms])
  have c2: "(let g' = snd (runner_run ys (counts, g)) in k \<in> pending_ids g' \<or> (\<exists>w f. (w, k, f, Inr True) \<in> set ys) \<or> map_of (g_dead g') k \<noteq> None)"
    by (rule messages_never_lost_parts(2) [OF assms])
  show ?thesis
    by (rule conjI [OF c1 c2])
qed

definition sample_group :: "nat cgroup" where
  "sample_group = \<lparr>g_new = [], g_pending = [(7, 0, 1)], g_acked = [], g_dead = []\<rparr>"

theorem messages_never_lost_witness:
  "let g' = dispatcher_run [((3, True), 7, 0, Inl AmbiguousPromptErr), ((3, True), 7, 0, Inr False)] sample_group in
     7 \<in> pending_ids g' \<or> map_of (g_dead g') 7 \<noteq> None"
  using messages_never_lost [THEN conjunct1, of 7 sample_group "[((3, True), 7, 0, Inl AmbiguousPromptErr), ((3, True), 7, 0, Inr False)]"]
  by (simp add: sample_group_def pending_ids_def Let_def)

lemma failing_message_is_dead_lettered_parts:
  assumes "0 < lim"
  shows "n < lim \<Longrightarrow> snd ((fail_round lim m f ^^ n) ((\<lambda>_. 0), g)) = g"
    and "snd ((fail_round lim m f ^^ lim) ((\<lambda>_. 0), g)) = dead_letter m f g"
proof -
  show "n < lim \<Longrightarrow> snd ((fail_round lim m f ^^ n) ((\<lambda>_. 0), g)) = g"
    using fail_rounds [of "\<lambda>_. 0" m n lim f g] by simp
  have "(fail_round lim m f ^^ (lim - 1)) ((\<lambda>_. 0), g) = ((\<lambda>_. 0)(m := lim - 1), g)"
    using assms fail_rounds [of "\<lambda>_. 0" m "lim - 1" lim f g] by simp
  then have "(fail_round lim m f ^^ Suc (lim - 1)) ((\<lambda>_. 0), g) = fail_round lim m f ((\<lambda>_. 0)(m := lim - 1), g)"
    by simp
  then show "snd ((fail_round lim m f ^^ lim) ((\<lambda>_. 0), g)) = dead_letter m f g"
    using assms by (simp add: fail_round_step del: funpow.simps)
qed



end
