(* ===== verification/Dispatcher.thy ===== *)
theory Dispatcher
  imports Delivery Streams
begin

text \<open>
  The dispatcher: \<open>dispatch_discord_envelope\<close> and its handlers (\<open>dispatcher/main.py\<close>,
  \<open>handlers/terminal_notice.py\<close>, \<open>handlers/archive_thread.py\<close>) and the scan of \<open>recovery.py\<close>. The
  parsed payload is a parameter of the dispatch; the outcomes of the Discord calls are too. A handler
  returns its result and what it did at Discord.
\<close>

datatype side = Said pystr pystr | Closed pystr   \<comment> \<open>thread and text; thread\<close>

subsection \<open>Rendering\<close>

definition CREATE_FAILURE_TEXT :: "(pystr \<times> pystr) list" where
  "CREATE_FAILURE_TEXT =
     [(u ''creation_timeout'', u ''the runner did not respond in time''),
      (u ''cwd_invalid'', u ''the workspace is not an allowed root on the runner''),
      (u ''tool_unavailable'', u ''the tool is unknown or disabled''),
      (u ''host_unavailable'', u ''the runner host is unavailable'')]"

definition render_notice :: "payload \<Rightarrow> pystr" where
  "render_notice p =
     (let message = pget_str ''message'' p; kind = pget ''notice_type'' p in
      if kind = Some (JStr (u ''session_create_failed'')) then
        (let reason = (case map_of CREATE_FAILURE_TEXT message of
                         Some t \<Rightarrow> t | None \<Rightarrow> or_str (Some message) (Some (u ''unknown error'')))
         in [10060, space] @ u ''Session could not start: '' @ reason @ u ''.'')
      else if kind = Some (JStr (u ''session_running'')) \<and> message = [] then
        [9989, space] @ u ''Session ready. Send your messages in this thread.''
      else message)"

subsection \<open>Handlers\<close>

text \<open>What Discord answers: to the message and to the archiving.\<close>

record answers =
  an_send :: act_outcome
  an_archive :: act_outcome

fun act_result :: "act_outcome \<Rightarrow> unit result" where
  "act_result ActOk = Inr ()"
| "act_result (ActRaise e) = Inl e"
| "act_result ActCrash = Inl (ExternalErr (u ''crash''))"

text \<open>Whether Discord was reached: the message was posted or the thread archived.\<close>

fun reached :: "act_outcome \<Rightarrow> bool" where
  "reached (ActRaise e) = False"
| "reached ActOk = True"
| "reached ActCrash = True"

definition performed :: "bool \<Rightarrow> side \<Rightarrow> side list" where
  "performed b x = (if b then [x] else [])"

definition handle_system_notice :: "int \<Rightarrow> answers \<Rightarrow> payload \<Rightarrow> db \<Rightarrow> bool result \<times> side list \<times> db" where
  "handle_system_notice now an p d =
     (let thread = pget_str ''thread_id'' p; message = render_notice p;
          ikey = pget_str ''idempotency_key'' p; sid = pget_str ''session_id'' p
      in if thread = [] \<or> message = [] then (Inr True, [], d)
         else if ikey \<noteq> [] then
           (let (r, acted, d) = claim_act_finalize now (u ''discord.system_notice.v1'') ikey sid (an_send an) Inr d
            in (map_sum id (\<lambda>_. True) r, performed acted (Said thread message), d))
         else (map_sum id (\<lambda>_. True) (act_result (an_send an)),
               performed (reached (an_send an)) (Said thread message), d))"

text \<open>A field that is used as it is: \<open>None\<close>, \<open>False\<close> and 0 count as the empty text.\<close>

definition raw_str :: "string \<Rightarrow> payload \<Rightarrow> pystr" where
  "raw_str k p = (if pget k p \<in> {Some JNull, Some (JBool False), Some (JInt 0)} then [] else pget_str k p)"

text \<open>\<open>UPDATE sessions SET ... WHERE id = :sid\<close>, with \<open>session_id or None\<close> when \<open>nullable\<close>.\<close>

definition record_archive :: "bool \<Rightarrow> int \<Rightarrow> pystr \<Rightarrow> db \<Rightarrow> db result" where
  "record_archive nullable now sid d =
     (if nullable \<and> sid = [] then Inr d
      else (case uuid_of_str sid of
              None \<Rightarrow> Inl (ExternalErr (u ''invalid input for query argument''))
            | Some i \<Rightarrow> Inr (set_session i
                (\<lambda>s. s\<lparr>s_thread_archived_at := Some now, s_archive_requested_at := Some now\<rparr>) d)))"

definition handle_terminal_notice :: "int \<Rightarrow> answers \<Rightarrow> payload \<Rightarrow> db \<Rightarrow> bool result \<times> side list \<times> db" where
  "handle_terminal_notice now an p d =
     (let sid = raw_str ''session_id'' p; thread = pget_str ''thread_id'' p;
          ikey = pget_str ''idempotency_key'' p; message = raw_str ''message'' p;
          then_archive = pget ''then_archive'' p \<in> {Some (JBool True), Some (JStr (u ''true''))};
          (r1, acted1, d1) =
            (if message = [] then (Inr (), False, d)
             else claim_act_finalize now (u ''discord.terminal_notice.v1#post'') (ikey @ u ''#post'') sid
                    (an_send an) Inr d);
          did1 = performed acted1 (Said thread message)
      in case r1 of
           Inl e \<Rightarrow> (Inl e, did1, d1)
         | Inr _ \<Rightarrow>
             if \<not> then_archive then (Inr True, did1, d1)
             else
               (let (r2, acted2, d2) = claim_act_finalize now (u ''discord.terminal_notice.v1#archive'')
                      (ikey @ u ''#archive'') sid (an_archive an) (record_archive True now sid) d1
                in (map_sum id (\<lambda>_. True) r2, did1 @ performed acted2 (Closed thread), d2)))"

definition LIVE_STATUSES :: "status list" where "LIVE_STATUSES = [Creating, Resuming, Running, Idle]"

definition handle_archive_thread :: "int \<Rightarrow> answers \<Rightarrow> payload \<Rightarrow> db \<Rightarrow> bool result \<times> side list \<times> db" where
  "handle_archive_thread now an p d =
     (let sid = raw_str ''session_id'' p; thread = pget_str ''thread_id'' p;
          ikey = pget_str ''idempotency_key'' p;
          go = (let (r, acted, d') = claim_act_finalize now (u ''discord.archive_thread.v1'') ikey sid
                      (an_archive an) (record_archive False now sid) d
                in (map_sum id (\<lambda>_. True) r, performed acted (Closed thread), d'))
      in if sid = [] then go
         else (case uuid_of_str sid of
                 None \<Rightarrow> (Inl (ExternalErr (u ''invalid input for query argument'')), [], d)
               | Some i \<Rightarrow>
                   (case session_of i d of
                      None \<Rightarrow> go
                    | Some s \<Rightarrow> if s_status s \<in> set LIVE_STATUSES then (Inr True, [], d) else go)))"

subsection \<open>Dispatch\<close>

definition dispatch_discord_envelope :: "int \<Rightarrow> answers \<Rightarrow> fields \<Rightarrow> db \<Rightarrow> bool result \<times> side list \<times> db" where
  "dispatch_discord_envelope now an f d =
     (case fd_payload f of
        None \<Rightarrow> (Inl (ValueErr (u ''dispatcher message missing payload'')), [], d)
      | Some BadJson \<Rightarrow> (Inl (ValueErr (u ''JSONDecodeError'')), [], d)
      | Some NotObject \<Rightarrow> (Inl (ValueErr (u ''dispatcher payload is not an object'')), [], d)
      | Some (Object p) \<Rightarrow>
          (let ety = or_str (fd_type f) (Some (pget_str ''type'' p)) in
           if ety = u ''discord.output_chunk.v1'' then (Inr True, [], d)
           else if ety = u ''discord.system_notice.v1'' then handle_system_notice now an p d
           else if ety = u ''discord.terminal_notice.v1'' then handle_terminal_notice now an p d
           else if ety = u ''discord.archive_thread.v1'' then handle_archive_thread now an p d
           else (Inr False, [], d)))"

definition scan_pending_archives :: "db \<Rightarrow> pystr list" where
  "scan_pending_archives d =
     map (\<lambda>s. uuid_str (s_id s))
       (sel (\<lambda>s. s_archive_requested_at s \<noteq> None \<and> s_thread_archived_at s = None) (d_sessions d))"

subsection \<open>Deliveries are gated\<close>

text \<open>System notices: a notice with a key is a gate on its key.\<close>

definition notice_key :: "payload \<Rightarrow> pystr" where
  "notice_key p = pget_str ''idempotency_key'' p"

definition notice_attempt :: "int \<times> answers \<Rightarrow> payload \<Rightarrow> db \<Rightarrow> bool \<times> db" where
  "notice_attempt w p d =
     (let (r, acts, d') = handle_system_notice (fst w) (snd w) p d in (acts \<noteq> [], d'))"

lemma notice_attempt_gate:
  "notice_key p \<noteq> [] \<Longrightarrow> notice_attempt w p d =
     (if pget_str ''thread_id'' p = [] \<or> render_notice p = [] then (False, d)
      else snd (claim_act_finalize (fst w) (u ''discord.system_notice.v1'') (notice_key p)
             (pget_str ''session_id'' p) (an_send (snd w)) Inr d))"
  by (auto simp: notice_attempt_def handle_system_notice_def notice_key_def performed_def Let_def case_prod_beta
      prod_eq_iff)

lemma notice_attempt_keyless: "notice_key p = [] \<Longrightarrow> snd (notice_attempt w p d) = d"
  by (simp add: notice_attempt_def handle_system_notice_def notice_key_def Let_def)

interpretation notices: delivery_gate notice_attempt
  "\<lambda>w p. an_send (snd w) = ActOk \<and> notice_key p \<noteq> []"
  "\<lambda>p d. notice_key p \<noteq> [] \<and> settled_key (u ''discord.system_notice.v1'') (notice_key p) d"
proof
  fix w :: "int \<times> answers" and p p' :: payload and d :: db
  let ?e = "u ''discord.system_notice.v1''"
  show "\<not> fst (notice_attempt w p d)" if "notice_key p \<noteq> [] \<and> settled_key ?e (notice_key p) d"
    using that caf_silent [of ?e "notice_key p" d] by (simp add: notice_attempt_gate)
  show "notice_key p \<noteq> [] \<and> settled_key ?e (notice_key p) (snd (notice_attempt w p d))"
    if "fst (notice_attempt w p d)" "an_send (snd w) = ActOk \<and> notice_key p \<noteq> []"
    using that caf_settles [of "fst w" ?e "notice_key p" "pget_str ''session_id'' p" Inr d]
    by (simp add: notice_attempt_gate split: if_splits)
  show "notice_key p \<noteq> [] \<and> settled_key ?e (notice_key p) (snd (notice_attempt w p' d))"
    if "notice_key p \<noteq> [] \<and> settled_key ?e (notice_key p) d"
    using that caf_keeps [of ?e "notice_key p" d Inr "fst w" ?e "notice_key p'" "pget_str ''session_id'' p'"
        "an_send (snd w)"]
    by (cases "notice_key p' = []") (simp_all add: notice_attempt_gate notice_attempt_keyless)
qed

text \<open>The archive handler leaves a live session's thread alone, whatever Discord would answer.\<close>

lemma archive_live:
  assumes "uuid_of_str (raw_str ''session_id'' p) = Some i" "session_of i d = Some s"
    "s_status s \<in> set LIVE_STATUSES"
  shows "handle_archive_thread now an p d = (Inr True, [], d)"
proof -
  have "raw_str ''session_id'' p \<noteq> []"
    using assms(1) by (auto simp: uuid_of_str_def strip_by_def lstrip_by_def rstrip_by_def)
  then show ?thesis
    using assms by (simp add: handle_archive_thread_def Let_def)
qed

text \<open>An archive that Discord refused leaves the database unchanged, so the redelivery tries again.\<close>

lemma archive_refused:
  "an_archive an = ActRaise e \<Longrightarrow> handle_archive_thread now an p d = (r, acts, d') \<Longrightarrow> acts = [] \<and>
   (r = Inl e \<longrightarrow> d' = d)"
  by (auto simp: handle_archive_thread_def claim_act_finalize_def performed_def Let_def
      split: option.splits if_splits)

lemma system_notice_recorded_once_parts:
  "length (filter (\<lambda>w. an_send (snd w) = ActOk \<and> notice_key p \<noteq> []) (acted notice_attempt p as d)) \<le> 1"
  "acted notice_attempt p as d = ws @ w # ws' \<Longrightarrow> an_send (snd w) = ActOk \<and> notice_key p \<noteq> [] \<Longrightarrow> ws' = []"
  by (rule notices.recorded_once, rule notices.recorded_last)

text \<open>C6. Redelivery does not repeat a notice: over any sequence of deliveries of system notices, at most one
  delivery of a notice with a key said it and was recorded, and nothing is said for it afterwards.\<close>

theorem system_notice_recorded_once:
  "(length (filter (\<lambda>w. an_send (snd w) = ActOk \<and> notice_key p \<noteq> []) (acted notice_attempt p as d)) \<le> 1) \<and>
     ((acted notice_attempt p as d = ws @ w # ws') \<longrightarrow> (an_send (snd w) = ActOk \<and> notice_key p \<noteq> []) \<longrightarrow> (ws' = []))"
proof -
  have c1: "(length (filter (\<lambda>w. an_send (snd w) = ActOk \<and> notice_key p \<noteq> []) (acted notice_attempt p as d)) \<le> 1)"
    by (rule system_notice_recorded_once_parts(1))
  have c2: "((acted notice_attempt p as d = ws @ w # ws') \<longrightarrow> (an_send (snd w) = ActOk \<and> notice_key p \<noteq> []) \<longrightarrow> (ws' = []))"
    by ((rule impI)+, rule system_notice_recorded_once_parts(2), assumption+)
  show ?thesis
    by (rule conjI [OF c1 c2])
qed

definition sample_notice :: payload where
  "sample_notice = [(u ''thread_id'', JStr (u ''t'')), (u ''message'', JStr (u ''hi'')), (u ''idempotency_key'', JStr (u ''k''))]"

definition sample_tries :: "((int \<times> answers) \<times> payload) list" where
  "sample_tries =
     [((0, \<lparr>an_send = ActRaise AmbiguousPromptErr, an_archive = ActOk\<rparr>), sample_notice),
      ((1, \<lparr>an_send = ActOk, an_archive = ActOk\<rparr>), sample_notice),
      ((2, \<lparr>an_send = ActOk, an_archive = ActOk\<rparr>), sample_notice)]"

lemma sample_acted: "map fst (acted notice_attempt sample_notice sample_tries empty_db) = [1]"
  by code_simp

theorem system_notice_recorded_once_witness:
  "\<exists>w. acted notice_attempt sample_notice sample_tries empty_db = [w] \<and> fst w = 1"
  using system_notice_recorded_once [of sample_notice sample_tries empty_db] sample_acted by auto

end
