(* ===== verification/Janitor_Timeouts.thy ===== *)
theory Janitor_Timeouts
  imports Runner_Resume
begin

text \<open>
  The watchdogs of \<open>janitor/timeouts.py\<close>. Every sweep is one transaction: an \<open>UPDATE ... RETURNING\<close> of
  the sessions that match, then one or two outbox rows for each of them. Times are in milliseconds;
  \<open>keys n\<close> is the \<open>n\<close>-th fresh idempotency key of the sweep. Each returns its count and the database.
\<close>

subsection \<open>Update and notify\<close>

definition secs :: "int \<Rightarrow> int" where "secs n = n * 1000"
definition minutes :: "int \<Rightarrow> int" where "minutes n = n * 60 * 1000"
definition hours :: "int \<Rightarrow> int" where "hours n = n * 3600 * 1000"
definition days :: "int \<Rightarrow> int" where "days n = n * 86400 * 1000"

text \<open>\<open>RETURNING\<close> gives the rows as they are after the update.\<close>

definition update_returning ::
  "(session \<Rightarrow> bool) \<Rightarrow> (session \<Rightarrow> session) \<Rightarrow> db \<Rightarrow> session list \<times> db" where
  "update_returning p f d = (map f (sel p (d_sessions d)), upd_sessions p f d)"

fun for_rows :: "(nat \<Rightarrow> session \<Rightarrow> db \<Rightarrow> db) \<Rightarrow> nat \<Rightarrow> session list \<Rightarrow> db \<Rightarrow> db" where
  "for_rows act n [] d = d"
| "for_rows act n (s # ss) d = for_rows act (Suc n) ss (act n s d)"

definition sweep ::
  "(session \<Rightarrow> bool) \<Rightarrow> (session \<Rightarrow> session) \<Rightarrow> (nat \<Rightarrow> session \<Rightarrow> db \<Rightarrow> db) \<Rightarrow> db \<Rightarrow> nat \<times> db" where
  "sweep p f act d =
     (let (rows, d1) = update_returning p f d in (length rows, for_rows act 0 rows d1))"

text \<open>No turn of the session's current version waits or runs.\<close>

definition no_open_turn :: "db \<Rightarrow> session \<Rightarrow> bool" where
  "no_open_turn d s \<longleftrightarrow>
     sel (\<lambda>t. t_session t = s_id s \<and> t_version t = s_version s \<and>
            t_status t \<in> {Queued, Executing, Completed}) (d_turns d) = []"

definition janitor_notice :: "int \<Rightarrow> pystr \<Rightarrow> payload \<Rightarrow> session \<Rightarrow> db \<Rightarrow> db" where
  "janitor_notice now ety p s d =
     write_outbox now (u ''janitor'') discord_outbound ety (pset ''guild_id'' (jopt (s_guild s)) p) d"

definition stop_job :: "pystr \<Rightarrow> session \<Rightarrow> payload" where
  "stop_job key s =
     [(u ''type'', JStr (u ''runner.stop_session.v1'')), (u ''idempotency_key'', JStr key),
      (u ''session_id'', JStr (uuid_str (s_id s))), (u ''lifecycle_version'', JInt (s_version s))]"

subsection \<open>The sweeps\<close>

definition sweep_creating_watchdog :: "settings \<Rightarrow> int \<Rightarrow> (nat \<Rightarrow> pystr) \<Rightarrow> db \<Rightarrow> nat \<times> db" where
  "sweep_creating_watchdog cfg now keys d =
     sweep (\<lambda>s. s_status s = Creating \<and> s_created_at s < now - secs (SESSION_CREATE_TIMEOUT_SECONDS cfg))
       (\<lambda>s. s\<lparr>s_status := Failed, s_reason := Some (u ''creation_timeout'')\<rparr>)
       (\<lambda>n s d. janitor_notice now (u ''discord.system_notice.v1'')
          (system_notice (keys n) (uuid_str (s_id s)) [] (opt_str (s_thread s)) (u ''session_create_failed'')
             (u ''creation_timeout'')) s (release_superseded (s_id s) d)) d"

definition sweep_resuming_watchdog :: "settings \<Rightarrow> int \<Rightarrow> (nat \<Rightarrow> pystr) \<Rightarrow> db \<Rightarrow> nat \<times> db" where
  "sweep_resuming_watchdog cfg now keys d =
     sweep (\<lambda>s. s_status s = Resuming \<and> s_changed_at s < now - secs (RESUME_STUCK_THRESHOLD_SECONDS cfg))
       (\<lambda>s. s\<lparr>s_status := Orphaned, s_reason := Some (u ''resume_stuck'')\<rparr>)
       (\<lambda>n s. janitor_notice now (u ''discord.terminal_notice.v1'')
          (terminal_notice (keys n) (uuid_str (s_id s)) [] (opt_str (s_thread s)) (u ''Session resume timed out.'')) s)
       d"

definition sweep_idle_timeout :: "int \<Rightarrow> int \<Rightarrow> db \<Rightarrow> nat \<times> db" where
  "sweep_idle_timeout idle_minutes now d =
     sweep (\<lambda>s. s_status s = Running \<and> no_open_turn d s \<and> s_activity_at s < now - minutes idle_minutes)
       (\<lambda>s. s\<lparr>s_status := Idle, s_changed_at := now\<rparr>) (\<lambda>n s d. d) d"

definition sweep_archive_timeout :: "int \<Rightarrow> int \<Rightarrow> (nat \<Rightarrow> pystr) \<Rightarrow> db \<Rightarrow> nat \<times> db" where
  "sweep_archive_timeout archive_minutes now keys d =
     sweep (\<lambda>s. s_status s = Idle \<and> no_open_turn d s \<and> s_activity_at s < now - minutes archive_minutes)
       (\<lambda>s. s\<lparr>s_status := Archived, s_archived_at := Some now, s_version := s_version s + 1,
            s_changed_at := now, s_archive_requested_at := Some now\<rparr>)
       (\<lambda>n s d.
          let d = (if opt_str (s_host s) = [] then d
                   else write_outbox now (u ''janitor'') (runner_jobs (opt_str (s_host s)))
                          (u ''runner.stop_session.v1'')
                          (stop_job (keys (2 * n)) s @ [(u ''preserve_archived'', JBool True)]) d)
          in janitor_notice now (u ''discord.archive_thread.v1'')
               [(u ''type'', JStr (u ''discord.archive_thread.v1'')),
                (u ''idempotency_key'', JStr (keys (2 * n + 1))), (u ''session_id'', JStr (uuid_str (s_id s))),
                (u ''guild_id'', JNull), (u ''thread_id'', JStr (opt_str (s_thread s)))] s d) d"

definition sweep_stop_timeout :: "int \<Rightarrow> int \<Rightarrow> (nat \<Rightarrow> pystr) \<Rightarrow> db \<Rightarrow> nat \<times> db" where
  "sweep_stop_timeout stop_hours now keys d =
     sweep (\<lambda>s. s_status s \<in> {Running, Idle, Archived} \<and> s_activity_at s < now - hours stop_hours \<and>
            no_open_turn d s)
       (\<lambda>s. s\<lparr>s_status := Stopping, s_reason := Some (u ''idle_archive_timeout''),
            s_version := s_version s + 1, s_changed_at := now\<rparr>)
       (\<lambda>n s d.
          if opt_str (s_host s) \<noteq> [] then
            write_outbox now (u ''janitor'') (runner_jobs (opt_str (s_host s))) (u ''runner.stop_session.v1'')
              (stop_job (keys n) s) d
          else set_session (s_id s) (\<lambda>s. s\<lparr>s_status := Stopped, s_stopped_at := Some now\<rparr>) d) d"

definition sweep_stopping_watchdog :: "int \<Rightarrow> int \<Rightarrow> db \<Rightarrow> nat \<times> db" where
  "sweep_stopping_watchdog threshold_seconds now d =
     sweep (\<lambda>s. s_status s = Stopping \<and> s_changed_at s < now - secs threshold_seconds)
       (\<lambda>s. s\<lparr>s_status := Stopped,
            s_reason := (case s_reason s of None \<Rightarrow> Some (u ''stop_unconfirmed'') | r \<Rightarrow> r),
            s_version := s_version s + 1, s_changed_at := now\<rparr>) (\<lambda>n s d. d) d"

subsection \<open>Whom a sweep touches\<close>

lemma for_rows_session:
  "(\<And>n s d. s \<in> set rows \<Longrightarrow> session_of i (act n s d) = session_of i d) \<Longrightarrow>
   session_of i (for_rows act n rows d) = session_of i d"
  by (induction rows arbitrary: n d) simp_all

text \<open>A session that does not match is left alone, when the action touches no other session.\<close>

lemma sweep_spares:
  assumes "session_of i d = Some s" "\<not> p s" "distinct (map s_id (d_sessions d))"
    "\<And>s. s_id (f s) = s_id s" "\<And>n r d. s_id r \<noteq> i \<Longrightarrow> session_of i (act n r d) = session_of i d"
  shows "session_of i (snd (sweep p f act d)) = Some s"
proof -
  have "s_id r \<noteq> i" if m: "r \<in> set (map f (sel p (d_sessions d)))" for r
  proof
    assume e: "s_id r = i"
    obtain q where q: "q \<in> set (d_sessions d)" "p q" "r = f q"
      using m by (auto simp: sel_def)
    have "session_of i d = Some q"
      unfolding session_of_def get_distinct [OF assms(3)] using q e assms(4) by simp
    then have "q = s"
      using assms(1) by simp
    then show False
      using q(2) assms(2) by simp
  qed
  then have "session_of i (snd (sweep p f act d)) = session_of i (upd_sessions p f d)"
    unfolding sweep_def update_returning_def Let_def prod.case snd_conv
    by (intro for_rows_session) (rule assms(5))
  then show ?thesis
    using assms(1,2,4) by (simp add: session_of_upd)
qed

lemma busy_session_is_spared_parts:
  assumes "session_of i d = Some s" "\<not> no_open_turn d s" "distinct (map s_id (d_sessions d))"
  shows "session_of i (snd (sweep_idle_timeout m now d)) = Some s"
    "session_of i (snd (sweep_archive_timeout m now keys d)) = Some s"
    "session_of i (snd (sweep_stop_timeout m now keys d)) = Some s"
  unfolding sweep_idle_timeout_def sweep_archive_timeout_def sweep_stop_timeout_def
  by (rule sweep_spares [OF assms(1) _ assms(3)]; use assms(2) in \<open>simp add: janitor_notice_def Let_def\<close>)+

text \<open>C35. The timeouts spare a session that has work: while a turn of its current version is queued, executing or
  completed, neither the idle nor the archive nor the stop timeout changes it, however long it has been
  inactive.\<close>

theorem busy_session_is_spared:
  assumes "session_of i d = Some s" "t \<in> set (d_turns d)" "t_session t = i" "t_version t = s_version s"
    "t_status t \<in> {Queued, Executing, Completed}" "distinct (map s_id (d_sessions d))"
  shows "(session_of i (snd (sweep_idle_timeout m now d)) = Some s) \<and>
     (session_of i (snd (sweep_archive_timeout m now keys d)) = Some s) \<and>
     (session_of i (snd (sweep_stop_timeout m now keys d)) = Some s)"
proof -
  have busy: "\<not> no_open_turn d s"
    using assms(2-5) session_of_id [OF assms(1)] by (fastforce simp: no_open_turn_def sel_def filter_empty_conv)
  note spared = busy_session_is_spared_parts [OF assms(1) busy assms(6)]
  show ?thesis
    using spared by blast
qed

theorem busy_session_is_spared_witness:
  "\<exists>d. session_of 1 (snd (sweep_stop_timeout 0 99 (\<lambda>_. []) d)) = Some sample_owned \<and>
     s_activity_at sample_owned < 99 - hours 0 \<and> s_status sample_owned = Running"
proof -
  let ?t = "\<lparr>t_seq = 1, t_key = u ''k'', t_session = 1, t_version = 1,
      t_status = Queued, t_result = None, t_token = None, t_created_at = 0, t_updated_at = 0\<rparr>"
  let ?d = "empty_db\<lparr>d_sessions := [sample_owned], d_turns := [?t]\<rparr>"
  have "session_of 1 ?d = Some sample_owned" "?t \<in> set (d_turns ?d)"
    "t_session ?t = 1" "t_version ?t = s_version sample_owned" "t_status ?t \<in> {Queued, Executing, Completed}" "distinct (map s_id (d_sessions ?d))"
    by (simp_all add: session_of_def sample_owned_def)
  then have "session_of 1 (snd (sweep_stop_timeout 0 99 (\<lambda>_. []) ?d)) = Some sample_owned"
    by (rule busy_session_is_spared [THEN conjunct2, THEN conjunct2])
  then show ?thesis
    by (auto simp: sample_owned_def hours_def)
qed

end
