(* ===== verification/Janitor_Lifecycle.thy ===== *)
theory Janitor_Lifecycle
  imports Janitor_Timeouts
begin

text \<open>
  \<open>janitor/lifecycle.py\<close>: the sweep of lost runner hosts and the repair of sessions whose thread was
  never bound. The repair runs over several transactions; \<open>gap\<close> is what others commit before each
  candidate is handled.
\<close>

subsection \<open>Lost hosts\<close>

definition stale_host :: "int \<Rightarrow> runner_host \<Rightarrow> bool" where
  "stale_host limit h \<longleftrightarrow> (case h_heartbeat h of None \<Rightarrow> False | Some t \<Rightarrow> t < limit)"

definition mark_stale_hosts :: "settings \<Rightarrow> int \<Rightarrow> db \<Rightarrow> db" where
  "mark_stale_hosts cfg now d =
     d\<lparr>d_hosts := upd (\<lambda>h. h_status h = Online \<and> stale_host (now - secs (RUNNER_HEARTBEAT_STALE_SECONDS cfg)) h)
        (\<lambda>h. h\<lparr>h_status := Offline\<rparr>) (d_hosts d)\<rparr>"

definition lost_host :: "int \<Rightarrow> int \<Rightarrow> db \<Rightarrow> pystr \<Rightarrow> bool" where
  "lost_host ttl_hours now d i \<longleftrightarrow>
     sel (\<lambda>h. h_id h = i \<and> h_status h = Offline \<and> stale_host (now - hours ttl_hours) h) (d_hosts d) \<noteq> []"

definition sweep_runner_heartbeat_orphans :: "settings \<Rightarrow> int \<Rightarrow> int \<Rightarrow> (nat \<Rightarrow> pystr) \<Rightarrow> db \<Rightarrow> nat \<times> db" where
  "sweep_runner_heartbeat_orphans cfg ttl_hours now keys d =
     (let d1 = mark_stale_hosts cfg now d in
      sweep (\<lambda>s. s_status s \<in> {Running, Idle, Resuming} \<and>
               (case s_host s of None \<Rightarrow> False | Some i \<Rightarrow> lost_host ttl_hours now d1 i))
        (\<lambda>s. s\<lparr>s_status := Failed, s_reason := Some (u ''runner_lost'')\<rparr>)
        (\<lambda>n s. janitor_notice now (u ''discord.terminal_notice.v1'')
           (terminal_notice (keys n) (uuid_str (s_id s)) [] (opt_str (s_thread s))
              (u ''Runner host lost. Session terminated.'')) s) d1)"

subsection \<open>Thread binding drift\<close>

definition BIND_FAILED :: pystr where "BIND_FAILED = u ''thread_bind_failed''"
definition EXHAUSTED :: pystr where "EXHAUSTED = u ''thread_bind_repair_exhausted''"

text \<open>Both candidate queries, without repetitions. (\<open>pending\<close> is no status of the table.)\<close>

definition drifted :: "db \<Rightarrow> session list" where
  "drifted d =
     (let first = sel (\<lambda>s. s_thread s = None \<and> s_status s \<in> {Running, Creating}) (d_sessions d) in
      first @ sel (\<lambda>s. s_reason s = Some BIND_FAILED \<and> s_thread s = None \<and> s_id s \<notin> s_id ` set first)
                (d_sessions d))"

datatype repair = Repaired | DeadLettered | Untouched

text \<open>The dead-letter path of a candidate that had used its attempts up.\<close>

definition retire_drifted :: "int \<Rightarrow> uuid \<Rightarrow> db \<Rightarrow> repair \<times> db" where
  "retire_drifted max_attempts sid d =
     (case session_of sid d of
        None \<Rightarrow> (Untouched, d)
      | Some row \<Rightarrow>
          if s_thread row \<noteq> None \<or> s_repairs row < max_attempts \<or> s_reason row = Some EXHAUSTED then (Untouched, d)
          else (DeadLettered, set_session sid (\<lambda>s. s\<lparr>s_reason := Some EXHAUSTED\<rparr>) d))"

text \<open>
  The thread id the queued creation carries, when it is a text. (Two queued creations make
  \<open>scalar_one_or_none\<close> raise: \<open>None\<close>.)
\<close>

definition queued_thread :: "uuid \<Rightarrow> db \<Rightarrow> pystr option option" where
  "queued_thread sid d =
     (case sel (queued_create sid) (d_outbox d) of
        [] \<Rightarrow> Some None
      | [r] \<Rightarrow> Some (case pget ''thread_id'' (o_payload r) of Some (JStr t) \<Rightarrow> Some t | _ \<Rightarrow> None)
      | _ \<Rightarrow> None)"

definition count_attempt :: "int \<Rightarrow> uuid \<Rightarrow> db \<Rightarrow> repair \<times> db" where
  "count_attempt max_attempts sid d =
     (case session_of sid d of
        None \<Rightarrow> (Untouched, d)
      | Some row \<Rightarrow>
          if s_thread row \<noteq> None then (Untouched, d)
          else
            (let n = s_repairs row + 1;
                 reason = (if s_reason row \<in> {Some BIND_FAILED, Some EXHAUSTED} then s_reason row else Some BIND_FAILED)
             in if max_attempts \<le> n then
                  (DeadLettered, set_session sid (\<lambda>s. s\<lparr>s_repairs := n, s_reason := Some EXHAUSTED\<rparr>) d)
                else (Untouched, set_session sid (\<lambda>s. s\<lparr>s_repairs := n, s_reason := reason\<rparr>) d)))"

definition clear_marker :: "uuid \<Rightarrow> db \<Rightarrow> db" where
  "clear_marker sid d =
     (case session_of sid d of
        None \<Rightarrow> d
      | Some row \<Rightarrow>
          if s_reason row \<in> {Some BIND_FAILED, None} then
            set_session sid (\<lambda>s. s\<lparr>s_reason := None, s_repairs := s_repairs row + 1\<rparr>) d
          else d)"

definition repair_one :: "int \<Rightarrow> session \<Rightarrow> db \<Rightarrow> repair \<times> db" where
  "repair_one max_attempts c d =
     (if max_attempts \<le> s_repairs c then retire_drifted max_attempts (s_id c) d
      else
        (case queued_thread (s_id c) d of
           None \<Rightarrow> (Untouched, d)
         | Some t \<Rightarrow>
             if opt_str t = [] then count_attempt max_attempts (s_id c) d
             else
               (let (r, d) = bind_session_thread (s_id c) (opt_str t) d in
                if b_success r then (Repaired, clear_marker (s_id c) d)
                else count_attempt max_attempts (s_id c) d)))"

fun repair_all :: "int \<Rightarrow> (nat \<Rightarrow> db \<Rightarrow> db) \<Rightarrow> nat \<Rightarrow> session list \<Rightarrow> db \<Rightarrow> (nat \<times> nat) \<times> db" where
  "repair_all m gap n [] d = ((0, 0), d)"
| "repair_all m gap n (c # cs) d =
     (let (r, d) = repair_one m c (gap n d); ((repaired, dead), d) = repair_all m gap (Suc n) cs d
      in (case r of
            Repaired \<Rightarrow> ((Suc repaired, dead), d)
          | DeadLettered \<Rightarrow> ((repaired, Suc dead), d)
          | Untouched \<Rightarrow> ((repaired, dead), d)))"

definition sweep_session_thread_binding_drift :: "int \<Rightarrow> (nat \<Rightarrow> db \<Rightarrow> db) \<Rightarrow> db \<Rightarrow> (nat \<times> nat) \<times> db" where
  "sweep_session_thread_binding_drift max_attempts gap d = repair_all max_attempts gap 0 (drifted d) d"

subsection \<open>What a repair does\<close>

text \<open>
  A candidate that is not repaired moves on: its attempts grow, or it is retired; and a retired one
  is left alone by every later pass.
\<close>

lemma retired_stays:
  "session_of sid d = Some s \<Longrightarrow> s_reason s = Some EXHAUSTED \<Longrightarrow> retire_drifted m sid d = (Untouched, d)"
  by (simp add: retire_drifted_def)

lemma count_attempt_progress:
  assumes "session_of sid d = Some s" "s_thread s = None"
  shows "\<exists>s'. session_of sid (snd (count_attempt m sid d)) = Some s' \<and> s_thread s' = None \<and>
    s_repairs s' = s_repairs s + 1 \<and> (m \<le> s_repairs s' \<longrightarrow> s_reason s' = Some EXHAUSTED)"
  using assms by (simp add: count_attempt_def Let_def)

text \<open>The repair of a session without a thread is bounded: each failing attempt is counted, from the limit on
  the session carries the exhausted marker, and a marked session is left alone by later passes.\<close>

theorem unbound_session_is_retired:
  assumes "session_of sid d = Some s" "s_thread s = None"
    "d' = ((\<lambda>d. snd (count_attempt m sid d)) ^^ n) d"
  shows "\<exists>s'. session_of sid d' = Some s' \<and> s_thread s' = None \<and> s_repairs s' = s_repairs s + int n \<and>
     (0 < n \<and> m \<le> s_repairs s' \<longrightarrow> s_reason s' = Some EXHAUSTED \<and> retire_drifted m sid d' = (Untouched, d'))"
  using assms(3)
proof (induction n arbitrary: d')
  case 0
  then show ?case
    using assms(1,2) by simp
next
  case (Suc n)
  let ?e = "((\<lambda>d. snd (count_attempt m sid d)) ^^ n) d"
  obtain s1 where s1: "session_of sid ?e = Some s1" "s_thread s1 = None" "s_repairs s1 = s_repairs s + int n"
    using Suc.IH [OF refl] by blast
  obtain s2 where s2: "session_of sid d' = Some s2" "s_thread s2 = None" "s_repairs s2 = s_repairs s1 + 1"
    "m \<le> s_repairs s2 \<Longrightarrow> s_reason s2 = Some EXHAUSTED"
    using count_attempt_progress [OF s1(1,2), of m] Suc.prems by auto
  then show ?case
    using s1(3) retired_stays [OF s2(1)] by auto
qed

definition sample_unbound :: db where
  "sample_unbound = empty_db\<lparr>d_sessions := [sample_owned\<lparr>s_thread := None\<rparr>]\<rparr>"

theorem unbound_session_is_retired_witness:
  "\<exists>s'. session_of 1 (((\<lambda>d. snd (count_attempt 3 1 d)) ^^ 3) sample_unbound) = Some s' \<and> s_reason s' = Some EXHAUSTED"
proof -
  have s: "session_of 1 sample_unbound = Some (sample_owned\<lparr>s_thread := None\<rparr>)"
    by (simp add: session_of_def sample_unbound_def) (simp add: sample_owned_def)
  show ?thesis
    using unbound_session_is_retired [OF s _ refl, of 3 3] by (auto simp: sample_owned_def)
qed

end
