(* ===== verification/Janitor_Retention.thy ===== *)
theory Janitor_Retention
  imports Janitor_Timeouts Config
begin

text \<open>
  The retention sweeps of \<open>janitor/retention.py\<close>: each deletes (or clears) at most one batch of the
  oldest rows of a table that are past their time.
\<close>

subsection \<open>A batch of the oldest\<close>

definition oldest :: "nat \<Rightarrow> ('r \<Rightarrow> int) \<Rightarrow> ('r \<Rightarrow> bool) \<Rightarrow> 'r list \<Rightarrow> 'r list" where
  "oldest batch age p rs = take batch (order_by age (sel p rs))"

lemma oldest_sel: "r \<in> set (oldest batch age p rs) \<Longrightarrow> r \<in> set rs \<and> p r"
  unfolding oldest_def by (drule in_set_takeD) (simp add: sel_def)

lemma length_oldest: "length (oldest batch age p rs) \<le> batch"
  by (simp add: oldest_def)

text \<open>Deletion by key of the rows of the batch: the count and the rest.\<close>

definition delete_batch :: "('r \<Rightarrow> 'k) \<Rightarrow> 'r list \<Rightarrow> 'r list \<Rightarrow> nat \<times> 'r list" where
  "delete_batch key gone rs =
     (let p = (\<lambda>r. key r \<in> set (map key gone)) in (length (sel p rs), del p rs))"

lemma delete_batch_subset: "set (snd (delete_batch key gone rs)) \<subseteq> set rs"
  by (auto simp: delete_batch_def Let_def del_def)

subsection \<open>The sweeps\<close>

definition expired_before :: "int \<Rightarrow> ikey_row \<Rightarrow> bool" where
  "expired_before now r \<longleftrightarrow> (case k_expires r of At t \<Rightarrow> t < now | Infinity \<Rightarrow> False)"

fun expiry_time :: "expiry \<Rightarrow> int" where
  "expiry_time (At t) = t"
| "expiry_time Infinity = 0"

definition sweep_idempotency_keys :: "nat \<Rightarrow> int \<Rightarrow> db \<Rightarrow> nat \<times> db" where
  "sweep_idempotency_keys batch now d =
     (let (n, rows) = delete_batch ikey_id
            (oldest batch (\<lambda>r. expiry_time (k_expires r)) (expired_before now) (d_ikeys d)) (d_ikeys d)
      in (n, d\<lparr>d_ikeys := rows\<rparr>))"

definition sweep_events :: "nat \<Rightarrow> int \<Rightarrow> int \<Rightarrow> db \<Rightarrow> nat \<times> db" where
  "sweep_events batch ndays now d =
     (let (n, rows) = delete_batch e_id
            (oldest batch e_created_at (\<lambda>e. e_created_at e < now - days ndays) (d_events d)) (d_events d)
      in (n, d\<lparr>d_events := rows\<rparr>))"

definition sweep_outbox :: "nat \<Rightarrow> int \<Rightarrow> int \<Rightarrow> db \<Rightarrow> nat \<times> db" where
  "sweep_outbox batch ndays now d =
     (let (n, rows) = delete_batch o_id
            (oldest batch o_created_at
               (\<lambda>r. o_published_at r \<noteq> None \<and> o_created_at r < now - days ndays) (d_outbox d)) (d_outbox d)
      in (n, d\<lparr>d_outbox := rows\<rparr>))"

text \<open>The days of the setting: \<open>int(retention[:-1])\<close>, or \<open>None\<close> for \<open>never\<close>.\<close>

definition retention_days :: "(nat \<Rightarrow> nat option) \<Rightarrow> pystr \<Rightarrow> int option" where
  "retention_days udigit v =
     (if v = u ''never'' then None else map_option int (int_of_digits udigit 0 (butlast v)))"

text \<open>
  \<open>retention\<close> is the number of days of \<open>INPUT_IDEMPOTENCY_RETENTION\<close>, \<open>None\<close> for \<open>never\<close>. The results of
  turns that are over are cleared; their rows stay, as tombstones against a replay.
\<close>

definition clearable :: "int \<Rightarrow> input_turn \<Rightarrow> bool" where
  "clearable limit t \<longleftrightarrow> t_status t \<in> {Delivered, DeliveryFailed} \<and> (t_result t \<noteq> None \<or> t_token t \<noteq> None) \<and>
     t_updated_at t < limit"

definition sweep_turn_results :: "nat \<Rightarrow> int option \<Rightarrow> int \<Rightarrow> db \<Rightarrow> nat \<times> db" where
  "sweep_turn_results batch retention now d =
     (case retention of
        None \<Rightarrow> (0, d)
      | Some n \<Rightarrow>
          (let ks = map t_key (oldest batch t_updated_at (clearable (now - days n)) (d_turns d));
               p = (\<lambda>t. t_key t \<in> set ks)
           in (length (sel p (d_turns d)), upd_turns p (\<lambda>t. t\<lparr>t_result := None, t_token := None\<rparr>) d)))"

subsection \<open>What they keep\<close>

lemma get_delete:
  assumes "k \<notin> key ` set gone"
  shows "get key k (snd (delete_batch key gone rs)) = get key k rs"
proof -
  have "get key k (filter (\<lambda>r. key r \<notin> key ` set gone) rs) = get key k rs"
    by (induction rs) (use assms in auto)
  then show ?thesis
    by (simp add: delete_batch_def Let_def del_def)
qed

lemma kept_row:
  assumes "distinct (map key rs)" "get key k rs = Some r" "set gone \<subseteq> set rs" "r \<notin> set gone"
  shows "get key k (snd (delete_batch key gone rs)) = Some r"
proof -
  have "r \<in> set rs" "key r = k"
    using get_SomeD [OF assms(2)] by auto
  then have "k \<notin> key ` set gone"
    using assms(1,3,4) by (auto simp: distinct_map inj_on_def)
  then show ?thesis
    using assms(2) get_delete by metis
qed

lemma oldest_subset: "set (oldest batch age p rs) \<subseteq> set rs"
  using oldest_sel by fast

text \<open>A key that has not expired (a reply chunk never does) survives every sweep.\<close>

lemma not_oldest: "\<not> p r \<Longrightarrow> r \<notin> set (oldest batch age p rs)"
  using oldest_sel by fast

lemma sweep_keys_keeps:
  assumes "distinct (map ikey_id (d_ikeys d))" "ikey_of e k d = Some r" "\<not> expired_before now r"
  shows "ikey_of e k (snd (sweep_idempotency_keys batch now d)) = Some r"
  using kept_row [OF assms(1) assms(2) [unfolded ikey_of_def] oldest_subset not_oldest [of "expired_before now", OF assms(3)]]
  by (simp add: ikey_of_def sweep_idempotency_keys_def case_prod_beta)

text \<open>A row that was not published, pending or exhausted, survives every sweep of the outbox.\<close>

lemma sweep_outbox_keeps:
  assumes "distinct (map o_id (d_outbox d))" "get o_id i (d_outbox d) = Some r" "o_published_at r = None"
  shows "get o_id i (d_outbox (snd (sweep_outbox batch n now d))) = Some r"
  using kept_row [OF assms(1,2) oldest_subset not_oldest] assms(3)
  by (simp add: sweep_outbox_def case_prod_beta)

text \<open>Every turn stays, with its status; a turn that is not over keeps its result.\<close>

lemma sweep_results_turn:
  assumes "distinct (map t_key (d_turns d))" "turn_of k d = Some t"
  shows "\<exists>t'. turn_of k (snd (sweep_turn_results batch retention now d)) = Some t' \<and>
    t_status t' = t_status t \<and> t_session t' = t_session t \<and> t_version t' = t_version t \<and>
    (t_status t \<notin> {Delivered, DeliveryFailed} \<longrightarrow> t' = t)"
proof (cases retention)
  case None
  then show ?thesis
    using assms by (simp add: sweep_turn_results_def)
next
  case (Some n)
  let ?old = "oldest batch t_updated_at (clearable (now - days n)) (d_turns d)"
  let ?f = "\<lambda>t. t\<lparr>t_result := None, t_token := None\<rparr>"
  have 1: "turn_of k (snd (sweep_turn_results batch retention now d)) =
      Some (if t_key t \<in> set (map t_key ?old) then ?f t else t)"
    using assms(2) Some by (simp add: sweep_turn_results_def Let_def turn_of_upd)
  have "t_status t \<in> {Delivered, DeliveryFailed}" if "t_key t \<in> set (map t_key ?old)"
  proof -
    obtain t2 where t2: "t2 \<in> set ?old" "t_key t2 = t_key t"
      using \<open>t_key t \<in> set (map t_key ?old)\<close> by auto
    have "t \<in> set (d_turns d)"
      using assms(2) get_SomeD unfolding turn_of_def by fast
    then have "t2 = t"
      using t2 oldest_sel [OF t2(1)] assms(1) by (auto simp: distinct_map inj_on_def)
    then show ?thesis
      using oldest_sel [OF t2(1)] by (simp add: clearable_def)
  qed
  then show ?thesis
    using 1 by auto
qed

lemma retention_keeps_what_is_needed_parts:
  assumes "distinct (map ikey_id (d_ikeys d))" "distinct (map o_id (d_outbox d))" "distinct (map t_key (d_turns d))"
  shows "ikey_of e k d = Some r \<Longrightarrow> \<not> expired_before now r \<Longrightarrow>
      ikey_of e k (snd (sweep_idempotency_keys batch now d)) = Some r"
    "get o_id i (d_outbox d) = Some row \<Longrightarrow> o_published_at row = None \<Longrightarrow>
      get o_id i (d_outbox (snd (sweep_outbox batch ndays now d))) = Some row"
    "turn_of key d = Some t \<Longrightarrow> \<exists>t'. turn_of key (snd (sweep_turn_results batch retention now d)) = Some t' \<and>
      t_status t' = t_status t \<and> (t_status t \<notin> {Delivered, DeliveryFailed} \<longrightarrow> t' = t)"
  using sweep_keys_keeps [OF assms(1)] sweep_outbox_keeps [OF assms(2)] sweep_results_turn [OF assms(3)] by blast+

text \<open>C36. Retention deletes nothing that is still needed: an idempotency key that has not expired, an outbox row
  that was not published, and the reply of a turn that is not over all survive the sweeps, whatever the
  batch size; and no turn loses its row or its status.\<close>

theorem retention_keeps_what_is_needed:
  assumes "distinct (map ikey_id (d_ikeys d))" "distinct (map o_id (d_outbox d))" "distinct (map t_key (d_turns d))"
  shows "((ikey_of e k d = Some r) \<longrightarrow> (\<not> expired_before now r) \<longrightarrow> (ikey_of e k (snd (sweep_idempotency_keys batch now d)) = Some r)) \<and>
     ((get o_id i (d_outbox d) = Some row) \<longrightarrow> (o_published_at row = None) \<longrightarrow> (get o_id i (d_outbox (snd (sweep_outbox batch ndays now d))) = Some row)) \<and>
     ((turn_of key d = Some t) \<longrightarrow> (\<exists>t'. turn_of key (snd (sweep_turn_results batch retention now d)) = Some t' \<and> t_status t' = t_status t \<and> (t_status t \<notin> {Delivered, DeliveryFailed} \<longrightarrow> t' = t)))"
proof -
  have c1: "((ikey_of e k d = Some r) \<longrightarrow> (\<not> expired_before now r) \<longrightarrow> (ikey_of e k (snd (sweep_idempotency_keys batch now d)) = Some r))"
    by ((rule impI)+, rule retention_keeps_what_is_needed_parts(1) [OF assms], assumption+)
  have c2: "((get o_id i (d_outbox d) = Some row) \<longrightarrow> (o_published_at row = None) \<longrightarrow> (get o_id i (d_outbox (snd (sweep_outbox batch ndays now d))) = Some row))"
    by ((rule impI)+, rule retention_keeps_what_is_needed_parts(2) [OF assms], assumption+)
  have c3: "((turn_of key d = Some t) \<longrightarrow> (\<exists>t'. turn_of key (snd (sweep_turn_results batch retention now d)) = Some t' \<and> t_status t' = t_status t \<and> (t_status t \<notin> {Delivered, DeliveryFailed} \<longrightarrow> t' = t)))"
    by ((rule impI)+, rule retention_keeps_what_is_needed_parts(3) [OF assms], assumption+)
  show ?thesis
    by (rule conjI [OF c1 conjI [OF c2 c3]])
qed

definition sample_pending :: db where
  "sample_pending = write_outbox 0 (u ''bot'') (u ''s'') (u ''t'') [] empty_db"

theorem retention_keeps_what_is_needed_witness:
  "get o_id 1 (d_outbox (snd (sweep_outbox 10 7 (days 100) sample_pending))) = Some (hd (d_outbox sample_pending))"
  by (rule retention_keeps_what_is_needed [THEN conjunct2, THEN conjunct1, THEN mp, THEN mp]) (simp_all add: sample_pending_def write_outbox_def empty_db_def)

end
