(* ===== verification/Janitor_Main.thy ===== *)
theory Janitor_Main
  imports Janitor_Lifecycle Janitor_Retention Outbox
begin

text \<open>
  One pass of \<open>janitor/main.py\<close>: under an advisory lock, every sweep in order, each isolated from the
  failures of the others. A sweep that fails is rolled back. The trimming of the streams is
  \<open>trim_acknowledged\<close> of theory \<open>Outbox\<close> and changes no table.
\<close>

type_synonym pass = "db \<Rightarrow> int \<times> db"

text \<open>\<open>down n\<close>: the \<open>n\<close>-th sweep raises. Returns the total and the numbers of the failed sweeps.\<close>

fun run_sweeps :: "(nat \<Rightarrow> bool) \<Rightarrow> nat \<Rightarrow> pass list \<Rightarrow> int \<Rightarrow> db \<Rightarrow> int \<times> nat list \<times> db" where
  "run_sweeps down n [] acc d = (acc, [], d)"
| "run_sweeps down n (f # fs) acc d =
     (if down n then
        (let (acc, bad, d) = run_sweeps down (Suc n) fs acc d in (acc, n # bad, d))
      else (let (k, d) = f d in run_sweeps down (Suc n) fs (acc + k) d))"

definition counted :: "nat \<times> db \<Rightarrow> int \<times> db" where
  "counted r = (int (fst r), snd r)"

text \<open>
  The sweeps of a pass. \<open>keys m\<close> are the fresh keys of the \<open>m\<close>-th sweep, \<open>gap\<close> the commits of others
  during the repair, which runs over several transactions with the default of three attempts. The last
  one only sets gauges (\<open>scan_input_dead_letters\<close>).
\<close>

definition janitor_sweeps ::
  "(nat \<Rightarrow> nat option) \<Rightarrow> settings \<Rightarrow> int \<Rightarrow> (nat \<Rightarrow> nat \<Rightarrow> pystr) \<Rightarrow> (nat \<Rightarrow> db \<Rightarrow> db) \<Rightarrow> pass list" where
  "janitor_sweeps udigit cfg now keys gap =
    (let batch = nat (RETENTION_BATCH_SIZE cfg) in
     [\<lambda>d. (let ((a, b), d) = sweep_session_thread_binding_drift 3 gap d in (int a + int b, d)),
      \<lambda>d. counted (sweep_creating_watchdog cfg now (keys 1) d),
      \<lambda>d. counted (sweep_resuming_watchdog cfg now (keys 2) d),
      \<lambda>d. counted (sweep_stopping_watchdog (STOP_STUCK_THRESHOLD_SECONDS cfg) now d),
      \<lambda>d. counted (sweep_idle_timeout (DEFAULT_IDLE_TIMEOUT_MINUTES cfg) now d),
      \<lambda>d. counted (sweep_archive_timeout (DEFAULT_ARCHIVE_TIMEOUT_MINUTES cfg) now (keys 5) d),
      \<lambda>d. counted (sweep_stop_timeout (DEFAULT_STOP_TIMEOUT_HOURS cfg) now (keys 6) d),
      \<lambda>d. counted (sweep_runner_heartbeat_orphans cfg (ORPHAN_RECOVERY_TTL_HOURS cfg) now (keys 7) d),
      \<lambda>d. counted (sweep_idempotency_keys batch now d),
      \<lambda>d. counted (sweep_events batch (EVENT_RETENTION_DAYS cfg) now d),
      \<lambda>d. counted (sweep_outbox batch (OUTBOX_RETENTION_DAYS cfg) now d),
      \<lambda>d. counted (sweep_turn_results batch (retention_days udigit (INPUT_IDEMPOTENCY_RETENTION cfg)) now d),
      \<lambda>d. (0, d)])"

definition run_sweep_once ::
  "(nat \<Rightarrow> nat option) \<Rightarrow> settings \<Rightarrow> int \<Rightarrow> (nat \<Rightarrow> nat \<Rightarrow> pystr) \<Rightarrow> (nat \<Rightarrow> db \<Rightarrow> db) \<Rightarrow>
   (nat \<Rightarrow> bool) \<Rightarrow> bool \<Rightarrow> db \<Rightarrow> int \<times> nat list \<times> db" where
  "run_sweep_once udigit cfg now keys gap down acquired d =
     (if \<not> acquired then (-1, [], d)
      else run_sweeps down 0 (janitor_sweeps udigit cfg now keys gap) 0 d)"

text \<open>A failing sweep is reported and skips no other.\<close>

lemma run_sweeps_failed:
  "set (fst (snd (run_sweeps down n fs acc d))) = {i. n \<le> i \<and> i < n + length fs \<and> down i}"
proof (induction fs arbitrary: n acc d)
  case (Cons f fs)
  have split: "{i. n \<le> i \<and> i < n + length (f # fs) \<and> down i} =
      (if down n then {n} else {}) \<union> {i. Suc n \<le> i \<and> i < Suc n + length fs \<and> down i}"
    by (auto simp: le_Suc_eq) (metis Suc_leI le_neq_implies_less)+
  show ?case
    unfolding split by (simp add: Cons.IH case_prod_beta Let_def)
qed simp

text \<open>A failing sweep is isolated: the pass reports exactly the sweeps that failed, and the database is what the
  sweeps that did not fail make of it, in their order.\<close>

lemma run_sweeps_eq:
  "run_sweeps down n fs acc d =
     (fst (run_sweeps down n fs acc d), filter down [n..<n + length fs],
      fold (\<lambda>(f, i) d. if down i then d else snd (f d)) (zip fs [n..<n + length fs]) d)"
proof (induction fs arbitrary: n acc d)
  case (Cons f fs)
  have u: "[n..<n + length (f # fs)] = n # [Suc n..<Suc n + length fs]"
    using upt_conv_Cons [of n "n + length (f # fs)"] by simp
  show ?case
    unfolding u using Cons.IH [of "Suc n"] by (auto simp: Let_def case_prod_beta prod_eq_iff)
qed simp

theorem failing_sweeps_are_isolated:
  "snd (run_sweeps down 0 fs 0 d) =
     (filter down [0..<length fs], fold (\<lambda>(f, i) d. if down i then d else snd (f d)) (zip fs [0..<length fs]) d)"
  using arg_cong [OF run_sweeps_eq [of down 0 fs 0 d], of snd] by simp

end
