(* ===== verification/Lifecycle.thy ===== *)
theory Lifecycle
  imports Bot_Sagas Janitor_Main Turn_System
begin

text \<open>
  The life of a session across the components: every operation that changes a session raises its
  version, or moves it forward within the version; and what has ended under a version never comes
  back to life under it. The locale \<open>session_op\<close> states this of one operation, \<open>lifecycle_op\<close> adds the
  safety of the turn ledger; they are interpreted for the operations of the bot and of the janitor
  here, and for the runner's jobs in theory \<open>World\<close>.
\<close>

subsection \<open>The registry of transitions\<close>

text \<open>\<open>STATE_TRANSITIONS\<close> of \<open>specs/state_machine.py\<close>, as it is written there.\<close>

definition STATE_TRANSITIONS :: "status \<Rightarrow> status list" where
  "STATE_TRANSITIONS st =
     (case st of
        Creating \<Rightarrow> [Running, Failed]
      | Running \<Rightarrow> [Idle, Stopping, Failed, Orphaned]
      | Idle \<Rightarrow> [Running, Archived, Stopping, Orphaned]
      | Archived \<Rightarrow> [Resuming]
      | Resuming \<Rightarrow> [Running, Orphaned, Failed]
      | Stopping \<Rightarrow> [Stopped, Failed, Orphaned]
      | Stopped \<Rightarrow> []
      | Failed \<Rightarrow> []
      | Orphaned \<Rightarrow> [])"

subsection \<open>Moving forward\<close>

definition live :: "status \<Rightarrow> bool" where
  "live st \<longleftrightarrow> st \<in> {Creating, Resuming, Running, Idle}"

definition final :: "status \<Rightarrow> bool" where
  "final st \<longleftrightarrow> st \<in> {Failed, Orphaned}"

text \<open>What may happen to the status while the version stays.\<close>

definition same_version :: "status \<Rightarrow> status \<Rightarrow> bool" where
  "same_version a b \<longleftrightarrow> a = b \<or> (live a \<and> b \<in> {Running, Idle, Failed, Orphaned}) \<or> (a = Stopping \<and> b = Stopped)"

lemma same_version_trans: "same_version a b \<Longrightarrow> same_version b c \<Longrightarrow> same_version a c"
  by (auto simp: same_version_def live_def)

lemma same_version_live: "same_version a b \<Longrightarrow> live b \<Longrightarrow> live a"
  by (auto simp: same_version_def live_def)

definition session_le :: "session \<Rightarrow> session \<Rightarrow> bool" where
  "session_le s s' \<longleftrightarrow> s_id s' = s_id s \<and> s_version s \<le> s_version s' \<and>
     (s_version s' = s_version s \<longrightarrow> same_version (s_status s) (s_status s')) \<and>
     (final (s_status s) \<longrightarrow> s_status s' = s_status s)"

lemma session_le_refl [simp]: "session_le s s"
  by (simp add: session_le_def same_version_def)

lemma session_le_trans:
  assumes "session_le a b" "session_le b c"
  shows "session_le a c"
proof -
  have "same_version (s_status a) (s_status c)" if "s_version c = s_version a"
  proof -
    have "s_version b = s_version a" "s_version c = s_version b"
      using assms that by (auto simp: session_le_def)
    then show ?thesis
      using assms same_version_trans [of "s_status a" "s_status b" "s_status c"] by (simp add: session_le_def)
  qed
  then show ?thesis
    using assms by (auto simp: session_le_def)
qed

definition lifecycle_safe :: "db \<Rightarrow> db \<Rightarrow> bool" where
  "lifecycle_safe d d' \<longleftrightarrow>
     (\<forall>i s. session_of i d = Some s \<longrightarrow> (\<exists>s'. session_of i d' = Some s' \<and> session_le s s'))"

lemma lifecycle_safe_refl [simp]: "lifecycle_safe d d"
  by (simp add: lifecycle_safe_def)

lemma lifecycle_safe_trans: "lifecycle_safe d d' \<Longrightarrow> lifecycle_safe d' d'' \<Longrightarrow> lifecycle_safe d d''"
  unfolding lifecycle_safe_def using session_le_trans by meson

lemma lifecycle_safe_frame: "d_sessions d' = d_sessions d'' \<Longrightarrow> lifecycle_safe d d' = lifecycle_safe d d''"
  by (simp add: lifecycle_safe_def session_of_def)

lemma lifecycle_safe_write [simp]:
  "lifecycle_safe d (write_outbox now pr st ety p d') = lifecycle_safe d d'"
  "lifecycle_safe d (add_event now key g i a ty pl d') = lifecycle_safe d d'"
  by (rule lifecycle_safe_frame, simp add: write_outbox_def add_event_def)+

lemma lifecycle_safe_upd:
  assumes "\<And>s. s_id (f s) = s_id s" "\<And>s. s \<in> set (d_sessions d) \<Longrightarrow> p s \<Longrightarrow> session_le s (f s)"
  shows "lifecycle_safe d (upd_sessions p f d)"
proof -
  have "session_of i d = Some s \<Longrightarrow> s \<in> set (d_sessions d)" for i s
    unfolding session_of_def using get_SomeD by fast
  then show ?thesis
    using assms by (auto simp: lifecycle_safe_def session_of_upd)
qed

lemma lifecycle_safe_set:
  assumes "\<And>s. s_id (f s) = s_id s" "\<And>s. session_of sid d = Some s \<Longrightarrow> session_le s (f s)"
  shows "lifecycle_safe d (set_session sid f d)"
  using assms by (auto simp: lifecycle_safe_def)

text \<open>A change of status that raises the version, and one that keeps the status.\<close>

lemma session_le_bump:
  "s_id s' = s_id s \<Longrightarrow> s_version s < s_version s' \<Longrightarrow> \<not> final (s_status s) \<Longrightarrow> session_le s s'"
  by (simp add: session_le_def)

lemma session_le_keep:
  "s_id s' = s_id s \<Longrightarrow> s_version s' = s_version s \<Longrightarrow> s_status s' = s_status s \<Longrightarrow> session_le s s'"
  by (simp add: session_le_def same_version_def)

lemma session_le_within:
  "s_id s' = s_id s \<Longrightarrow> s_version s' = s_version s \<Longrightarrow> same_version (s_status s) (s_status s') \<Longrightarrow>
   \<not> final (s_status s) \<Longrightarrow> session_le s s'"
  by (simp add: session_le_def)

lemmas session_le_rules = session_le_bump session_le_keep session_le_within

subsection \<open>The contract of an operation\<close>

text \<open>The primary key of the sessions.\<close>

definition ids_ok :: "db \<Rightarrow> bool" where
  "ids_ok d \<longleftrightarrow> distinct (map s_id (d_sessions d))"

lemma ids_frame: "d_sessions d' = d_sessions d \<Longrightarrow> ids_ok d' = ids_ok d"
  by (simp add: ids_ok_def)

lemma ids_write [simp]:
  "ids_ok (write_outbox now pr st ety p d) = ids_ok d" "ids_ok (add_event now key g i a ty pl d) = ids_ok d"
  by (rule ids_frame, simp)+

lemma ids_upd: "(\<And>s. s_id (f s) = s_id s) \<Longrightarrow> ids_ok (upd_sessions p f d) = ids_ok d"
  by (simp add: ids_ok_def map_key_upd)

lemma ids_set: "(\<And>s. s_id (f s) = s_id s) \<Longrightarrow> ids_ok (set_session sid f d) = ids_ok d"
  unfolding set_session_def by (rule ids_upd)

locale session_op =
  fixes oper :: "'a \<Rightarrow> db \<Rightarrow> db"
  assumes keeps_ids: "ids_ok d \<Longrightarrow> ids_ok (oper x d)"
    and keeps_sessions: "ids_ok d \<Longrightarrow> lifecycle_safe d (oper x d)"
begin

lemma keeps_all: "ids_ok d \<Longrightarrow> ids_ok (foldr oper xs d) \<and> lifecycle_safe d (foldr oper xs d)"
  by (induction xs) (auto intro: lifecycle_safe_trans keeps_sessions keeps_ids)

text \<open>What is not live under a version is not live under it later.\<close>

lemma never_live_again:
  assumes "ids_ok d" "session_of i d = Some s" "\<not> live (s_status s)"
    "session_of i (foldr oper xs d) = Some s'" "s_version s' = s_version s"
  shows "\<not> live (s_status s')"
  using keeps_all [OF assms(1), of xs] assms same_version_live
  unfolding lifecycle_safe_def session_le_def by fastforce

lemma final_stays:
  assumes "ids_ok d" "session_of i d = Some s" "final (s_status s)"
  shows "\<exists>s'. session_of i (foldr oper xs d) = Some s' \<and> s_status s' = s_status s"
  using keeps_all [OF assms(1), of xs] assms unfolding lifecycle_safe_def session_le_def by blast

end

text \<open>What other processes may do while a worker runs: both contracts.\<close>

locale lifecycle_op = ledger_op + session_op

subsection \<open>The bot's operations\<close>

datatype bot_op =
    OpCreate settings int uuid pystr pystr pystr pystr create_args
  | OpInput settings input_quotas int pystr input_args
  | OpBind uuid pystr
  | OpStop int pystr pystr uuid pystr pystr "pystr option"
  | OpArchive int pystr pystr pystr uuid pystr
  | OpResume int pystr pystr uuid pystr "pystr option"
  | OpRestart int pystr pystr uuid pystr pystr
  | OpInvite int pystr uuid pystr pystr pystr

primrec perform :: "bot_op \<Rightarrow> db \<Rightarrow> db" where
  "perform (OpCreate cfg now sid k1 k2 sh ct a) d = snd (run_create_saga cfg now sid k1 k2 sh ct a d)"
| "perform (OpInput cfg q now key a) d = snd (run_input_saga cfg q now key a d)"
| "perform (OpBind sid thread) d = snd (bind_session_thread sid thread d)"
| "perform (OpStop now k1 k2 sid guild who host) d = snd (run_stop_saga now k1 k2 sid guild who host d)"
| "perform (OpArchive now k1 k2 k3 sid guild) d = snd (run_archive_saga now k1 k2 k3 sid guild d)"
| "perform (OpResume now k1 k2 sid guild host) d = snd (run_resume_saga now k1 k2 sid guild host d)"
| "perform (OpRestart now k1 k2 sid guild who) d = snd (run_restart_saga now k1 k2 sid guild who d)"
| "perform (OpInvite now k sid guild invitee name) d = snd (invite_user_to_session now k sid guild invitee name d)"

lemmas saga_defs = run_stop_saga_def run_archive_saga_def run_resume_saga_def run_restart_saga_def
  bind_session_thread_def invite_user_to_session_def

text \<open>Sessions.\<close>

lemma safe_stop: "lifecycle_safe d (snd (run_stop_saga now k1 k2 sid guild who host d))"
  by (auto simp: run_stop_saga_def Let_def final_def split: option.split
      intro!: lifecycle_safe_set session_le_bump)

lemma safe_archive: "lifecycle_safe d (snd (run_archive_saga now k1 k2 k3 sid guild d))"
  by (auto simp: run_archive_saga_def Let_def final_def split: option.split
      intro!: lifecycle_safe_set session_le_bump)

lemma safe_resume: "lifecycle_safe d (snd (run_resume_saga now k1 k2 sid guild host d))"
  by (auto simp: run_resume_saga_def Let_def final_def split: option.split
      intro!: lifecycle_safe_set session_le_bump)

lemma safe_restart: "lifecycle_safe d (snd (run_restart_saga now k1 k2 sid guild who d))"
  by (auto simp: run_restart_saga_def Let_def final_def split: option.split
      intro!: lifecycle_safe_set session_le_bump)

text \<open>The registry of transitions is not what the operations do: every restart leaves it.\<close>

lemma restart_leaves_registry:
  assumes "run_restart_saga now k1 k2 sid guild who d = (Inr r, d')"
  shows "\<exists>s s'. session_of sid d = Some s \<and> session_of sid d' = Some s' \<and>
     s_status s' \<notin> set (STATE_TRANSITIONS (s_status s))"
  using assms
  by (auto simp: run_restart_saga_def STATE_TRANSITIONS_def change_status_def split: option.splits if_splits)

lemma safe_outbox_only: "lifecycle_safe d (d'\<lparr>d_outbox := x\<rparr>) = lifecycle_safe d d'"
  by (rule lifecycle_safe_frame) simp

lemma safe_bind: "lifecycle_safe d (snd (bind_session_thread sid thread d))"
  by (auto simp: bind_session_thread_def safe_outbox_only split: option.split
      intro!: lifecycle_safe_set session_le_keep)

lemma safe_invite: "lifecycle_safe d (snd (invite_user_to_session now k sid guild invitee name d))"
  by (auto simp: invite_user_to_session_def Let_def ensure_user_def split: option.split
      intro!: iffD1 [OF lifecycle_safe_frame lifecycle_safe_refl])

lemma safe_append: "d_sessions d' = d_sessions d'' @ [s] \<Longrightarrow> lifecycle_safe d d'' \<Longrightarrow> lifecycle_safe d d'"
  unfolding lifecycle_safe_def session_of_def by (fastforce simp: get_append)

lemma safe_create: "lifecycle_safe d (snd (run_create_saga cfg now sid k1 k2 sh ct a d))"
proof (cases "run_create_saga cfg now sid k1 k2 sh ct a d")
  case (Pair r d')
  show ?thesis
  proof (cases r)
    case (Inl e)
    then show ?thesis
      using Pair by (auto simp: run_create_saga_def Let_def split: option.splits if_splits)
  next
    case (Inr old)
    obtain p where p: "d_sessions d' =
        upd p (\<lambda>s. s\<lparr>s_reason := Some (superseded_by sid)\<rparr>) (d_sessions d) @ [new_session now sid sh a]"
      using create_ok_sessions(1) Pair Inr by blast
    have "lifecycle_safe d (upd_sessions p (\<lambda>s. s\<lparr>s_reason := Some (superseded_by sid)\<rparr>) d)"
      by (rule lifecycle_safe_upd) (auto intro: session_le_keep)
    then show ?thesis
      using safe_append [of d' "upd_sessions p (\<lambda>s. s\<lparr>s_reason := Some (superseded_by sid)\<rparr>) d"] p Pair by simp
  qed
qed

lemma safe_input: "lifecycle_safe d (snd (run_input_saga cfg q now key a d))"
proof -
  have "lifecycle_safe d (insert_turn now key i v d') = lifecycle_safe d d'" for i v d'
    by (rule lifecycle_safe_frame) simp
  moreover have "lifecycle_safe d (set_session i (\<lambda>s. s\<lparr>s_activity_at := now, s_status := Running\<rparr>) d)"
    if "session_of i d = Some s" "s_status s \<in> {Running, Idle}" for i s
    using that by (intro lifecycle_safe_set session_le_within) (auto simp: same_version_def live_def final_def)
  ultimately show ?thesis
    by (simp add: run_input_saga_def Let_def split: option.split sum.split bool.split)
qed

text \<open>Turns.\<close>

lemma turns_frame:
  "d_turns (snd (run_stop_saga now k1 k2 sid guild who host d)) = d_turns d"
  "d_turns (snd (run_archive_saga now k1 k2 k3 sid guild d)) = d_turns d"
  "d_turns (snd (run_resume_saga now k1 k2 sid guild host d)) = d_turns d"
  "d_turns (snd (run_restart_saga now k1 k2 sid guild who d)) = d_turns d"
  "d_turns (snd (bind_session_thread sid thread d)) = d_turns d"
  "d_turns (snd (invite_user_to_session now k sid guild invitee name d)) = d_turns d"
  by (simp_all add: saga_defs Let_def ensure_user_def split: option.split)

lemma turns_create: "d_turns (snd (run_create_saga cfg now sid k1 k2 sh ct a d)) = d_turns d"
  by (simp add: run_create_saga_def Let_def split: option.split)

text \<open>An accepted input adds one queued turn, under a key that had none.\<close>

lemma turn_of_input:
  "turn_of k (snd (run_input_saga cfg q now key a d)) = turn_of k d \<or>
   (k = key \<and> turn_of k d = None \<and> (\<exists>t. turn_of k (snd (run_input_saga cfg q now key a d)) = Some t \<and>
      t_status t = Queued \<and> t_session t = ia_session a))"
proof -
  have "turn_of k (insert_turn now key i v d') =
      (case turn_of k d' of None \<Rightarrow>
         if k = key then Some \<lparr>t_seq = d_next_turn d', t_key = key, t_session = i, t_version = v, t_status = Queued,
           t_result = None, t_token = None, t_created_at = now, t_updated_at = now\<rparr> else None
       | Some t \<Rightarrow> Some t)" for i v d'
    by (cases "turn_of k d'") (simp_all add: turn_of_def insert_turn_def get_append)
  then show ?thesis
    by (simp add: run_input_saga_def Let_def split: option.split sum.split bool.split)
qed

lemma ledger_input: "ledger_safe d (snd (run_input_saga cfg q now key a d))"
  unfolding ledger_safe_def using turn_of_input by (metis option.distinct(1))

text \<open>Keys.\<close>

lemma ids_sagas:
  "ids_ok (snd (run_stop_saga now k1 k2 sid guild who host d)) = ids_ok d"
  "ids_ok (snd (run_archive_saga now k1 k2 k3 sid guild d)) = ids_ok d"
  "ids_ok (snd (run_resume_saga now k1 k2 sid guild host' d)) = ids_ok d"
  "ids_ok (snd (run_restart_saga now k1 k2 sid guild who d)) = ids_ok d"
  "ids_ok (snd (bind_session_thread sid thread d)) = ids_ok d"
  "ids_ok (snd (invite_user_to_session now k sid guild invitee name d)) = ids_ok d"
  by (simp_all add: saga_defs Let_def ensure_user_def ids_ok_def map_key_upd split: option.split)

lemma ids_create: "ids_ok d \<Longrightarrow> ids_ok (snd (run_create_saga cfg now sid k1 k2 sh ct a d))"
proof (cases "run_create_saga cfg now sid k1 k2 sh ct a d")
  case (Pair r d')
  assume ok: "ids_ok d"
  show ?thesis
  proof (cases r)
    case (Inl e)
    then show ?thesis
      using Pair ok by (auto simp: run_create_saga_def Let_def split: option.splits if_splits)
  next
    case (Inr old)
    obtain p where p: "d_sessions d' =
        upd p (\<lambda>s. s\<lparr>s_reason := Some (superseded_by sid)\<rparr>) (d_sessions d) @ [new_session now sid sh a]"
      using create_ok_sessions(1) Pair Inr by blast
    have "session_of sid d = None"
      using create_fresh Pair Inr by blast
    then have "sid \<notin> s_id ` set (d_sessions d)"
      by (simp add: session_of_def get_None_iff)
    then show ?thesis
      using ok p Pair by (simp add: ids_ok_def map_key_upd new_session_def set_upd image_image if_distrib)
  qed
qed

lemma ids_input: "ids_ok (snd (run_input_saga cfg q now key a d)) = ids_ok d"
proof -
  have "ids_ok (insert_turn now key i v d') = ids_ok d'" for i v d'
    by (rule ids_frame) simp
  then show ?thesis
    by (simp add: run_input_saga_def Let_def ids_set split: option.split sum.split bool.split)
qed

interpretation bot: lifecycle_op perform
proof
  show "ledger_safe d (perform x d)" for x d
    by (cases x) (simp_all add: ledger_input ledger_safe_frame turns_frame turns_create)
  show "ids_ok d \<Longrightarrow> ids_ok (perform x d)" for x d
    by (cases x) (simp_all add: ids_sagas ids_create ids_input)
  show "ids_ok d \<Longrightarrow> lifecycle_safe d (perform x d)" for x d
    by (cases x) (simp_all add: safe_create safe_input safe_bind safe_stop safe_archive safe_resume safe_restart
        safe_invite)
qed

text \<open>The bot's operations are steps of the system of workers.\<close>

definition op_key :: "bot_op \<Rightarrow> pystr option" where
  "op_key x = (case x of OpInput cfg q now key a \<Rightarrow> Some key | _ \<Rightarrow> None)"

lemma perform_new_turn:
  "turn_of k d = None \<Longrightarrow> turn_of k (perform x d) \<noteq> None \<Longrightarrow> op_key x = Some k"
proof (cases x)
  case (OpInput cfg q now key a)
  then show "turn_of k d = None \<Longrightarrow> turn_of k (perform x d) \<noteq> None \<Longrightarrow> op_key x = Some k"
    using turn_of_input [of k cfg q now key a d] by (auto simp: op_key_def)
qed (simp_all add: turn_of_def turns_frame turns_create)

lemma perform_step:
  "\<forall>k. op_key x = Some k \<longrightarrow> k \<notin> y_used y \<Longrightarrow> step cfg xc y (y\<lparr>y_db := perform x (y_db y)\<rparr>)"
  by (rule others [OF bot.keeps_ledger]) (metis perform_new_turn)

subsection \<open>The janitor's sweeps\<close>

lemma for_rows_keep:
  assumes "\<And>n s d'. s \<in> set rows \<Longrightarrow> lifecycle_safe d0 d' \<Longrightarrow> lifecycle_safe d0 (act n s d')"
  shows "lifecycle_safe d0 d' \<Longrightarrow> lifecycle_safe d0 (for_rows act n rows d')"
  using assms by (induction rows arbitrary: n d') simp_all

lemma for_rows_turns:
  "(\<And>n s d. d_turns (act n s d) = d_turns d) \<Longrightarrow> d_turns (for_rows act n rows d) = d_turns d"
  by (induction rows arbitrary: n d) simp_all

text \<open>A sweep whose update and whose action on the returned rows are safe.\<close>

lemma sweep_safe:
  assumes "\<And>s. s_id (f s) = s_id s" "\<And>s. p s \<Longrightarrow> session_le s (f s)"
    "\<And>n s d'. lifecycle_safe d d' \<Longrightarrow> lifecycle_safe d (act n s d')"
  shows "lifecycle_safe d (snd (sweep p f act d))"
  using assms by (auto simp: sweep_def update_returning_def Let_def intro!: for_rows_keep lifecycle_safe_upd)

lemma sweep_turns:
  "(\<And>n s d. d_turns (act n s d) = d_turns d) \<Longrightarrow> d_turns (snd (sweep p f act d)) = d_turns d"
  by (simp add: sweep_def update_returning_def Let_def for_rows_turns)

lemma safe_notice [simp]: "lifecycle_safe d (janitor_notice now ety p s d') = lifecycle_safe d d'"
  by (simp add: janitor_notice_def)

lemma turns_notice [simp]: "d_turns (janitor_notice now ety p s d) = d_turns d"
  by (simp add: janitor_notice_def)

lemma safe_release:
  assumes "lifecycle_safe d d'"
  shows "lifecycle_safe d (release_superseded sid d')"
proof -
  have "lifecycle_safe d' (release_superseded sid d')"
    unfolding release_superseded_def by (rule lifecycle_safe_upd) (auto intro: session_le_keep)
  then show ?thesis
    using assms lifecycle_safe_trans by blast
qed

lemma turns_release [simp]: "d_turns (release_superseded sid d) = d_turns d"
  by (simp add: release_superseded_def)

lemmas forward = session_le_rules same_version_def live_def final_def

lemma safe_creating: "lifecycle_safe d (snd (sweep_creating_watchdog cfg now keys d))"
  unfolding sweep_creating_watchdog_def by (rule sweep_safe) (auto simp: forward safe_release)

lemma safe_resuming: "lifecycle_safe d (snd (sweep_resuming_watchdog cfg now keys d))"
  unfolding sweep_resuming_watchdog_def by (rule sweep_safe) (auto simp: forward)

lemma safe_idle: "lifecycle_safe d (snd (sweep_idle_timeout m now d))"
  unfolding sweep_idle_timeout_def by (rule sweep_safe) (auto simp: forward)

lemma safe_archive_timeout: "lifecycle_safe d (snd (sweep_archive_timeout m now keys d))"
  unfolding sweep_archive_timeout_def by (rule sweep_safe) (auto simp: forward Let_def)

lemma safe_stopping: "lifecycle_safe d (snd (sweep_stopping_watchdog m now d))"
  unfolding sweep_stopping_watchdog_def by (rule sweep_safe) (auto simp: forward)

text \<open>
  The stop sweep writes a second time to the sessions without a host: those it has just moved to
  \<open>stopping\<close> under a new version.
\<close>

definition just_stopping :: "db \<Rightarrow> session list \<Rightarrow> db \<Rightarrow> bool" where
  "just_stopping d0 rows d \<longleftrightarrow> lifecycle_safe d0 d \<and>
     (\<forall>s \<in> set rows. \<forall>r. session_of (s_id s) d = Some r \<longrightarrow> s_status r \<in> {Stopping, Stopped})"

lemma stop_row_keeps:
  assumes "just_stopping d0 rows d" "s \<in> set rows"
  shows "just_stopping d0 rows (set_session (s_id s) (\<lambda>s. s\<lparr>s_status := Stopped, s_stopped_at := Some now\<rparr>) d)"
proof -
  have "lifecycle_safe d (set_session (s_id s) (\<lambda>s. s\<lparr>s_status := Stopped, s_stopped_at := Some now\<rparr>) d)"
    using assms by (intro lifecycle_safe_set session_le_within)
      (auto simp: just_stopping_def same_version_def final_def)
  then show ?thesis
    using assms lifecycle_safe_trans by (auto simp: just_stopping_def split: if_splits)
qed

lemma just_stopping_write [simp]:
  "just_stopping d0 rows (write_outbox now pr st ety p d) = just_stopping d0 rows d"
  by (simp add: just_stopping_def)

lemma for_rows_inv:
  "(\<And>n s d. s \<in> set rows \<Longrightarrow> I d \<Longrightarrow> I (act n s d)) \<Longrightarrow> I d \<Longrightarrow> I (for_rows act n rows d)"
  by (induction rows arbitrary: n d) simp_all

lemma safe_stop_timeout:
  assumes "ids_ok d"
  shows "lifecycle_safe d (snd (sweep_stop_timeout m now keys d))"
proof -
  let ?p = "\<lambda>s. s_status s \<in> {Running, Idle, Archived} \<and> s_activity_at s < now - hours m \<and> no_open_turn d s"
  let ?f = "\<lambda>s. s\<lparr>s_status := Stopping, s_reason := Some (u ''idle_archive_timeout''),
      s_version := s_version s + 1, s_changed_at := now\<rparr>"
  let ?rows = "map ?f (sel ?p (d_sessions d))"
  let ?act = "\<lambda>n s d. if opt_str (s_host s) \<noteq> [] then
      write_outbox now (u ''janitor'') (runner_jobs (opt_str (s_host s))) (u ''runner.stop_session.v1'')
        (stop_job (keys n) s) d
    else set_session (s_id s) (\<lambda>s. s\<lparr>s_status := Stopped, s_stopped_at := Some now\<rparr>) d"
  have start: "just_stopping d ?rows (upd_sessions ?p ?f d)"
    unfolding just_stopping_def
  proof
    show "lifecycle_safe d (upd_sessions ?p ?f d)"
      by (rule lifecycle_safe_upd) (auto simp: forward)
    show "\<forall>s \<in> set ?rows. \<forall>r. session_of (s_id s) (upd_sessions ?p ?f d) = Some r \<longrightarrow>
        s_status r \<in> {Stopping, Stopped}"
    proof (intro ballI allI impI)
      fix s r
      assume "s \<in> set ?rows" and r: "session_of (s_id s) (upd_sessions ?p ?f d) = Some r"
      then obtain s0 where s0: "s0 \<in> set (d_sessions d)" "?p s0" "s_id s = s_id s0"
        by (auto simp: sel_def)
      have "session_of (s_id s0) d = Some s0"
        using get_distinct assms s0(1) by (fastforce simp: session_of_def ids_ok_def)
      then have "r = ?f s0"
        using r s0 by (simp add: session_of_upd)
      then show "s_status r \<in> {Stopping, Stopped}"
        by simp
    qed
  qed
  have "just_stopping d ?rows (for_rows ?act 0 ?rows (upd_sessions ?p ?f d))"
    by (rule for_rows_inv [where I = "just_stopping d ?rows", OF _ start]) (use stop_row_keeps in auto)
  then show ?thesis
    by (simp add: sweep_stop_timeout_def sweep_def update_returning_def just_stopping_def)
qed

lemma safe_orphans: "lifecycle_safe d (snd (sweep_runner_heartbeat_orphans cfg h now keys d))"
proof -
  have "lifecycle_safe (mark_stale_hosts cfg now d) (snd (sweep_runner_heartbeat_orphans cfg h now keys d))"
    unfolding sweep_runner_heartbeat_orphans_def Let_def by (rule sweep_safe) (auto simp: forward)
  then show ?thesis
    unfolding lifecycle_safe_def by (simp add: mark_stale_hosts_def session_of_def)
qed

text \<open>The repair keeps status and version; its interference is what others do.\<close>

lemma safe_repair_one: "lifecycle_safe d (snd (repair_one m c d))"
proof -
  have retire: "lifecycle_safe d (snd (retire_drifted m i d))" for i d
    by (auto simp: retire_drifted_def split: option.split intro!: lifecycle_safe_set session_le_keep)
  have attempt: "lifecycle_safe d (snd (count_attempt m i d))" for i d
    by (auto simp: count_attempt_def Let_def split: option.split intro!: lifecycle_safe_set session_le_keep)
  have clear: "lifecycle_safe d (clear_marker i d)" for i d
    by (auto simp: clear_marker_def split: option.split intro!: lifecycle_safe_set session_le_keep)
  show ?thesis
    using retire attempt clear safe_bind lifecycle_safe_trans
    by (simp add: repair_one_def Let_def case_prod_beta split: option.split) blast
qed

lemma safe_repair_all:
  assumes "\<And>n d. lifecycle_safe d (gap n d)"
  shows "lifecycle_safe d (snd (repair_all m gap n cs d))"
proof (induction cs arbitrary: n d)
  case (Cons c cs)
  have "lifecycle_safe d (snd (repair_all m gap (Suc n) cs (snd (repair_one m c (gap n d)))))"
    by (rule lifecycle_safe_trans [OF assms lifecycle_safe_trans [OF safe_repair_one Cons.IH]])
  then show ?case
    by (simp add: Let_def case_prod_beta split: repair.split)
qed simp

lemma repair_frames:
  "d_turns (snd (repair_one m c d)) = d_turns d"
  "ids_ok (snd (repair_one m c d)) = ids_ok d"
  by (simp_all add: repair_one_def retire_drifted_def count_attempt_def clear_marker_def bind_session_thread_def
      Let_def case_prod_beta ids_ok_def map_key_upd split: option.split)

lemma repair_all_frames:
  assumes "\<And>n d. ledger_safe d (gap n d)" "\<And>n d. ids_ok d \<Longrightarrow> ids_ok (gap n d)"
  shows "ledger_safe d (snd (repair_all m gap n cs d)) \<and> (ids_ok d \<longrightarrow> ids_ok (snd (repair_all m gap n cs d)))"
proof (induction cs arbitrary: n d)
  case (Cons c cs)
  let ?d = "snd (repair_one m c (gap n d))"
  have "ledger_safe d ?d" "ids_ok d \<longrightarrow> ids_ok ?d"
    using assms ledger_safe_trans [OF assms(1) ledger_safe_frame [of ?d "gap n d"]] by (simp_all add: repair_frames)
  then have "ledger_safe d (snd (repair_all m gap (Suc n) cs ?d)) \<and>
      (ids_ok d \<longrightarrow> ids_ok (snd (repair_all m gap (Suc n) cs ?d)))"
    using Cons.IH ledger_safe_trans by blast
  then show ?case
    by (simp add: Let_def case_prod_beta split: repair.split)
qed simp

text \<open>What a sweep of the pass guarantees; the sweeps that write no session need only frames.\<close>

definition pass_ok :: "pass \<Rightarrow> bool" where
  "pass_ok f \<longleftrightarrow> (\<forall>d. ledger_safe d (snd (f d)) \<and> (\<forall>k. turn_of k d = None \<longrightarrow> turn_of k (snd (f d)) = None) \<and>
     (ids_ok d \<longrightarrow> ids_ok (snd (f d)) \<and> lifecycle_safe d (snd (f d))))"

lemma pass_ok_sessions:
  assumes "\<And>d. d_turns (snd (f d)) = d_turns d" "\<And>d. ids_ok d \<Longrightarrow> ids_ok (snd (f d))"
    "\<And>d. ids_ok d \<Longrightarrow> lifecycle_safe d (snd (f d))"
  shows "pass_ok (\<lambda>d. counted (f d))"
  using assms by (simp add: pass_ok_def counted_def ledger_safe_frame turn_of_def)

lemma pass_ok_frame:
  assumes "\<And>d. d_turns (snd (f d)) = d_turns d" "\<And>d. d_sessions (snd (f d)) = d_sessions d"
  shows "pass_ok (\<lambda>d. counted (f d))"
  by (rule pass_ok_sessions [OF assms(1)])
    (use assms(2) in \<open>simp_all add: ids_ok_def lifecycle_safe_def session_of_def\<close>)

lemma sweep_ids:
  assumes "\<And>s. s_id (f s) = s_id s" "\<And>n s d. ids_ok (act n s d) = ids_ok d"
  shows "ids_ok (snd (sweep p f act d)) = ids_ok d"
proof -
  have "ids_ok (for_rows act n rows d) = ids_ok d" for n rows d
    by (induction rows arbitrary: n d) (simp_all add: assms(2))
  then show ?thesis
    using assms(1) by (simp add: sweep_def update_returning_def Let_def ids_upd)
qed

lemma ids_notice [simp]: "ids_ok (janitor_notice now ety p s d) = ids_ok d"
  by (simp add: janitor_notice_def)

lemma ids_release [simp]: "ids_ok (release_superseded sid d) = ids_ok d"
  by (simp add: release_superseded_def ids_upd)

lemmas sweep_frames = sweep_turns sweep_ids

lemma pass_creating: "pass_ok (\<lambda>d. counted (sweep_creating_watchdog cfg now keys d))"
  by (rule pass_ok_sessions [OF _ _ safe_creating]) (simp_all add: sweep_creating_watchdog_def sweep_frames)

lemma pass_resuming: "pass_ok (\<lambda>d. counted (sweep_resuming_watchdog cfg now keys d))"
  by (rule pass_ok_sessions [OF _ _ safe_resuming]) (simp_all add: sweep_resuming_watchdog_def sweep_frames)

lemma pass_stopping: "pass_ok (\<lambda>d. counted (sweep_stopping_watchdog m now d))"
  by (rule pass_ok_sessions [OF _ _ safe_stopping]) (simp_all add: sweep_stopping_watchdog_def sweep_frames)

lemma pass_idle: "pass_ok (\<lambda>d. counted (sweep_idle_timeout m now d))"
  by (rule pass_ok_sessions [OF _ _ safe_idle]) (simp_all add: sweep_idle_timeout_def sweep_frames)

lemma pass_archive: "pass_ok (\<lambda>d. counted (sweep_archive_timeout m now keys d))"
  by (rule pass_ok_sessions [OF _ _ safe_archive_timeout])
    (simp_all add: sweep_archive_timeout_def sweep_frames Let_def)

lemma pass_stop: "pass_ok (\<lambda>d. counted (sweep_stop_timeout m now keys d))"
  by (rule pass_ok_sessions [OF _ _ safe_stop_timeout]) (simp_all add: sweep_stop_timeout_def sweep_frames ids_set)

lemma pass_orphans: "pass_ok (\<lambda>d. counted (sweep_runner_heartbeat_orphans cfg h now keys d))"
proof (rule pass_ok_sessions [OF _ _ safe_orphans])
  have "d_turns (mark_stale_hosts cfg now d) = d_turns d" "ids_ok (mark_stale_hosts cfg now d) = ids_ok d" for d
    by (simp_all add: mark_stale_hosts_def ids_ok_def)
  then show "d_turns (snd (sweep_runner_heartbeat_orphans cfg h now keys d)) = d_turns d"
    "ids_ok d \<Longrightarrow> ids_ok (snd (sweep_runner_heartbeat_orphans cfg h now keys d))" for d
    by (simp_all add: sweep_runner_heartbeat_orphans_def Let_def sweep_frames)
qed

lemma pass_results: "pass_ok (\<lambda>d. counted (sweep_turn_results n r now d))"
proof -
  have "ledger_safe d (snd (sweep_turn_results n r now d)) \<and>
      (turn_of k d = None \<longrightarrow> turn_of k (snd (sweep_turn_results n r now d)) = None)" for k d
    by (auto simp: sweep_turn_results_def Let_def ledger_safe_def turn_of_upd split: option.split)
  moreover have "d_sessions (snd (sweep_turn_results n r now d)) = d_sessions d" for d
    by (simp add: sweep_turn_results_def Let_def upd_turns_def split: option.split)
  ultimately show ?thesis
    by (simp add: pass_ok_def counted_def ids_ok_def lifecycle_safe_def session_of_def)
qed

lemma pass_repair:
  "pass_ok (\<lambda>d. let ((a, b), d) = sweep_session_thread_binding_drift m (\<lambda>_ d. d) d in (int a + int b, d))"
proof -
  have t: "d_turns (snd (repair_all m (\<lambda>_ d. d) n cs d)) = d_turns d" for n cs d
    by (induction cs arbitrary: n d) (simp_all add: Let_def case_prod_beta repair_frames split: repair.split)
  show ?thesis
    using safe_repair_all [of "\<lambda>_ d. d"] repair_all_frames [of "\<lambda>_ d. d"] t
    by (simp add: pass_ok_def sweep_session_thread_binding_drift_def case_prod_beta Let_def turn_of_def)
qed

lemma janitor_sweeps_ok:
  "f \<in> set (janitor_sweeps udigit cfg now keys (\<lambda>_ d. d)) \<Longrightarrow> pass_ok f"
proof -
  have gauges: "pass_ok (\<lambda>d. (0, d))"
    by (simp add: pass_ok_def)
  have keys: "pass_ok (\<lambda>d. counted (sweep_idempotency_keys n now d))"
    "pass_ok (\<lambda>d. counted (sweep_events n m now d))" "pass_ok (\<lambda>d. counted (sweep_outbox n m now d))" for n m
    by (rule pass_ok_frame;
        simp add: sweep_idempotency_keys_def sweep_events_def sweep_outbox_def case_prod_beta)+
  show "f \<in> set (janitor_sweeps udigit cfg now keys (\<lambda>_ d. d)) \<Longrightarrow> pass_ok f"
    unfolding janitor_sweeps_def Let_def
    using gauges keys pass_repair pass_creating pass_resuming pass_stopping pass_idle pass_archive pass_stop
      pass_orphans pass_results
    by (auto simp: Let_def)
qed

lemma run_sweeps_ok:
  "(\<And>f. f \<in> set fs \<Longrightarrow> pass_ok f) \<Longrightarrow> pass_ok (\<lambda>d. (0, snd (snd (run_sweeps down n fs acc d))))"
proof (induction fs arbitrary: n acc)
  case Nil
  then show ?case
    by (simp add: pass_ok_def)
next
  case (Cons f fs)
  have rest: "pass_ok (\<lambda>d. (0, snd (snd (run_sweeps down m fs a d))))" for m a
    using Cons by simp
  show ?case
  proof (cases "down n")
    case True
    then show ?thesis
      using rest by (simp add: Let_def case_prod_beta)
  next
    case False
    have f: "pass_ok f"
      using Cons.prems by simp
    have e: "snd (snd (run_sweeps down n (f # fs) acc d)) =
        snd (snd (run_sweeps down (Suc n) fs (acc + fst (f d)) (snd (f d))))" for d
      using False by (simp add: Let_def case_prod_beta)
    show ?thesis
      using f rest unfolding pass_ok_def e snd_conv
      by (meson ledger_safe_trans lifecycle_safe_trans)
  qed
qed

text \<open>A pass of the janitor, whatever sweeps fail in it.\<close>

record pass_args =
  pa_udigit :: "nat \<Rightarrow> nat option"
  pa_cfg :: settings
  pa_now :: int
  pa_keys :: "nat \<Rightarrow> nat \<Rightarrow> pystr"
  pa_down :: "nat \<Rightarrow> bool"
  pa_acquired :: bool

definition janitor_pass :: "pass_args \<Rightarrow> db \<Rightarrow> db" where
  "janitor_pass a d =
     snd (snd (run_sweep_once (pa_udigit a) (pa_cfg a) (pa_now a) (pa_keys a) (\<lambda>_ d. d) (pa_down a)
       (pa_acquired a) d))"

lemma janitor_pass_ok: "pass_ok (\<lambda>d. (0, janitor_pass a d))"
proof (cases "pa_acquired a")
  case True
  then show ?thesis
    using run_sweeps_ok [OF janitor_sweeps_ok] by (simp add: janitor_pass_def run_sweep_once_def)
qed (simp add: janitor_pass_def run_sweep_once_def pass_ok_def)

interpretation janitor: lifecycle_op janitor_pass
  by unfold_locales (use janitor_pass_ok in \<open>auto simp: pass_ok_def\<close>)

lemma janitor_step: "step cfg x y (y\<lparr>y_db := janitor_pass a (y_db y)\<rparr>)"
  by (rule others [OF janitor.keeps_ledger]) (use janitor_pass_ok in \<open>auto simp: pass_ok_def\<close>)

end
