(* ===== verification/Runner_Main.thy ===== *)
theory Runner_Main
  imports Runner_Input Streams
begin

text \<open>
  \<open>runner/main.py\<close>: \<open>dispatch_runner_job\<close>, which gives a message of \<open>runner:jobs\<close> or \<open>input:jobs\<close> to its
  saga, the stop job, the heartbeat and the row of the host at shutdown. The admission of input jobs is in theory
  \<open>Input_Admission\<close>, the process in \<open>Runner_Process\<close>.
\<close>

subsection \<open>Dispatch\<close>

text \<open>
  What the process and its surroundings give: the execution context, the tool runs, the reply client,
  the commits of others, the clock, fresh values, and whether the advisory lock is free.
\<close>

record runner_env =
  re_cfg :: settings
  re_xc :: exec_ctx
  re_run :: "exec_spec \<Rightarrow> exc + exec_outcome"
  re_post :: "pystr \<Rightarrow> pystr option \<Rightarrow> post_outcome"
  re_gap :: "nat \<Rightarrow> db \<Rightarrow> db"
  re_now :: int
  re_key :: pystr
  re_fresh :: uuid
  re_store_fail :: bool
  re_locked :: bool

text \<open>
  \<open>payload.get("lifecycle_version")\<close>; versions are never negative, so a value of another type, which is
  equal to no version, is kept as -1.
\<close>

definition version_field :: "payload \<Rightarrow> int option" where
  "version_field p =
     (case pget ''lifecycle_version'' p of
        None \<Rightarrow> None | Some JNull \<Rightarrow> None | Some (JInt v) \<Rightarrow> Some v | Some _ \<Rightarrow> Some (-1))"

definition parse_input_job :: "pystr \<Rightarrow> payload \<Rightarrow> input_job result" where
  "parse_input_job host p =
     bind_result_of (field ''session_id'' p) (\<lambda>sid.
     bind_result_of (field ''guild_id'' p) (\<lambda>guild.
     bind_result_of (field ''text'' p) (\<lambda>txt.
     bind_result_of (field ''idempotency_key'' p) (\<lambda>key.
       Inr \<lparr>ij_session = sid, ij_guild = guild, ij_thread = pget_str ''thread_id'' p,
         ij_host = (case pget ''host_id'' p of None \<Rightarrow> host | Some v \<Rightarrow> jstr v),
         ij_text = txt, ij_key = key, ij_version = version_field p\<rparr>))))"

text \<open>The stop and restart jobs.\<close>

definition run_stop_job ::
  "runner_env \<Rightarrow> bool \<Rightarrow> payload \<Rightarrow> store \<times> db \<Rightarrow> bool result \<times> store \<times> db" where
  "run_stop_job ev restart p st =
     (let (store, d) = st; sid = pget_str ''session_id'' p; host = rc_host (xc_rc (re_xc ev));
          gone = AList.delete sid store
      in case uuid_of_str sid of
           None \<Rightarrow> (Inl (ExternalErr (u ''invalid input for query argument'')), store, d)
         | Some i \<Rightarrow>
             (case session_of i d of
                None \<Rightarrow> (Inr True, gone, d)
              | Some s \<Rightarrow>
                  if s_host s \<noteq> Some host then (Inr True, gone, d)
                  else if version_field p \<noteq> Some (s_version s) then
                    (Inr True, if s_status s \<in> {Creating, Resuming, Running, Idle} then store else gone, d)
                  else if restart then
                    (if \<not> re_locked ev then (Inr False, gone, d)
                     else
                       (case run_resume_job (xc_rc (re_xc ev)) (re_gap ev) (re_now ev) (re_key ev) (re_fresh ev)
                               (re_store_fail ev) p (gone, re_gap ev 9 d) of
                          (Inl e, st) \<Rightarrow> (Inl e, st)
                        | (Inr _, st) \<Rightarrow> (Inr True, st)))
                  else (Inr True, gone,
                        snd (fenced_update i (s_version s) [Stopping] (\<lambda>s. s\<lparr>s_status := Stopped\<rparr>) d))))"

definition dispatch_runner_job ::
  "runner_env \<Rightarrow> fields \<Rightarrow> store \<times> db \<Rightarrow> bool result \<times> effect list \<times> store \<times> db" where
  "dispatch_runner_job ev f st =
     (case fd_payload f of
        None \<Rightarrow> (Inr True, [], st)
      | Some BadJson \<Rightarrow> (Inl (ValueErr (u ''JSONDecodeError'')), [], st)
      | Some NotObject \<Rightarrow> (Inr True, [], st)
      | Some (Object p) \<Rightarrow>
          (let ety = or_str (fd_type f) (Some (pget_str ''type'' p)); rc = xc_rc (re_xc ev) in
           if ety = u ''runner.create_session.v1'' then
             (case parse_create_job_payload p of
                Inl e \<Rightarrow> (Inl e, [], st)
              | Inr j \<Rightarrow>
                  (let (r, st) = run_create_job (re_cfg ev) rc (re_gap ev) (re_now ev) (re_key ev) (re_fresh ev) j st
                   in (map_sum id (\<lambda>_. True) r, [], st)))
           else if ety = u ''runner.send_input.v1'' then
             (case parse_input_job (rc_host rc) p of
                Inl e \<Rightarrow> (Inl e, [], st)
              | Inr j \<Rightarrow>
                  (let (r, acts, st) = run_input_job (re_cfg ev) (re_xc ev) (re_run ev) (re_post ev) (re_gap ev)
                         (re_now ev) (re_locked ev) j st
                   in (map_sum id (\<lambda>o1. o1 \<noteq> Deferred_J) r, acts, st)))
           else if ety = u ''runner.stop_session.v1'' then
             (let (r, st) = run_stop_job ev False p st in (r, [], st))
           else if ety = u ''runner.restart_session.v1'' then
             (let (r, st) = run_stop_job ev True p st in (r, [], st))
           else if ety = u ''runner.resume_session.v1'' then
             (let (r, st) = run_resume_job rc (re_gap ev) (re_now ev) (re_key ev) (re_fresh ev) (re_store_fail ev) p st
              in (map_sum id (\<lambda>_. True) r, [], st))
           else (Inr True, [], st)))"

subsection \<open>Host state\<close>

definition heartbeat :: "pystr \<Rightarrow> int \<Rightarrow> db \<Rightarrow> db" where
  "heartbeat host now d =
     d\<lparr>d_hosts := ins_or_upd h_id \<lparr>h_id = host, h_status = Online, h_heartbeat = Some now\<rparr> (\<lambda>_. True)
        (\<lambda>h. h\<lparr>h_status := Online, h_heartbeat := Some now\<rparr>) (d_hosts d)\<rparr>"

definition mark_runner_offline :: "pystr \<Rightarrow> db \<Rightarrow> db" where
  "mark_runner_offline host d =
     d\<lparr>d_hosts := upd (\<lambda>h. h_id h = host) (\<lambda>h. h\<lparr>h_status := Offline\<rparr>) (d_hosts d)\<rparr>"

text \<open>The host part and the port of the bind address.\<close>

definition parse_bind :: "pystr \<Rightarrow> (pystr \<times> pystr) result" where
  "parse_bind bind =
     (case before_last colon bind of
        None \<Rightarrow> Inl (ValueErr (u ''not enough values to unpack''))
      | Some h \<Rightarrow> Inr (h, after_last colon bind))"

end
