(* ===== verification/World.thy ===== *)
theory World
  imports Lifecycle Runner_Main
begin

text \<open>
  The runner's jobs among the operations of the bot and the janitor: each job runs over several
  transactions, between which the others commit whatever they do. Every session still moves forward
  only (\<open>session_op\<close> of theory \<open>Lifecycle\<close>).
\<close>

subsection \<open>Safe changes of the sessions\<close>

definition session_safe :: "db \<Rightarrow> db \<Rightarrow> bool" where
  "session_safe d d' \<longleftrightarrow> (ids_ok d \<longrightarrow> ids_ok d' \<and> lifecycle_safe d d')"

lemma session_safe_refl [simp]: "session_safe d d"
  by (simp add: session_safe_def)

lemma session_safe_trans: "session_safe d d' \<Longrightarrow> session_safe d' d'' \<Longrightarrow> session_safe d d''"
  unfolding session_safe_def using lifecycle_safe_trans by blast

lemma session_safe_write [simp]:
  "session_safe d (write_outbox now pr st ety p d') = session_safe d d'"
  "session_safe d (add_event now key g i a ty pl d') = session_safe d d'"
  by (simp_all add: session_safe_def)

lemma session_safe_frame: "d_sessions d' = d_sessions d'' \<Longrightarrow> session_safe d d' = session_safe d d''"
  unfolding session_safe_def using ids_frame lifecycle_safe_frame by metis

lemma session_safe_set:
  assumes "\<And>s. s_id (f s) = s_id s" "\<And>s. session_of sid d = Some s \<Longrightarrow> session_le s (f s)"
  shows "session_safe d (set_session sid f d)"
  using lifecycle_safe_set [of f sid d] assms by (simp add: session_safe_def ids_set)

lemma safe_fenced:
  assumes "\<And>s. s_id (f s) = s_id s" "\<And>s. s_status s \<in> set ss \<Longrightarrow> session_le s (f s)"
  shows "session_safe d (snd (fenced_update sid v ss f d))"
  using assms by (auto simp: fenced_update_def at_version_def split: option.splits intro!: session_safe_set)

lemma safe_fenced_to:
  assumes "session_safe d d'" "\<And>s. s_id (f s) = s_id s" "\<And>s. s_status s \<in> set ss \<Longrightarrow> session_le s (f s)"
  shows "session_safe d (snd (fenced_update sid v ss f d'))"
  using session_safe_trans [OF assms(1) safe_fenced [OF assms(2,3)]] by simp

subsection \<open>The runner's jobs\<close>

lemma safe_running:
  assumes "session_safe d d'"
  shows "session_safe d (snd (set_running now key rc sid j token d'))"
proof -
  have "session_safe d' (snd (set_running now key rc sid j token d'))"
    by (auto simp: set_running_def forward split: option.splits intro!: session_safe_set)
  then show ?thesis
    using assms session_safe_trans by blast
qed

lemma safe_fail:
  assumes "session_safe d d'"
  shows "session_safe d (fail_and_notify now key sid g t r d')"
proof -
  have "session_safe d' (fail_and_notify now key sid g t r d')"
    by (auto simp: fail_and_notify_def session_safe_def forward ids_set safe_release split: option.splits
        intro!: lifecycle_safe_set safe_release)
  then show ?thesis
    using assms session_safe_trans by blast
qed

lemma safe_create_job:
  assumes "\<And>n d. session_safe d (gap n d)"
  shows "session_safe d (snd (snd (run_create_job cfg rc gap now key fresh j (store, d))))"
proof -
  have g: "session_safe d (gap 0 d)" "session_safe d (gap 1 (gap 0 d))"
    using assms session_safe_trans by blast+
  show ?thesis
    using g by (simp add: run_create_job_def Let_def safe_fail safe_running case_prod_beta
        split: option.split sum.split cwd_verdict.split exc.split)
qed

text \<open>A fenced change of the status that stays within the version.\<close>

lemma safe_within:
  assumes "session_safe d d'"
    "\<And>s. s_id (f s) = s_id s \<and> s_version (f s) = s_version s \<and> s_status (f s) = st"
    "\<forall>a \<in> set ss. \<not> final a \<and> same_version a st"
  shows "session_safe d (snd (fenced_update sid v ss f d'))"
  using assms by (intro safe_fenced_to [OF assms(1)]) (auto intro: session_le_within)

lemma safe_set_reason:
  assumes "session_safe d d'" "\<forall>a \<in> set ss. \<not> final a \<and> same_version a st"
  shows "session_safe d (snd (fenced_update sid v ss (\<lambda>s. s\<lparr>s_status := st, s_reason := r\<rparr>) d'))"
  by (rule safe_within [OF assms(1) _ assms(2)]) simp

lemma safe_set_running:
  assumes "session_safe d d'"
  shows "session_safe d (snd (fenced_update sid v [Resuming]
    (\<lambda>s. s\<lparr>s_status := Running, s_activity_at := now, s_token := tok\<rparr>) d'))"
  by (rule safe_within [OF assms, of _ Running]) (auto simp: final_def same_version_def live_def)

lemma from_resuming: "\<forall>a \<in> set [Resuming]. \<not> final a \<and> same_version a Orphaned"
  "\<forall>a \<in> set [Resuming]. \<not> final a \<and> same_version a Failed"
  "\<forall>a \<in> set live_statuses. \<not> final a \<and> same_version a Orphaned"
  "\<forall>a \<in> set live_statuses. \<not> final a \<and> same_version a Failed"
  by (auto simp: final_def same_version_def live_def live_statuses_def)

lemma safe_resume_job:
  assumes "\<And>n d. session_safe d (gap n d)"
  shows "session_safe d (snd (snd (run_resume_job rc gap now key fresh bad p (store, d))))"
proof -
  have g: "session_safe d (gap 1 (gap 0 d))" "session_safe d (gap 2 (gap 1 (gap 0 d)))"
    "session_safe d (gap 3 (gap 2 (gap 1 (gap 0 d))))"
    using assms session_safe_trans by blast+
  note f = safe_set_reason [OF g(1) from_resuming(2)] safe_set_reason [OF g(3) from_resuming(1)]
    safe_set_running [OF g(2)]
  show ?thesis
    using g f by (simp add: run_resume_job_def Let_def case_prod_beta split: option.split sum.split cwd_verdict.split)
qed

lemma safe_recover_row:
  assumes "session_safe d (gap d)"
  shows "session_safe d (snd (snd (recover_row rc gap bad s (store, d))))"
  using safe_set_reason [OF assms from_resuming(3)] safe_set_reason [OF assms from_resuming(4)]
  by (simp add: recover_row_def Let_def split: cwd_verdict.split)

lemma safe_recover_rows:
  assumes "\<And>n d. session_safe d (gap n d)"
  shows "session_safe d (snd (snd (snd (recover_rows rc gap bad n rows (store, d)))))"
proof (induction rows arbitrary: n store d)
  case (Cons s rows)
  let ?r = "recover_row rc (gap (Suc (2 * n))) (bad (s_id s)) s (store, gap (2 * n) d)"
  have "session_safe d (snd (snd ?r))"
    using session_safe_trans [OF assms safe_recover_row] assms by blast
  then have "session_safe d (snd (snd (snd (recover_rows rc gap bad (Suc n) rows (fst (snd ?r), snd (snd ?r))))))"
    using Cons.IH session_safe_trans by blast
  then show ?case
    by (simp add: Let_def case_prod_beta)
qed simp

lemma safe_stop_job:
  assumes "\<And>n d. session_safe d (re_gap ev n d)"
  shows "session_safe d (snd (snd (run_stop_job ev restart p (store, d))))"
proof -
  have r: "session_safe d (snd (snd (run_resume_job rc (re_gap ev) now key fresh bad p (store', re_gap ev 9 d))))"
    for rc now key fresh bad store'
    by (rule session_safe_trans [OF assms safe_resume_job [OF assms]])
  have e: "snd (snd (case x of (Inl e, st) \<Rightarrow> (Inl e, st) | (Inr y, st) \<Rightarrow> (Inr True, st))) = snd (snd x)"
    for x :: "bool result \<times> store \<times> db"
    by (cases x; cases "fst x") auto
  have f: "session_safe d (snd (fenced_update i v [Stopping] (\<lambda>s. s\<lparr>s_status := Stopped\<rparr>) d))" for i v
    by (rule safe_within [OF session_safe_refl, of _ Stopped]) (auto simp: final_def same_version_def)
  show ?thesis
    using r f by (simp add: run_stop_job_def Let_def e split: option.split)
qed

subsection \<open>Input jobs\<close>

lemma safe_turns [simp]:
  "session_safe d (mark_turn now key st only d') = session_safe d d'"
  "session_safe d (mark_uncertain now key d') = session_safe d d'"
  "session_safe d (set_turn key f d') = session_safe d d'"
  "session_safe d (upsert_executing now key sid v d') = session_safe d d'"
  by (rule session_safe_frame, simp add: mark_turn_def mark_uncertain_def set_turn_def upsert_executing_def upd_turns_def)+

lemma safe_admit:
  assumes "session_safe d d'"
  shows "session_safe d (snd (admit now key sid v d'))"
proof -
  have "session_safe d' (snd (fenced_update sid v [Running, Idle] (\<lambda>s. s\<lparr>s_activity_at := now, s_status := Running\<rparr>) d'))"
    by (rule safe_fenced) (auto simp: forward)
  then show ?thesis
    using assms session_safe_trans by (auto simp: admit_def case_prod_beta Let_def)
qed

lemma safe_complete:
  assumes "session_safe d d'"
  shows "session_safe d (complete now key sid v reply token d')"
  unfolding complete_def by (rule safe_fenced_to) (use assms in \<open>auto intro: session_le_keep\<close>)

lemma safe_post:
  "(\<And>d. session_safe d (gap d)) \<Longrightarrow> session_safe d d' \<Longrightarrow>
   session_safe d (snd (post_phase post gap now key reply d'))"
  using session_safe_trans by (auto simp: post_phase_def split: post_outcome.split)

lemma safe_input_job:
  assumes "\<And>n d. session_safe d (gap n d)"
  shows "session_safe d (snd (snd (snd (run_input_job cfg x run post gap now locked j (store, d)))))"
proof -
  have g: "session_safe d d' \<Longrightarrow> session_safe d (gap n d')" for n d'
    using assms session_safe_trans by blast
  note [simp] = safe_post [OF assms] safe_complete g safe_admit
  have a: "session_safe d (snd (admit now key sid v (gap 0 d)))" for key sid v
    by simp
  have "session_safe d (snd (snd (snd (run_locked cfg x run post gap now j sid (store, d)))))" for sid
    using a by (simp add: run_locked_def Let_def case_prod_beta split: plan.split sum.split)
  then show ?thesis
    by (simp add: run_input_job_def split: option.split)
qed

subsection \<open>All together\<close>

lemma safe_dispatch:
  assumes "\<And>n d. session_safe d (re_gap ev n d)"
  shows "session_safe d (snd (snd (snd (dispatch_runner_job ev f (store, d)))))"
  using safe_create_job [OF assms] safe_resume_job [OF assms] safe_stop_job [OF assms] safe_input_job [OF assms]
  by (simp add: dispatch_runner_job_def Let_def case_prod_beta split: option.split json_doc.split sum.split)

text \<open>
  What happens in the world: an operation of the bot, a pass of the janitor, a job of the runner
  among such operations (\<open>g n\<close> are those between its transactions), or a start of the runner.
\<close>

datatype env_op = ByBot bot_op | ByJanitor pass_args

primrec env_step :: "env_op \<Rightarrow> db \<Rightarrow> db" where
  "env_step (ByBot x) d = perform x d"
| "env_step (ByJanitor a) d = janitor_pass a d"

interpretation env: lifecycle_op env_step
proof
  show "ledger_safe d (env_step x d)" for x d
    by (cases x) (simp_all add: bot.keeps_ledger janitor.keeps_ledger)
  show "ids_ok d \<Longrightarrow> ids_ok (env_step x d)" for x d
    by (cases x) (simp_all add: bot.keeps_ids janitor.keeps_ids)
  show "ids_ok d \<Longrightarrow> lifecycle_safe d (env_step x d)" for x d
    by (cases x) (simp_all add: bot.keeps_sessions janitor.keeps_sessions)
qed

definition between :: "(nat \<Rightarrow> env_op list) \<Rightarrow> nat \<Rightarrow> db \<Rightarrow> db" where
  "between g n d = foldr env_step (g n) d"

lemma safe_between: "session_safe d (between g n d)"
  using env.keeps_all by (simp add: session_safe_def between_def)

datatype world_op =
    Env env_op
  | Job runner_env "nat \<Rightarrow> env_op list" fields store
  | Start runner_ctx "nat \<Rightarrow> env_op list" "uuid \<Rightarrow> bool" store

primrec world_step :: "world_op \<Rightarrow> db \<Rightarrow> db" where
  "world_step (Env x) d = env_step x d"
| "world_step (Job ev g f store) d =
     snd (snd (snd (dispatch_runner_job (ev\<lparr>re_gap := between g\<rparr>) f (store, d))))"
| "world_step (Start rc g bad store) d = snd (snd (snd (recover_sessions rc (between g) bad (store, d))))"

lemma world_safe: "session_safe d (world_step x d)"
proof (cases x)
  case (Env e)
  then show ?thesis
    by (simp add: session_safe_def env.keeps_ids env.keeps_sessions)
next
  case (Job ev g f store)
  then show ?thesis
    using safe_dispatch [of "ev\<lparr>re_gap := between g\<rparr>"] by (simp add: safe_between)
next
  case (Start rc g bad store)
  then show ?thesis
    using safe_recover_rows [OF safe_between] by (simp add: recover_sessions_def)
qed

interpretation world: session_op world_step
  by unfold_locales (use world_safe in \<open>auto simp: session_safe_def\<close>)


definition sample_history :: "world_op list" where
  "sample_history =
     [Env (ByBot (OpRestart 9 (u ''k3'') (u ''k4'') 1 (u ''g'') (u ''alice''))),
      Env (ByBot (OpStop 7 (u ''k1'') (u ''k2'') 1 (u ''g'') (u ''alice'') (Some (u ''h''))))]"


text \<open>
  The system of workers of theory \<open>Turn_System\<close> admits every operation of the bot under a fresh key and every
  pass of the janitor: they are steps that other processes may take.
\<close>

lemma bot_and_janitor_are_steps:
  "(\<forall>k. op_key x = Some k \<longrightarrow> k \<notin> y_used y) \<Longrightarrow> step cfg xc y (y\<lparr>y_db := perform x (y_db y)\<rparr>)"
  "step cfg xc y (y\<lparr>y_db := janitor_pass a (y_db y)\<rparr>)"
  by (rule perform_step) (auto intro: janitor_step)

end
