(* ===== verification/Setup_Service.thy ===== *)
theory Setup_Service
  imports Policies "HOL-Library.List_Lexorder"
begin

text \<open>
  \<open>bot/setup_service.py\<close>: the operations behind \<open>/setup\<close>, \<open>/root\<close> and the aliases. Each runs in one
  transaction: an exception leaves the database as it was. \<open>realpath\<close> of the file system is a
  parameter; the constraints of \<open>allowed_roots\<close> and \<open>path_aliases\<close> (the alias pattern, an absolute
  real path, an existing guild) are checked where the statement meets them.
\<close>

subsection \<open>Texts\<close>

text \<open>
  \<open>repr\<close> of a string. Code points above U+00AD that Unicode does not count as printable, which Python
  escapes too, are kept.
\<close>

definition repr_char :: "nat \<Rightarrow> nat \<Rightarrow> pystr" where
  "repr_char q c =
     (if c = q \<or> c = 92 then [92, c]
      else if c = 9 then u [CHR 0x5C, CHR ''t''] else if c = 10 then u [CHR 0x5C, CHR ''n'']
      else if c = 13 then u [CHR 0x5C, CHR ''r'']
      else if c < 32 \<or> (127 \<le> c \<and> c \<le> 160) \<or> c = 173 then u [CHR 0x5C, CHR ''x''] @ hex_str 2 c
      else [c])"

definition py_repr :: "pystr \<Rightarrow> pystr" where
  "py_repr s =
     (let q = (if 39 \<in> set s \<and> 34 \<notin> set s then 34 else 39)
      in q # concat (map (repr_char q) s) @ [q])"

definition deny_text :: "deny \<Rightarrow> pystr" where
  "deny_text r =
     (case r of
        DeniedSystemPath root \<Rightarrow> u ''denied system path: '' @ py_repr root
      | DeniedSegment seg \<Rightarrow> u ''denied segment: '' @ py_repr seg
      | DeniedFile seg \<Rightarrow> u ''denied credential file: '' @ py_repr seg)"

definition SETUP_UNAUTH_MSG :: pystr where
  "SETUP_UNAUTH_MSG = u ''You need the configured admin role to use this command. '' @
     u ''Ask a server admin to run /setup admin-role set.''"

definition code_span :: "pystr \<Rightarrow> pystr" where "code_span s = backtick # s @ [backtick]"

subsection \<open>Guild registration\<close>

record init_result =
  in_success :: bool
  in_message :: pystr

definition setup_init :: "pystr \<Rightarrow> pystr \<Rightarrow> db \<Rightarrow> init_result \<times> db" where
  "setup_init guild_id invoked_by d =
     (\<lparr>in_success = True,
        in_message = u ''Guild '' @ py_repr guild_id @ u '' is set up. '' @
          u ''Use /setup admin-role set to restrict who can manage Discode settings.''\<rparr>,
      d\<lparr>d_guilds := ins_or_skip g_id \<lparr>g_id = guild_id, g_name = guild_id\<rparr> (d_guilds d),
        d_policies := ins_or_skip p_guild
          \<lparr>p_guild = guild_id, p_role = None, p_role_name = None, p_updated_by = invoked_by\<rparr> (d_policies d)\<rparr>)"

subsection \<open>Tool channels\<close>

record map_set_result =
  ms_authorized :: bool
  ms_tool :: pystr
  ms_channel :: pystr
  ms_message :: pystr

definition roles_or_empty :: "pystr list option \<Rightarrow> pystr list" where
  "roles_or_empty roles = (case roles of None \<Rightarrow> [] | Some rs \<Rightarrow> rs)"

definition setup_map_set ::
  "pystr \<Rightarrow> pystr \<Rightarrow> pystr \<Rightarrow> pystr \<Rightarrow> pystr list option \<Rightarrow> pystr list option \<Rightarrow> db \<Rightarrow> map_set_result result \<times> db" where
  "setup_map_set guild_id tool channel_id updated_by roles names d =
     (if \<not> is_guild_admin_authorized d guild_id (roles_or_empty roles) names then
        (Inr \<lparr>ms_authorized = False, ms_tool = tool, ms_channel = channel_id, ms_message = SETUP_UNAUTH_MSG\<rparr>, d)
      else
        (let d' = set_tool_channel_map guild_id tool channel_id updated_by d
         in case get_tool_channel_map guild_id tool d' of
              None \<Rightarrow> (Inl (RuntimeErr (u ''NoResultFound'')), d)
            | Some row \<Rightarrow>
                (Inr \<lparr>ms_authorized = True, ms_tool = c_tool row, ms_channel = c_channel row,
                   ms_message = u ''Mapped tool '' @ code_span tool @ u '' '' @ [8594] @ u '' <#'' @ channel_id @ u ''>.''\<rparr>,
                 d')))"

definition setup_map_list :: "pystr \<Rightarrow> db \<Rightarrow> channel_map list" where
  "setup_map_list guild_id d = list_tool_channel_maps guild_id d"

record map_remove_result =
  mr_deleted :: bool
  mr_tool :: pystr
  mr_message :: pystr

definition setup_map_remove ::
  "pystr \<Rightarrow> pystr \<Rightarrow> pystr list option \<Rightarrow> pystr list option \<Rightarrow> db \<Rightarrow> map_remove_result \<times> db" where
  "setup_map_remove guild_id tool roles names d =
     (if \<not> is_guild_admin_authorized d guild_id (roles_or_empty roles) names then
        (\<lparr>mr_deleted = False, mr_tool = tool, mr_message = SETUP_UNAUTH_MSG\<rparr>, d)
      else
        (let (deleted, d') = remove_tool_channel_map guild_id tool d
         in if deleted then
              (\<lparr>mr_deleted = True, mr_tool = tool, mr_message = u ''Removed mapping for '' @ code_span tool @ u ''.''\<rparr>, d')
            else
              (\<lparr>mr_deleted = False, mr_tool = tool, mr_message = u ''No mapping found for tool '' @ code_span tool @ u ''.''\<rparr>, d')))"

subsection \<open>The administrator role\<close>

record role_set_result =
  rs_success :: bool
  rs_role :: "pystr option"
  rs_name :: "pystr option"
  rs_message :: pystr

definition role_label :: "pystr option \<Rightarrow> pystr option \<Rightarrow> pystr" where
  "role_label role_id role_name =
     (if opt_str role_id \<noteq> [] then u ''<@&'' @ opt_str role_id @ u ''>''
      else if opt_str role_name \<noteq> [] then opt_str role_name
      else u ''(none)'')"

definition setup_admin_role_set ::
  "pystr \<Rightarrow> pystr option \<Rightarrow> pystr option \<Rightarrow> pystr \<Rightarrow> pystr list option \<Rightarrow> pystr list option \<Rightarrow> bool \<Rightarrow>
   db \<Rightarrow> role_set_result \<times> db" where
  "setup_admin_role_set guild_id role_id role_name updated_by roles names already_authorized d =
     (if \<not> already_authorized \<and> \<not> is_guild_admin_authorized d guild_id (roles_or_empty roles) names then
        (\<lparr>rs_success = False, rs_role = None, rs_name = None, rs_message = SETUP_UNAUTH_MSG\<rparr>, d)
      else
        (\<lparr>rs_success = True, rs_role = role_id, rs_name = role_name,
           rs_message = u ''Admin role set to '' @ role_label role_id role_name @ u ''.''\<rparr>,
         d\<lparr>d_policies := ins_or_upd p_guild
             \<lparr>p_guild = guild_id, p_role = role_id, p_role_name = role_name, p_updated_by = updated_by\<rparr>
             (\<lambda>_. True) (\<lambda>r. r\<lparr>p_role := role_id, p_role_name := role_name, p_updated_by := updated_by\<rparr>)
             (d_policies d)\<rparr>))"

definition setup_admin_role_list :: "pystr \<Rightarrow> db \<Rightarrow> pystr option \<times> pystr option" where
  "setup_admin_role_list guild_id d =
     (case get p_guild guild_id (d_policies d) of
        None \<Rightarrow> (None, None)
      | Some policy \<Rightarrow> (p_role policy, p_role_name policy))"

subsection \<open>Allowed roots\<close>

text \<open>
  \<open>INSERT INTO allowed_roots ... ON CONFLICT DO NOTHING\<close>: the check constraint is tested on the proposed
  row, the foreign key when a row is inserted.
\<close>

definition guild_known :: "db \<Rightarrow> pystr \<Rightarrow> bool" where
  "guild_known d g \<longleftrightarrow> get g_id g (d_guilds d) \<noteq> None"

definition insert_root :: "allowed_root \<Rightarrow> db \<Rightarrow> db result" where
  "insert_root row d =
     (if \<not> prefix [slash] (r_realpath row) then Inl (IntegrityErr (u ''allowed_roots_realpath_check''))
      else if get root_id (root_id row) (d_roots d) \<noteq> None then Inr d
      else if \<not> guild_known d (opt_str (r_guild row)) then Inl (IntegrityErr (u ''allowed_roots_guild_id_fkey''))
      else Inr (d\<lparr>d_roots := ins_or_skip root_id row (d_roots d)\<rparr>))"

definition add_allowed_root_for_user ::
  "(pystr \<Rightarrow> pystr) \<Rightarrow> pystr \<Rightarrow> pystr \<Rightarrow> pystr \<Rightarrow> pystr \<Rightarrow> pystr \<Rightarrow> db \<Rightarrow> pystr result \<times> db" where
  "add_allowed_root_for_user rp guild_id user_id host_id path created_by d =
     (case canonicalize rp path of
        (realpath, Some reason) \<Rightarrow> (Inl (ValueErr (deny_text reason)), d)
      | (realpath, None) \<Rightarrow>
          (case insert_root \<lparr>r_guild = Some guild_id, r_user = user_id, r_host = host_id, r_path = path,
                   r_realpath = realpath, r_created_by = created_by\<rparr> d of
             Inl e \<Rightarrow> (Inl e, d)
           | Inr d' \<Rightarrow> (Inr realpath, d')))"

subsection \<open>Aliases\<close>

text \<open>
  \<open>re.match\<close> with a final \<open>$\<close> also accepts one trailing newline; the check constraint of the table, in
  PostgreSQL, does not.
\<close>

definition ALIAS_RE_full :: "pystr \<Rightarrow> bool" where
  "ALIAS_RE_full s \<longleftrightarrow> s \<noteq> [] \<and> (97 \<le> hd s \<and> hd s \<le> 122) \<and> length s \<le> 64 \<and>
     list_all (\<lambda>c. (97 \<le> c \<and> c \<le> 122) \<or> (48 \<le> c \<and> c \<le> 57) \<or> c = underscore \<or> c = dash) (tl s)"

definition ALIAS_RE_match :: "pystr \<Rightarrow> bool" where
  "ALIAS_RE_match s \<longleftrightarrow> ALIAS_RE_full s \<or> (s \<noteq> [] \<and> last s = nl \<and> ALIAS_RE_full (butlast s))"

definition upsert_alias :: "path_alias \<Rightarrow> db \<Rightarrow> db result" where
  "upsert_alias row d =
     (if \<not> ALIAS_RE_full (a_alias row) then Inl (IntegrityErr (u ''path_aliases_alias_check''))
      else if \<not> prefix [slash] (a_realpath row) then Inl (IntegrityErr (u ''path_aliases_realpath_check''))
      else if get alias_id (alias_id row) (d_aliases d) = None \<and> \<not> guild_known d (a_guild row) then
        Inl (IntegrityErr (u ''path_aliases_guild_id_fkey''))
      else Inr (d\<lparr>d_aliases := ins_or_upd alias_id row (\<lambda>_. True)
             (\<lambda>r. r\<lparr>a_path := a_path row, a_realpath := a_realpath row, a_created_by := a_created_by row\<rparr>)
             (d_aliases d)\<rparr>))"

definition set_path_alias ::
  "(pystr \<Rightarrow> pystr) \<Rightarrow> pystr \<Rightarrow> pystr \<Rightarrow> pystr \<Rightarrow> pystr \<Rightarrow> pystr \<Rightarrow> db \<Rightarrow> (pystr \<times> pystr) result \<times> db" where
  "set_path_alias rp guild_id alias path host_id created_by d =
     (if \<not> ALIAS_RE_match alias then (Inl (ValueErr (u ''invalid_alias_format: '' @ py_repr alias)), d)
      else
        (case canonicalize rp path of
           (realpath, Some reason) \<Rightarrow> (Inl (ValueErr (deny_text reason)), d)
         | (realpath, None) \<Rightarrow>
             (case upsert_alias \<lparr>a_guild = guild_id, a_alias = alias, a_path = path, a_realpath = realpath,
                      a_created_by = created_by\<rparr> d of
                Inl e \<Rightarrow> (Inl e, d)
              | Inr d1 \<Rightarrow>
                  (case insert_root \<lparr>r_guild = Some guild_id, r_user = [], r_host = host_id, r_path = path,
                           r_realpath = realpath, r_created_by = created_by\<rparr> d1 of
                     Inl e \<Rightarrow> (Inl e, d)
                   | Inr d2 \<Rightarrow> (Inr (alias, realpath), d2)))))"

text \<open>The order of texts is the one of code points; the collation of the database may differ.\<close>

definition list_path_aliases :: "pystr \<Rightarrow> db \<Rightarrow> path_alias list" where
  "list_path_aliases guild_id d = order_by a_alias (sel (\<lambda>r. a_guild r = guild_id) (d_aliases d))"

definition remove_path_alias :: "pystr \<Rightarrow> pystr \<Rightarrow> db \<Rightarrow> bool \<times> db" where
  "remove_path_alias guild_id alias d =
     (let p = (\<lambda>r. a_guild r = guild_id \<and> a_alias r = alias)
      in (0 < length (sel p (d_aliases d)), d\<lparr>d_aliases := del p (d_aliases d)\<rparr>))"

definition resolve_alias_or_path :: "pystr \<Rightarrow> pystr \<Rightarrow> db \<Rightarrow> pystr result" where
  "resolve_alias_or_path guild_id raw_cwd d =
     (if prefix [slash] raw_cwd then Inr raw_cwd
      else (case get alias_id (guild_id, raw_cwd) (d_aliases d) of
              None \<Rightarrow> Inl (ValueErr (u ''unknown_alias: '' @ raw_cwd))
            | Some r \<Rightarrow> Inr (a_realpath r)))"

subsection \<open>Who may change the configuration of a guild\<close>

lemmas setup_defs = setup_init_def setup_map_set_def setup_map_remove_def setup_admin_role_set_def
  add_allowed_root_for_user_def set_path_alias_def remove_path_alias_def

text \<open>An operation refused for lack of the role changes nothing.\<close>

lemma setup_refused:
  assumes "\<not> is_guild_admin_authorized d g (roles_or_empty roles) names"
  shows "snd (setup_map_set g tool ch who roles names d) = d"
    "snd (setup_map_remove g tool roles names d) = d"
    "snd (setup_admin_role_set g r rn who roles names False d) = d"
  using assms by (simp_all add: setup_defs)

text \<open>The row that \<open>setup_map_set\<close> reads back always exists.\<close>

lemma setup_map_set_total: "\<exists>r. fst (setup_map_set g tool ch who roles names d) = Inr r"
  using resolve_set_channel [of g tool g tool ch who d]
  by (auto simp: setup_map_set_def Let_def resolve_tool_channel_def split: option.splits)

lemma setup_map_set_resolves:
  assumes "is_guild_admin_authorized d g (roles_or_empty roles) names"
  shows "resolve_tool_channel g' t' (snd (setup_map_set g tool ch who roles names d)) =
     (if g' = g \<and> t' = tool then Some ch else resolve_tool_channel g' t' d)"
  using resolve_set_channel [of g' t' g tool ch who d] resolve_set_channel [of g tool g tool ch who d] assms
  by (auto simp: setup_map_set_def Let_def resolve_tool_channel_def split: option.splits)

lemma policy_after_set:
  "get p_guild g' (d_policies (snd (setup_admin_role_set g r rn who roles names True d))) =
     (if g' = g then Some (case get p_guild g (d_policies d) of
          None \<Rightarrow> \<lparr>p_guild = g, p_role = r, p_role_name = rn, p_updated_by = who\<rparr>
        | Some p \<Rightarrow> p\<lparr>p_role := r, p_role_name := rn, p_updated_by := who\<rparr>)
      else get p_guild g' (d_policies d))"
  by (auto simp: setup_admin_role_set_def get_ins_or_upd split: option.splits)

text \<open>After the role is set, it decides who administers the guild, and no other guild is affected.\<close>

lemma admin_after_role_set:
  "is_guild_admin_authorized (snd (setup_admin_role_set g (Some r) rn who roles names True d)) g' rs ns \<longleftrightarrow>
     (if g' = g then r \<in> set rs else is_guild_admin_authorized d g' rs ns)"
  by (simp add: is_guild_admin_authorized_def policy_after_set split: option.splits)

text \<open>Registering a guild again changes nothing, and never replaces an administrator role.\<close>

lemma setup_init_idem: "snd (setup_init g who' (snd (setup_init g who d))) = snd (setup_init g who d)"
  by (auto simp: setup_init_def ins_or_skip_def get_append)

lemma setup_init_keeps_admins:
  "is_guild_admin_authorized (snd (setup_init g who d)) g' rs ns \<longleftrightarrow> is_guild_admin_authorized d g' rs ns"
  by (auto simp: setup_init_def is_guild_admin_authorized_def get_ins_or_skip split: option.splits)

lemma setup_init_registers: "guild_known (snd (setup_init g who d)) g"
  by (auto simp: setup_init_def guild_known_def get_ins_or_skip)

subsection \<open>Registered paths are allowed paths\<close>

definition roots_clean :: "db \<Rightarrow> bool" where
  "roots_clean d \<longleftrightarrow>
     list_all (\<lambda>r. prefix [slash] (r_realpath r) \<and> deny_reason (r_realpath r) = None) (d_roots d) \<and>
     list_all (\<lambda>r. ALIAS_RE_full (a_alias r) \<and> prefix [slash] (a_realpath r) \<and> deny_reason (a_realpath r) = None)
       (d_aliases d)"

lemma insert_root_clean:
  assumes "insert_root row d = Inr d'" "roots_clean d" "deny_reason (r_realpath row) = None"
  shows "roots_clean d'"
  using assms by (auto simp: insert_root_def roots_clean_def ins_or_skip_def split: if_splits)

lemma upsert_alias_clean:
  assumes "upsert_alias row d = Inr d'" "roots_clean d" "deny_reason (a_realpath row) = None"
  shows "roots_clean d'"
  using assms
  by (auto simp: upsert_alias_def roots_clean_def list_all_iff dest!: set_ins_or_upd split: if_splits)

lemma add_root_clean: "roots_clean d \<Longrightarrow> roots_clean (snd (add_allowed_root_for_user rp g user h path who d))"
  by (auto simp: add_allowed_root_for_user_def canonicalize_def Let_def insert_root_clean
      split: option.splits sum.splits)

lemma set_alias_clean: "roots_clean d \<Longrightarrow> roots_clean (snd (set_path_alias rp g alias path h who d))"
  by (auto simp: set_path_alias_def canonicalize_def Let_def split: option.splits sum.splits
      dest!: upsert_alias_clean insert_root_clean)

lemma remove_alias_clean: "roots_clean d \<Longrightarrow> roots_clean (snd (remove_path_alias g alias d))"
  by (auto simp: remove_path_alias_def Let_def roots_clean_def del_def list_all_iff)

lemma setup_clean:
  assumes "roots_clean d"
  shows "roots_clean (snd (setup_init g who d))" "roots_clean (snd (setup_map_set g tool ch who roles names d))"
    "roots_clean (snd (setup_map_remove g tool roles names d))"
    "roots_clean (snd (setup_admin_role_set g r rn who roles names a d))"
  using assms
  by (auto simp: setup_defs roots_clean_def Let_def set_tool_channel_map_def remove_tool_channel_map_def
      split: option.splits)

subsection \<open>What an alias gives\<close>

lemma alias_re_relative: "ALIAS_RE_full s \<Longrightarrow> \<not> prefix [slash] s"
  by (cases s) (auto simp: ALIAS_RE_full_def)

lemma insert_root_in:
  assumes "insert_root row d = Inr d'"
  shows "\<exists>r \<in> set (d_roots d'). root_id r = root_id row" "d_hosts d' = d_hosts d" "d_aliases d' = d_aliases d"
proof -
  show "\<exists>r \<in> set (d_roots d'). root_id r = root_id row"
  proof (cases "get root_id (root_id row) (d_roots d)")
    case None
    then show ?thesis
      using assms by (auto simp: insert_root_def ins_or_skip_def split: if_splits)
  next
    case (Some r)
    then have "r \<in> set (d_roots d)" "root_id r = root_id row"
      using get_SomeD [OF Some] by auto
    then show ?thesis
      using assms Some by (auto simp: insert_root_def split: if_splits)
  qed
qed (use assms in \<open>auto simp: insert_root_def split: if_splits\<close>)

lemma upsert_alias_get:
  assumes "upsert_alias row d = Inr d'"
  shows "\<exists>r. get alias_id (alias_id row) (d_aliases d') = Some r \<and> a_realpath r = a_realpath row"
    "d_hosts d' = d_hosts d"
proof -
  let ?f = "\<lambda>r::path_alias. r\<lparr>a_path := a_path row, a_realpath := a_realpath row, a_created_by := a_created_by row\<rparr>"
  have k: "alias_id (?f r) = alias_id r" for r
    by (simp add: alias_id_def)
  have "d_aliases d' = ins_or_upd alias_id row (\<lambda>_. True) ?f (d_aliases d)"
    using assms by (auto simp: upsert_alias_def split: if_splits)
  then show "\<exists>r. get alias_id (alias_id row) (d_aliases d') = Some r \<and> a_realpath r = a_realpath row"
    using get_ins_or_upd [of alias_id ?f "alias_id row" row "\<lambda>_. True" "d_aliases d", OF k]
    by (auto split: option.splits)
qed (use assms in \<open>auto simp: upsert_alias_def split: if_splits\<close>)

lemma set_alias_ok:
  assumes "set_path_alias rp g alias path h who d = (Inr res, d')"
  shows "res = (alias, rp path)" "ALIAS_RE_full alias" "deny_reason (rp path) = None"
    "\<exists>r. get alias_id (g, alias) (d_aliases d') = Some r \<and> a_realpath r = rp path"
    "\<exists>r \<in> set (d_roots d'). r_guild r = Some g \<and> r_user r = [] \<and> r_host r = h \<and> r_realpath r = rp path"
    "d_hosts d' = d_hosts d"
proof -
  let ?a = "\<lparr>a_guild = g, a_alias = alias, a_path = path, a_realpath = rp path, a_created_by = who\<rparr>"
  let ?r = "\<lparr>r_guild = Some g, r_user = [], r_host = h, r_path = path, r_realpath = rp path, r_created_by = who\<rparr>"
  obtain d1 where d1: "upsert_alias ?a d = Inr d1" and d2: "insert_root ?r d1 = Inr d'"
    and res: "res = (alias, rp path)" and clean: "deny_reason (rp path) = None"
    using assms by (auto simp: set_path_alias_def canonicalize_def Let_def split: if_splits option.splits sum.splits)
  show "res = (alias, rp path)" "deny_reason (rp path) = None"
    by (rule res, rule clean)
  show "ALIAS_RE_full alias"
    using d1 by (auto simp: upsert_alias_def split: if_splits)
  show "\<exists>r. get alias_id (g, alias) (d_aliases d') = Some r \<and> a_realpath r = rp path"
    using upsert_alias_get(1) [OF d1] insert_root_in(3) [OF d2] by (simp add: alias_id_def)
  show "\<exists>r \<in> set (d_roots d'). r_guild r = Some g \<and> r_user r = [] \<and> r_host r = h \<and> r_realpath r = rp path"
    using insert_root_in(1) [OF d2] by (simp add: root_id_def)
  show "d_hosts d' = d_hosts d"
    using insert_root_in(2) [OF d2] upsert_alias_get(2) [OF d1] by simp
qed

lemma alias_opens_workspace_parts:
  assumes "set_path_alias rp g alias path h who d = (Inr res, d')"
  shows "resolve_alias_or_path g alias d' = Inr (rp path)" "deny_reason (rp path) = None"
    "get h_id h (d_hosts d) = Some host \<Longrightarrow> h_status host = Online \<Longrightarrow> is_within_root p (rp path) \<Longrightarrow>
       validate_workspace (CanonReply p (Some (u ''allow'')) True) g ow h d' = Inr p"
proof -
  note ok = set_alias_ok [OF assms]
  show "resolve_alias_or_path g alias d' = Inr (rp path)"
    using ok(2,4) by (auto simp: resolve_alias_or_path_def alias_re_relative)
  show "deny_reason (rp path) = None"
    by (rule ok(3))
  show "validate_workspace (CanonReply p (Some (u ''allow'')) True) g ow h d' = Inr p"
    if "get h_id h (d_hosts d) = Some host" "h_status host = Online" "is_within_root p (rp path)"
    using ok(5,6) that by (auto simp: validate_workspace_def sel_def)
qed

text \<open>C22. A registered alias works for the whole guild: it resolves to the real path it was registered with, which the
  denylist allows, and every workspace under that path that the runner allows on that host is accepted,
  whoever the owner of the session is.\<close>

theorem alias_opens_workspace:
  assumes "set_path_alias rp g alias path h who d = (Inr res, d')"
  shows "(resolve_alias_or_path g alias d' = Inr (rp path)) \<and>
     (deny_reason (rp path) = None) \<and>
     ((get h_id h (d_hosts d) = Some host) \<longrightarrow> (h_status host = Online) \<longrightarrow> is_within_root p (rp path) \<longrightarrow> (validate_workspace (CanonReply p (Some (u ''allow'')) True) g ow h d' = Inr p))"
proof -
  have c1: "(resolve_alias_or_path g alias d' = Inr (rp path))"
    by (rule alias_opens_workspace_parts(1) [OF assms])
  have c2: "(deny_reason (rp path) = None)"
    by (rule alias_opens_workspace_parts(2) [OF assms])
  have c3: "((get h_id h (d_hosts d) = Some host) \<longrightarrow> (h_status host = Online) \<longrightarrow> is_within_root p (rp path) \<longrightarrow> (validate_workspace (CanonReply p (Some (u ''allow'')) True) g ow h d' = Inr p))"
    by ((rule impI)+, rule alias_opens_workspace_parts(3) [OF assms], assumption+)
  show ?thesis
    by (rule conjI [OF c1 conjI [OF c2 c3]])
qed

definition sample_guild_db :: db where
  "sample_guild_db = empty_db\<lparr>d_hosts := [\<lparr>h_id = u ''h'', h_status = Online, h_heartbeat = None\<rparr>],
     d_guilds := [\<lparr>g_id = u ''g'', g_name = u ''g''\<rparr>]\<rparr>"

lemma sample_alias:
  "\<exists>d'. set_path_alias (\<lambda>p. p) (u ''g'') (u ''app'') (u ''/srv/app'') (u ''h'') (u ''a'') sample_guild_db =
     (Inr (u ''app'', u ''/srv/app''), d')"
proof -
  have "canonicalize (\<lambda>p. p) (u ''/srv/app'') = (u ''/srv/app'', None)"
    by code_simp
  moreover have "ALIAS_RE_full (u ''app'')" "prefix [slash] (u ''/srv/app'')"
    by (simp_all add: ALIAS_RE_full_def u_def)
  ultimately show ?thesis
    by (simp add: set_path_alias_def ALIAS_RE_match_def upsert_alias_def insert_root_def guild_known_def
        sample_guild_db_def empty_db_def)
qed

theorem alias_opens_workspace_witness:
  "\<exists>d'. validate_workspace (CanonReply (u ''/srv/app/x'') (Some (u ''allow'')) True) (u ''g'') (u ''someone'') (u ''h'') d' =
     Inr (u ''/srv/app/x'')"
proof -
  obtain d' where d': "set_path_alias (\<lambda>p. p) (u ''g'') (u ''app'') (u ''/srv/app'') (u ''h'') (u ''a'') sample_guild_db =
     (Inr (u ''app'', u ''/srv/app''), d')"
    using sample_alias by blast
  have w: "is_within_root (u ''/srv/app/x'') (u ''/srv/app'')"
    by code_simp
  have h: "get h_id (u ''h'') (d_hosts sample_guild_db) = Some \<lparr>h_id = u ''h'', h_status = Online, h_heartbeat = None\<rparr>"
    by (simp add: sample_guild_db_def)
  show ?thesis
    by (intro exI [of _ d'] alias_opens_workspace [THEN conjunct2, THEN conjunct2, THEN mp, THEN mp, THEN mp, OF d' h _ w]) simp
qed

text \<open>
  Two inputs that pass the checks of the code and are refused by a constraint of the table, with an error no handler
  expects: an alias with a newline at its end, and a root in a server that no setup and no session has registered.
\<close>

lemma newline_alias_reaches_table:
  assumes "ALIAS_RE_full a" "canonicalize rp path = (p, None)"
  shows "set_path_alias rp g (a @ [nl]) path h who d = (Inl (IntegrityErr (u ''path_aliases_alias_check'')), d)"
proof -
  have "ALIAS_RE_match (a @ [nl])" "\<not> ALIAS_RE_full (a @ [nl])"
    using assms(1) by (cases a; simp add: ALIAS_RE_match_def ALIAS_RE_full_def)+
  then show ?thesis
    using assms(2) by (simp add: set_path_alias_def upsert_alias_def)
qed

lemma root_needs_known_guild:
  assumes "\<not> guild_known d g" "canonicalize rp path = (p, None)" "prefix [slash] p"
    "get root_id (Some g, who, h, p) (d_roots d) = None"
  shows "add_allowed_root_for_user rp g who h path by' d = (Inl (IntegrityErr (u ''allowed_roots_guild_id_fkey'')), d)"
  using assms by (simp add: add_allowed_root_for_user_def insert_root_def root_id_def)

end
