(* ===== verification/Tool_Service.thy ===== *)
theory Tool_Service
  imports Tools Config "HOL-Library.Monad_Syntax" "HOL-Library.List_Lexorder"
begin

text \<open>
  \<open>bot/tool_service.py\<close>: registration, listing, update, enabling and removal of tool definitions, and
  the field types of \<open>ToolConfig\<close> in \<open>tools/schema.py\<close>. The JSON parser and the texts of pydantic's
  type errors are parameters.
\<close>

subsection \<open>JSON documents and their schema\<close>

text \<open>A JSON value; numbers keep their text. Keys of an object are distinct (the last one wins in Python).\<close>

datatype jdoc = JdNull | JdBool bool | JdNum pystr | JdStr pystr | JdList "jdoc list"
  | JdObj "(pystr \<times> jdoc) list"

fun as_str :: "jdoc \<Rightarrow> pystr option" where
  "as_str (JdStr s) = Some s"
| "as_str _ = None"

fun as_opt_str :: "jdoc \<Rightarrow> pystr option option" where
  "as_opt_str JdNull = Some None"
| "as_opt_str (JdStr s) = Some (Some s)"
| "as_opt_str _ = None"

fun as_bool :: "jdoc \<Rightarrow> bool option" where
  "as_bool (JdBool b) = Some b"
| "as_bool _ = None"

fun as_strs :: "jdoc list \<Rightarrow> pystr list option" where
  "as_strs [] = Some []"
| "as_strs (JdStr s # js) = map_option (Cons s) (as_strs js)"
| "as_strs (_ # js) = None"

fun as_str_list :: "jdoc \<Rightarrow> pystr list option" where
  "as_str_list (JdList js) = as_strs js"
| "as_str_list _ = None"

definition sources :: "(pystr \<times> resume_source) list" where
  "sources = [(u ''none'', SrcNone), (u ''stdout_regex'', StdoutRegex), (u ''stderr_regex'', StderrRegex),
     (u ''json_field'', JsonFieldSrc), (u ''sentinel'', Sentinel), (u ''caller_uuid'', CallerUuid)]"

definition extractors :: "(pystr \<times> extractor) list" where
  "extractors = [(u ''stdout_raw'', StdoutRaw), (u ''stdout_strip_ansi'', StdoutStripAnsi),
     (u ''json_field'', JsonFieldEx), (u ''stderr_fallback'', StderrFallback)]"

fun source_str :: "resume_source \<Rightarrow> pystr" where
  "source_str SrcNone = u ''none''"
| "source_str StdoutRegex = u ''stdout_regex''"
| "source_str StderrRegex = u ''stderr_regex''"
| "source_str JsonFieldSrc = u ''json_field''"
| "source_str Sentinel = u ''sentinel''"
| "source_str CallerUuid = u ''caller_uuid''"

fun extractor_str :: "extractor \<Rightarrow> pystr" where
  "extractor_str StdoutRaw = u ''stdout_raw''"
| "extractor_str StdoutStripAnsi = u ''stdout_strip_ansi''"
| "extractor_str JsonFieldEx = u ''json_field''"
| "extractor_str StderrFallback = u ''stderr_fallback''"

definition MUTABLE_FIELDS :: "pystr list" where
  "MUTABLE_FIELDS = map u [''display_name'', ''argv_prefix'', ''argv_resume_tokens'', ''argv_suffix'', ''uses_pty'',
     ''resume_token_source'', ''resume_token_pattern'', ''reply_extractor'', ''reply_json_field'', ''extra_paths'',
     ''env_passthrough'', ''model_flag'', ''api_key_env'', ''base_url_env'']"

definition IMMUTABLE_FIELDS :: "pystr list" where
  "IMMUTABLE_FIELDS = map u [''name'', ''enabled'', ''created_by'', ''created_at'', ''updated_at'']"

definition LIST_FIELDS :: "pystr list" where
  "LIST_FIELDS = map u [''argv_prefix'', ''argv_resume_tokens'', ''argv_suffix'', ''extra_paths'', ''env_passthrough'']"

definition BOOL_FIELDS :: "pystr list" where
  "BOOL_FIELDS = [u ''uses_pty'']"

text \<open>\<open>field as k dflt o\<close>: a field with a default; a field without one is absent when \<open>dflt\<close> is \<open>None\<close>.\<close>

definition field :: "(jdoc \<Rightarrow> 'a option) \<Rightarrow> string \<Rightarrow> 'a option \<Rightarrow> (pystr \<times> jdoc) list \<Rightarrow> 'a option" where
  "field conv k dflt obj = (case map_of obj (u k) of None \<Rightarrow> dflt | Some j \<Rightarrow> conv j)"

definition config_of_obj :: "(pystr \<times> jdoc) list \<Rightarrow> tool_config option" where
  "config_of_obj obj =
     (if \<not> set (map fst obj) \<subseteq> set MUTABLE_FIELDS then None
      else do {
        display \<leftarrow> field as_str ''display_name'' (Some []) obj;
        pre \<leftarrow> field as_str_list ''argv_prefix'' None obj;
        resume \<leftarrow> field as_str_list ''argv_resume_tokens'' (Some []) obj;
        suf \<leftarrow> field as_str_list ''argv_suffix'' None obj;
        pty \<leftarrow> field as_bool ''uses_pty'' (Some False) obj;
        source \<leftarrow> Option.bind (field as_str ''resume_token_source'' None obj) (map_of sources);
        pattern \<leftarrow> field as_opt_str ''resume_token_pattern'' (Some None) obj;
        ext \<leftarrow> Option.bind (field as_str ''reply_extractor'' None obj) (map_of extractors);
        json_field \<leftarrow> field as_opt_str ''reply_json_field'' (Some None) obj;
        paths \<leftarrow> field as_str_list ''extra_paths'' (Some []) obj;
        env \<leftarrow> field as_str_list ''env_passthrough'' (Some []) obj;
        model \<leftarrow> field as_opt_str ''model_flag'' (Some None) obj;
        api_key \<leftarrow> field as_opt_str ''api_key_env'' (Some None) obj;
        base_url \<leftarrow> field as_opt_str ''base_url_env'' (Some None) obj;
        Some \<lparr>td_display = display, td_prefix = pre, td_resume = resume, td_suffix = suf, td_pty = pty,
          td_source = source, td_pattern = pattern, td_extractor = ext, td_json_field = json_field,
          td_extra_paths = paths, td_env = env, td_model_flag = model, td_api_key_env = api_key,
          td_base_url_env = base_url\<rparr>
      })"

fun config_of_json :: "jdoc \<Rightarrow> tool_config option" where
  "config_of_json (JdObj obj) = config_of_obj obj"
| "config_of_json _ = None"

text \<open>The columns of a row as a dictionary: \<open>{key: getattr(row, key) for key in _MUTABLE_FIELDS}\<close>.\<close>

definition jd_opt :: "pystr option \<Rightarrow> jdoc" where
  "jd_opt x = (case x of None \<Rightarrow> JdNull | Some s \<Rightarrow> JdStr s)"

definition jd_strs :: "pystr list \<Rightarrow> jdoc" where
  "jd_strs xs = JdList (map JdStr xs)"

definition obj_of_config :: "tool_config \<Rightarrow> (pystr \<times> jdoc) list" where
  "obj_of_config c =
     [(u ''display_name'', JdStr (td_display c)), (u ''argv_prefix'', jd_strs (td_prefix c)),
      (u ''argv_resume_tokens'', jd_strs (td_resume c)), (u ''argv_suffix'', jd_strs (td_suffix c)),
      (u ''uses_pty'', JdBool (td_pty c)), (u ''resume_token_source'', JdStr (source_str (td_source c))),
      (u ''resume_token_pattern'', jd_opt (td_pattern c)),
      (u ''reply_extractor'', JdStr (extractor_str (td_extractor c))),
      (u ''reply_json_field'', jd_opt (td_json_field c)), (u ''extra_paths'', jd_strs (td_extra_paths c)),
      (u ''env_passthrough'', jd_strs (td_env c)), (u ''model_flag'', jd_opt (td_model_flag c)),
      (u ''api_key_env'', jd_opt (td_api_key_env c)), (u ''base_url_env'', jd_opt (td_base_url_env c))]"

lemma as_strs_map [simp]: "as_strs (map JdStr xs) = Some xs"
  by (induction xs) simp_all

lemma as_jd [simp]: "as_str_list (jd_strs xs) = Some xs" "as_opt_str (jd_opt x) = Some x"
  by (simp_all add: jd_strs_def jd_opt_def split: option.split)

lemma map_of_source_str [simp]: "map_of sources (source_str s) = Some s"
  by (cases s) (simp_all add: sources_def)

lemma map_of_extractor_str [simp]: "map_of extractors (extractor_str e) = Some e"
  by (cases e) (simp_all add: extractors_def)

text \<open>A definition survives being written as a dictionary and read back.\<close>

lemma config_of_obj_of_config: "config_of_obj (obj_of_config c) = Some c"
  by (simp add: config_of_obj_def obj_of_config_def MUTABLE_FIELDS_def field_def)

subsection \<open>Operations\<close>

record tool_result =
  tr_authorized :: bool
  tr_success :: bool
  tr_message :: pystr

definition TOOL_UNAUTH_MSG :: pystr where
  "TOOL_UNAUTH_MSG = u ''Only a configured platform administrator may modify global tools.''"

definition apos :: "pystr \<Rightarrow> pystr" where "apos s = 39 # s @ [39]"

definition platform_authorized :: "settings \<Rightarrow> pystr option \<Rightarrow> bool" where
  "platform_authorized cfg user_id =
     (case user_id of None \<Rightarrow> False | Some i \<Rightarrow> i \<in> set (platform_admin_user_ids cfg))"

text \<open>\<open>_validate_config\<close>; \<open>type_error\<close> is what pydantic says of a document of another shape.\<close>

definition validate_json :: "engine \<Rightarrow> (jdoc \<Rightarrow> pystr) \<Rightarrow> pystr \<Rightarrow> jdoc \<Rightarrow> pystr option" where
  "validate_json eng type_error name j =
     (if \<not> NAME_PATTERN name then Some (u ''name must match ^[a-z][a-z0-9_-]{0,63}$'')
      else (case config_of_json j of
              None \<Rightarrow> Some (type_error j)
            | Some c \<Rightarrow> validate_tool_config eng c (Some name)))"

definition refuse :: "bool \<Rightarrow> pystr \<Rightarrow> tool_result" where
  "refuse authorized m = \<lparr>tr_authorized = authorized, tr_success = False, tr_message = m\<rparr>"

definition accept :: "pystr \<Rightarrow> tool_result" where
  "accept m = \<lparr>tr_authorized = True, tr_success = True, tr_message = m\<rparr>"

definition register_tool ::
  "engine \<Rightarrow> (jdoc \<Rightarrow> pystr) \<Rightarrow> settings \<Rightarrow> pystr \<Rightarrow> jdoc \<Rightarrow> pystr \<Rightarrow> pystr option \<Rightarrow> db \<Rightarrow> tool_result \<times> db" where
  "register_tool eng type_error cfg name config created_by user_id d =
     (if \<not> platform_authorized cfg (if opt_str user_id \<noteq> [] then user_id else Some created_by) then
        (refuse False TOOL_UNAUTH_MSG, d)
      else
        (case validate_json eng type_error name config of
           Some err \<Rightarrow> (refuse True err, d)
         | None \<Rightarrow>
             (case tool_of name d of
                Some row \<Rightarrow>
                  (refuse True (u ''tool '' @ apos name @ u '' already exists; use /tool update or /tool remove''), d)
              | None \<Rightarrow>
                  (case config_of_json config of
                     None \<Rightarrow> (refuse True (type_error config), d)
                   | Some c \<Rightarrow>
                       (accept (u ''Registered tool '' @ apos name @ u '' disabled. Probe it, then use /tool enable.''),
                        d\<lparr>d_tools := d_tools d @
                          [\<lparr>td_name = name, td_config = c, td_enabled = False, td_created_by = Some created_by\<rparr>]\<rparr>)))))"

definition list_tools :: "db \<Rightarrow> tool_def list" where
  "list_tools d = order_by td_name (d_tools d)"

definition show_tool :: "pystr \<Rightarrow> db \<Rightarrow> tool_def option \<times> pystr" where
  "show_tool name d =
     (case tool_of name d of None \<Rightarrow> (None, u ''unknown tool '' @ apos name) | Some row \<Rightarrow> (Some row, []))"

text \<open>\<open>str.lower\<close> on ASCII, which decides whether the result is one of the ASCII words below.\<close>

definition ascii_lower :: "pystr \<Rightarrow> pystr" where
  "ascii_lower s = map (\<lambda>c. if 65 \<le> c \<and> c \<le> 90 then c + 32 else c) s"

text \<open>The value of a field from its text: a JSON list, a truth value, or the text itself.\<close>

definition parse_field :: "(pystr \<Rightarrow> jdoc option) \<Rightarrow> pystr \<Rightarrow> pystr \<Rightarrow> pystr + jdoc" where
  "parse_field json_loads fld v =
     (if fld \<in> set LIST_FIELDS then
        (case json_loads v of
           Some (JdList js) \<Rightarrow> Inr (JdList js)
         | _ \<Rightarrow> Inl (u ''field '' @ apos fld @ u '' expects a JSON list''))
      else if fld \<in> set BOOL_FIELDS then
        (let n = ascii_lower (py_strip v)
         in if n \<notin> set (map u [''true'', ''false'', ''1'', ''0'', ''yes'', ''no'']) then
              Inl (u ''field '' @ apos fld @ u '' expects a boolean'')
            else Inr (JdBool (n \<in> set (map u [''true'', ''1'', ''yes'']))))
      else Inr (JdStr v))"

definition set_tool :: "pystr \<Rightarrow> (tool_def \<Rightarrow> tool_def) \<Rightarrow> db \<Rightarrow> db" where
  "set_tool name f d = d\<lparr>d_tools := upd (\<lambda>r. td_name r = name) f (d_tools d)\<rparr>"

text \<open>The candidate differs from the row in the one field that \<open>setattr\<close> then writes.\<close>

definition update_tool_field ::
  "engine \<Rightarrow> (jdoc \<Rightarrow> pystr) \<Rightarrow> (pystr \<Rightarrow> jdoc option) \<Rightarrow> settings \<Rightarrow> pystr \<Rightarrow> pystr \<Rightarrow> pystr \<Rightarrow> pystr option \<Rightarrow>
   db \<Rightarrow> tool_result \<times> db" where
  "update_tool_field eng type_error json_loads cfg name fld v user_id d =
     (if \<not> platform_authorized cfg user_id then (refuse False TOOL_UNAUTH_MSG, d)
      else if fld \<in> set IMMUTABLE_FIELDS then
        (refuse True (u ''field '' @ apos fld @ u '' is not editable; use enable/disable/remove''), d)
      else if fld \<notin> set MUTABLE_FIELDS then (refuse True (u ''unknown field '' @ apos fld), d)
      else
        (case tool_of name d of
           None \<Rightarrow> (refuse True (u ''unknown tool '' @ apos name), d)
         | Some row \<Rightarrow>
             (case parse_field json_loads fld v of
                Inl m \<Rightarrow> (refuse True m, d)
              | Inr parsed \<Rightarrow>
                  (let candidate = JdObj (AList.update fld parsed (obj_of_config (td_config row)))
                   in case validate_json eng type_error (td_name row) candidate of
                        Some err \<Rightarrow> (refuse True (u ''resulting config invalid: '' @ err), d)
                      | None \<Rightarrow>
                          (accept (u ''Updated '' @ name @ u ''.'' @ fld @ u ''.''),
                           set_tool name (\<lambda>r. case config_of_json candidate of None \<Rightarrow> r | Some c \<Rightarrow> r\<lparr>td_config := c\<rparr>) d)))))"

definition set_enabled :: "settings \<Rightarrow> pystr \<Rightarrow> bool \<Rightarrow> pystr option \<Rightarrow> db \<Rightarrow> tool_result \<times> db" where
  "set_enabled cfg name enabled user_id d =
     (if \<not> platform_authorized cfg user_id then (refuse False TOOL_UNAUTH_MSG, d)
      else
        (case tool_of name d of
           None \<Rightarrow> (refuse True (u ''unknown tool '' @ apos name), d)
         | Some row \<Rightarrow>
             (accept (u ''Tool '' @ apos name @ u (if enabled then '' enabled.'' else '' disabled.'')),
              set_tool name (\<lambda>r. r\<lparr>td_enabled := enabled\<rparr>) d)))"

definition enable_tool :: "settings \<Rightarrow> pystr \<Rightarrow> pystr option \<Rightarrow> db \<Rightarrow> tool_result \<times> db" where
  "enable_tool cfg name user_id d = set_enabled cfg name True user_id d"

definition disable_tool :: "settings \<Rightarrow> pystr \<Rightarrow> pystr option \<Rightarrow> db \<Rightarrow> tool_result \<times> db" where
  "disable_tool cfg name user_id d = set_enabled cfg name False user_id d"

definition tool_refs :: "pystr \<Rightarrow> db \<Rightarrow> nat" where
  "tool_refs name d = length (sel (\<lambda>s. s_tool s = name \<and> s_status s \<notin> {Failed, Orphaned}) (d_sessions d))"

definition remove_tool :: "settings \<Rightarrow> pystr \<Rightarrow> pystr option \<Rightarrow> db \<Rightarrow> tool_result \<times> db" where
  "remove_tool cfg name user_id d =
     (if \<not> platform_authorized cfg user_id then (refuse False TOOL_UNAUTH_MSG, d)
      else
        (case tool_of name d of
           None \<Rightarrow> (refuse True (u ''unknown tool '' @ apos name), d)
         | Some row \<Rightarrow>
             if 0 < tool_refs name d then
               (refuse True (nat_str (tool_refs name d) @ u '' live or resumable session(s) still use '' @ apos name @
                  u ''; disable the tool and stop those sessions first''), d)
             else (accept (u ''Removed tool '' @ apos name @ u ''.''), d\<lparr>d_tools := del (\<lambda>r. td_name r = name) (d_tools d)\<rparr>)))"

text \<open>\<open>/start\<close> autocomplete: the enabled tools whose name contains the text, 25 at most.\<close>

definition tool_autocomplete :: "pystr \<Rightarrow> db \<Rightarrow> (pystr \<times> pystr) list" where
  "tool_autocomplete current d =
     take 25 (map (\<lambda>t. (td_display (td_config t) @ u '' ('' @ td_name t @ u '')'', td_name t))
       (filter (\<lambda>t. td_enabled t \<and> contains (ascii_lower current) (ascii_lower (td_name t))) (list_tools d)))"

subsection \<open>The registry invariant\<close>

definition registry_ok :: "engine \<Rightarrow> db \<Rightarrow> bool" where
  "registry_ok eng d \<longleftrightarrow> distinct (map td_name (d_tools d)) \<and>
     list_all (\<lambda>t. validate_tool_config eng (td_config t) (Some (td_name t)) = None) (d_tools d)"

lemmas tool_defs = register_tool_def update_tool_field_def set_enabled_def remove_tool_def

lemma registry_set_tool:
  assumes "registry_ok eng d" "\<And>r. td_name (f r) = td_name r"
    "\<And>r. r \<in> set (d_tools d) \<Longrightarrow> td_name r = name \<Longrightarrow> validate_tool_config eng (td_config (f r)) (Some name) = None"
  shows "registry_ok eng (set_tool name f d)"
proof -
  have "map td_name (upd (\<lambda>r. td_name r = name) f (d_tools d)) = map td_name (d_tools d)"
    by (rule map_key_upd) (rule assms(2))
  then show ?thesis
    using assms by (auto simp: registry_ok_def set_tool_def list_all_iff set_upd)
qed

lemma validate_json_None:
  "validate_json eng te name j = None \<Longrightarrow> \<exists>c. config_of_json j = Some c \<and> validate_tool_config eng c (Some name) = None"
  by (auto simp: validate_json_def split: if_splits option.splits)

lemma register_ok: "registry_ok eng d \<Longrightarrow> registry_ok eng (snd (register_tool eng te cfg name j who uid d))"
  by (auto simp: register_tool_def registry_ok_def tool_of_def get_None_iff
      dest!: validate_json_None split: option.splits)

lemma update_ok:
  assumes "registry_ok eng d"
  shows "registry_ok eng (snd (update_tool_field eng te jl cfg name fld v uid d))"
proof -
  have "registry_ok eng (set_tool name (\<lambda>r. case config_of_json j of None \<Rightarrow> r | Some c \<Rightarrow> r\<lparr>td_config := c\<rparr>) d)"
    if "validate_json eng te name j = None" for j
    using validate_json_None [OF that] by (auto intro!: registry_set_tool [OF assms])
  then show ?thesis
    using assms by (auto simp: update_tool_field_def Let_def tool_of_def simp del: config_of_json.simps split: option.splits sum.splits dest!: get_SomeD)
qed

lemma set_enabled_ok:
  assumes "registry_ok eng d"
  shows "registry_ok eng (snd (set_enabled cfg name b uid d))"
proof -
  have "registry_ok eng (set_tool name (\<lambda>r. r\<lparr>td_enabled := b\<rparr>) d)"
    using assms by (intro registry_set_tool) (auto simp: registry_ok_def list_all_iff)
  then show ?thesis
    using assms by (cases b) (simp_all add: set_enabled_def split: option.split)
qed

lemma remove_ok: "registry_ok eng d \<Longrightarrow> registry_ok eng (snd (remove_tool cfg name uid d))"
  by (auto simp: remove_tool_def registry_ok_def del_def list_all_iff distinct_map_filter split: option.splits)

subsection \<open>What the invariant gives\<close>

text \<open>One step of the registry: any of its operations, by anyone.\<close>

datatype tool_op = ToolRegister pystr jdoc pystr | ToolUpdate pystr pystr pystr | ToolEnable pystr | ToolDisable pystr
  | ToolRemove pystr

fun tool_step ::
  "engine \<Rightarrow> (jdoc \<Rightarrow> pystr) \<Rightarrow> (pystr \<Rightarrow> jdoc option) \<Rightarrow> settings \<Rightarrow> pystr option \<Rightarrow> tool_op \<Rightarrow> db \<Rightarrow> tool_result \<times> db" where
  "tool_step eng te jl cfg uid (ToolRegister name j who) d = register_tool eng te cfg name j who uid d"
| "tool_step eng te jl cfg uid (ToolUpdate name fld v) d = update_tool_field eng te jl cfg name fld v uid d"
| "tool_step eng te jl cfg uid (ToolEnable name) d = enable_tool cfg name uid d"
| "tool_step eng te jl cfg uid (ToolDisable name) d = disable_tool cfg name uid d"
| "tool_step eng te jl cfg uid (ToolRemove name) d = remove_tool cfg name uid d"

lemma tool_step_ok: "registry_ok eng d \<Longrightarrow> registry_ok eng (snd (tool_step eng te jl cfg uid op d))"
  by (cases op) (simp_all add: register_ok update_ok set_enabled_ok remove_ok enable_tool_def disable_tool_def)

lemma tr_success_simps [simp]: "tr_success (accept m)" "\<not> tr_success (refuse a m)"
  by (simp_all add: accept_def refuse_def)

lemma register_refused:
  "\<not> tr_success (fst (register_tool eng te cfg name j who uid d)) \<longrightarrow> snd (register_tool eng te cfg name j who uid d) = d"
  by (simp add: register_tool_def split: option.split)

lemma update_refused:
  "\<not> tr_success (fst (update_tool_field eng te jl cfg name fld v uid d)) \<longrightarrow>
     snd (update_tool_field eng te jl cfg name fld v uid d) = d"
  by (simp add: update_tool_field_def Let_def split: option.split sum.split)

lemma enabled_refused:
  "\<not> tr_success (fst (set_enabled cfg name b uid d)) \<longrightarrow> snd (set_enabled cfg name b uid d) = d"
  by (simp add: set_enabled_def split: option.split)

lemma remove_refused: "\<not> tr_success (fst (remove_tool cfg name uid d)) \<longrightarrow> snd (remove_tool cfg name uid d) = d"
  by (simp add: remove_tool_def split: option.split)

lemma tool_refused: "\<not> tr_success (fst (tool_step eng te jl cfg uid op d)) \<Longrightarrow> snd (tool_step eng te jl cfg uid op d) = d"
  using register_refused update_refused enabled_refused remove_refused
  by (cases op) (simp_all add: enable_tool_def disable_tool_def)

lemma tool_success_admin:
  assumes "tr_success (fst (tool_step eng te jl cfg (Some i) op d))" "i \<noteq> []"
  shows "i \<in> set (platform_admin_user_ids cfg)"
proof (rule ccontr)
  assume "i \<notin> set (platform_admin_user_ids cfg)"
  then have "\<not> platform_authorized cfg (Some i)"
    by (simp add: platform_authorized_def)
  then show False
    using assms by (cases op) (simp_all add: tool_defs enable_tool_def disable_tool_def)
qed

lemma registry_stays_valid_parts:
  assumes "registry_ok eng d" "d' = fold (\<lambda>(uid, op) d. snd (tool_step eng te jl cfg uid op d)) ops d"
  shows "registry_ok eng d'"
    "tool_of name d' = Some row \<Longrightarrow> td_enabled row \<Longrightarrow> get_adapter eng name d' = Inr row"
proof -
  show r: "registry_ok eng d'"
    using assms(1) unfolding assms(2)
    by (induction ops arbitrary: d) (auto simp: case_prod_beta tool_step_ok)
  show "get_adapter eng name d' = Inr row" if t: "tool_of name d' = Some row" "td_enabled row"
  proof -
    have f: "find (\<lambda>r. td_name r = name \<and> td_enabled r) rs = Some row" if "get td_name name rs = Some row" for rs
      using that t(2) by (induction rs) (auto split: if_splits)
    have "row \<in> set (d_tools d')"
      using t(1) get_SomeD unfolding tool_of_def by fastforce
    then show ?thesis
      using f r t(1) unfolding tool_of_def get_adapter_def registry_ok_def list_all_iff by simp
  qed
qed

text \<open>C23. The registry stays valid: whoever issues whatever operations, names stay unique and every stored
  definition passes the validation contract, so that a tool that is enabled always yields an adapter.\<close>

theorem registry_stays_valid:
  assumes "registry_ok eng d" "d' = fold (\<lambda>(uid, op) d. snd (tool_step eng te jl cfg uid op d)) ops d"
  shows "(registry_ok eng d') \<and>
     ((tool_of name d' = Some row) \<longrightarrow> td_enabled row \<longrightarrow> (get_adapter eng name d' = Inr row))"
proof -
  have c1: "(registry_ok eng d')"
    by (rule registry_stays_valid_parts(1) [OF assms])
  have c2: "((tool_of name d' = Some row) \<longrightarrow> td_enabled row \<longrightarrow> (get_adapter eng name d' = Inr row))"
    by ((rule impI)+, rule registry_stays_valid_parts(2) [OF assms], assumption+)
  show ?thesis
    by (rule conjI [OF c1 c2])
qed

lemma registry_is_guarded_parts:
  shows "tr_success (fst (tool_step eng te jl cfg (Some i) op d)) \<Longrightarrow> i \<noteq> [] \<Longrightarrow> i \<in> set (platform_admin_user_ids cfg)"
    "\<not> tr_success (fst (tool_step eng te jl cfg uid op d)) \<Longrightarrow> snd (tool_step eng te jl cfg uid op d) = d"
    "register_tool eng te cfg name j who uid d = (accept m, d') \<Longrightarrow>
       (\<exists>row. tool_of name d' = Some row \<and> \<not> td_enabled row) \<and> get_adapter eng name d' = Inl (UnknownToolErr name)"
    "s \<in> set (d_sessions d) \<Longrightarrow> s_tool s = name \<Longrightarrow> s_status s \<notin> {Failed, Orphaned} \<Longrightarrow>
       snd (remove_tool cfg name uid d) = d"
proof -
  show "tr_success (fst (tool_step eng te jl cfg (Some i) op d)) \<Longrightarrow> i \<noteq> [] \<Longrightarrow> i \<in> set (platform_admin_user_ids cfg)"
    by (rule tool_success_admin)
  show "\<not> tr_success (fst (tool_step eng te jl cfg uid op d)) \<Longrightarrow> snd (tool_step eng te jl cfg uid op d) = d"
    by (rule tool_refused)
  show "(\<exists>row. tool_of name d' = Some row \<and> \<not> td_enabled row) \<and> get_adapter eng name d' = Inl (UnknownToolErr name)"
    if r: "register_tool eng te cfg name j who uid d = (accept m, d')"
  proof -
    obtain c where c: "tool_of name d = None"
      "d' = d\<lparr>d_tools := d_tools d @ [\<lparr>td_name = name, td_config = c, td_enabled = False, td_created_by = Some who\<rparr>]\<rparr>"
      using r by (auto simp: register_tool_def accept_def refuse_def split: if_splits option.splits)
    have "td_name t \<noteq> name" if "t \<in> set (d_tools d)" for t
      using c(1) that by (auto simp: tool_of_def get_None_iff)
    then have "\<forall>t \<in> set (d_tools d'). \<not> (td_name t = name \<and> td_enabled t)"
      by (simp add: c(2))
    then have "find (\<lambda>r. td_name r = name \<and> td_enabled r) (d_tools d') = None"
      by (simp add: find_None_iff)
    then show ?thesis
      using c by (auto simp: tool_of_def get_append get_adapter_def)
  qed
  show "snd (remove_tool cfg name uid d) = d"
    if "s \<in> set (d_sessions d)" "s_tool s = name" "s_status s \<notin> {Failed, Orphaned}"
  proof -
    have "sel (\<lambda>s. s_tool s = name \<and> s_status s \<notin> {Failed, Orphaned}) (d_sessions d) \<noteq> []"
      using that by (auto simp: sel_def filter_empty_conv)
    then show ?thesis
      by (simp add: remove_tool_def tool_refs_def split: option.splits)
  qed
qed

text \<open>The registry belongs to the platform administrators: an operation that succeeds was issued by one, and an
  operation that does not succeed changes nothing; a newly registered tool is disabled, and a tool that a
  session may still run cannot be removed.\<close>

theorem registry_is_guarded:
  "(tr_success (fst (tool_step eng te jl cfg (Some i) op d)) \<longrightarrow> i \<noteq> [] \<longrightarrow> i \<in> set (platform_admin_user_ids cfg)) \<and>
     ((\<not> tr_success (fst (tool_step eng te jl cfg uid op d))) \<longrightarrow> (snd (tool_step eng te jl cfg uid op d) = d)) \<and>
     ((register_tool eng te cfg name j who uid d = (accept m, d')) \<longrightarrow> ((\<exists>row. tool_of name d' = Some row \<and> \<not> td_enabled row) \<and> get_adapter eng name d' = Inl (UnknownToolErr name))) \<and>
     (s \<in> set (d_sessions d) \<longrightarrow> (s_tool s = name) \<longrightarrow> s_status s \<notin> {Failed, Orphaned} \<longrightarrow> (snd (remove_tool cfg name uid d) = d))"
proof -
  have c1: "(tr_success (fst (tool_step eng te jl cfg (Some i) op d)) \<longrightarrow> i \<noteq> [] \<longrightarrow> i \<in> set (platform_admin_user_ids cfg))"
    by ((rule impI)+, rule registry_is_guarded_parts(1), assumption+)
  have c2: "((\<not> tr_success (fst (tool_step eng te jl cfg uid op d))) \<longrightarrow> (snd (tool_step eng te jl cfg uid op d) = d))"
    by ((rule impI)+, rule registry_is_guarded_parts(2), assumption+)
  have c3: "((register_tool eng te cfg name j who uid d = (accept m, d')) \<longrightarrow> ((\<exists>row. tool_of name d' = Some row \<and> \<not> td_enabled row) \<and> get_adapter eng name d' = Inl (UnknownToolErr name)))"
    by ((rule impI)+, rule registry_is_guarded_parts(3), assumption+)
  have c4: "(s \<in> set (d_sessions d) \<longrightarrow> (s_tool s = name) \<longrightarrow> s_status s \<notin> {Failed, Orphaned} \<longrightarrow> (snd (remove_tool cfg name uid d) = d))"
    by ((rule impI)+, rule registry_is_guarded_parts(4), assumption+)
  show ?thesis
    by (rule conjI [OF c1 conjI [OF c2 conjI [OF c3 c4]]])
qed

definition sample_engine :: engine where
  "sample_engine = \<lparr>re_groups = (\<lambda>_. None), re_search = (\<lambda>_ _. None), json_object = (\<lambda>_. None),
     field_error = (\<lambda>_. [])\<rparr>"

definition sample_registry :: db where
  "sample_registry = empty_db\<lparr>d_tools := [\<lparr>td_name = u ''echo'', td_config = sample_config, td_enabled = True,
     td_created_by = None\<rparr>], d_sessions := [sample_owned\<lparr>s_tool := u ''echo''\<rparr>]\<rparr>"

lemma sample_config_valid: "validate_tool_config sample_engine sample_config (Some (u ''echo'')) = None"
  by code_simp

lemma sample_registry_ok: "registry_ok sample_engine sample_registry"
  using sample_config_valid by (simp add: registry_ok_def sample_registry_def)

definition sample_settings :: settings where
  "sample_settings = default_settings [] [] [] [] TrustedHost"

lemma sample_admins: "platform_admin_user_ids sample_settings = []"
  by code_simp

theorem registry_stays_valid_witness:
  "\<exists>row. get_adapter sample_engine (u ''echo'')
     (snd (disable_tool sample_settings (u ''echo'') (Some (u ''nobody'')) sample_registry)) = Inr row"
proof -
  let ?d = "snd (tool_step sample_engine (\<lambda>_. []) (\<lambda>_. None) sample_settings (Some (u ''nobody'')) (ToolDisable (u ''echo'')) sample_registry)"
  have d: "?d = sample_registry"
    by (rule tool_refused) (simp add: disable_tool_def set_enabled_def platform_authorized_def sample_admins)
  have "get_adapter sample_engine (u ''echo'') ?d =
      Inr \<lparr>td_name = u ''echo'', td_config = sample_config, td_enabled = True, td_created_by = None\<rparr>"
    by (rule registry_stays_valid [THEN conjunct2, THEN mp, THEN mp, OF sample_registry_ok,
          of _ "\<lambda>_. []" "\<lambda>_. None" sample_settings "[(Some (u ''nobody''), ToolDisable (u ''echo''))]"])
      (simp_all add: d del: tool_step.simps, simp_all add: sample_registry_def tool_of_def)
  then show ?thesis
    by simp
qed

theorem registry_is_guarded_witness:
  "snd (remove_tool sample_settings (u ''echo'') (Some (u ''root'')) sample_registry) = sample_registry"
  by (rule registry_is_guarded [THEN conjunct2, THEN conjunct2, THEN conjunct2, THEN mp, THEN mp, THEN mp, of "sample_owned\<lparr>s_tool := u ''echo''\<rparr>"])
    (simp_all add: sample_registry_def sample_owned_def)

end
