(* ===== verification/Typing_Tracker.thy ===== *)
theory Typing_Tracker
  imports Domain
begin

text \<open>
  \<open>bot/typing_tracker.py\<close> and \<open>bot/turn_tracking.py\<close>: the per-thread counter of unanswered messages behind the
  typing indicator, and the watcher that decrements it once per turn. Every method changes its
  dictionaries before it first suspends, so that a method is one step of the state below; a running task appears as the membership of its
  thread in \<open>tk_tasks\<close>, and its
  loop (\<open>bot/typing_indicator.py\<close>) is \<open>trigger_times\<close>.
\<close>

subsection \<open>The tracker\<close>

record tracker =
  tk_counts :: "pystr \<Rightarrow> int option"
  tk_tasks :: "pystr list"
  tk_timeouts :: "pystr list"

definition new_tracker :: tracker where
  "new_tracker = \<lparr>tk_counts = (\<lambda>_. None), tk_tasks = [], tk_timeouts = []\<rparr>"

definition typing_pending :: "pystr \<Rightarrow> tracker \<Rightarrow> int" where
  "typing_pending t k = (case tk_counts k t of None \<Rightarrow> 0 | Some n \<Rightarrow> n)"

definition is_running :: "pystr \<Rightarrow> tracker \<Rightarrow> bool" where
  "is_running t k \<longleftrightarrow> t \<in> set (tk_tasks k)"

definition note_user_message :: "pystr \<Rightarrow> tracker \<Rightarrow> tracker" where
  "note_user_message t k =
     (let k = k\<lparr>tk_counts := (tk_counts k)(t \<mapsto> typing_pending t k + 1)\<rparr>
      in if is_running t k then k
         else k\<lparr>tk_tasks := t # tk_tasks k, tk_timeouts := t # removeAll t (tk_timeouts k)\<rparr>)"

definition stop_typing :: "pystr \<Rightarrow> tracker \<Rightarrow> tracker" where
  "stop_typing t k =
     k\<lparr>tk_tasks := removeAll t (tk_tasks k), tk_counts := (tk_counts k)(t := None),
       tk_timeouts := removeAll t (tk_timeouts k)\<rparr>"

definition note_bot_message :: "pystr \<Rightarrow> tracker \<Rightarrow> tracker" where
  "note_bot_message t k =
     (if typing_pending t k \<le> 0 then k
      else (let k = k\<lparr>tk_counts := (tk_counts k)(t \<mapsto> typing_pending t k - 1)\<rparr>
            in if typing_pending t k = 0 then stop_typing t k else k))"

text \<open>The end of the sleep of a safety timeout that was not cancelled.\<close>

definition safety_timeout :: "pystr \<Rightarrow> tracker \<Rightarrow> tracker" where
  "safety_timeout t k = (if t \<in> set (tk_tasks k) then stop_typing t k else k)"

definition shutdown_typing :: "tracker \<Rightarrow> tracker" where
  "shutdown_typing k = fold stop_typing (tk_tasks k) k"

subsection \<open>The watcher of a turn\<close>

definition turn_ended :: "input_turn option \<Rightarrow> bool" where
  "turn_ended t = (case t of None \<Rightarrow> True | Some r \<Rightarrow> t_status r \<in> {Delivered, Uncertain, DeliveryFailed, Aborted})"

text \<open>
  One look at the turn every two seconds, within 360 seconds: \<open>seen i\<close> is the turn at the \<open>i\<close>-th look,
  \<open>Inl\<close> a failing query. The result is the number of looks; the decrement follows in every case.
\<close>

fun watch_turn :: "nat \<Rightarrow> (nat \<Rightarrow> exc + input_turn option) \<Rightarrow> nat \<Rightarrow> nat" where
  "watch_turn 0 seen i = i"
| "watch_turn (Suc n) seen i =
     (case seen i of
        Inl e \<Rightarrow> Suc i
      | Inr t \<Rightarrow> if turn_ended t then Suc i else watch_turn n seen (Suc i))"

definition wait_for_turn :: "(nat \<Rightarrow> exc + input_turn option) \<Rightarrow> pystr \<Rightarrow> tracker \<Rightarrow> nat \<times> tracker" where
  "wait_for_turn seen t k = (watch_turn 180 seen 0, note_bot_message t k)"

subsection \<open>Runs\<close>

datatype typing_event = UserMsg pystr | TurnOver pystr | SafetyTimeout pystr | TypingShutdown

fun typing_step :: "typing_event \<Rightarrow> tracker \<Rightarrow> tracker" where
  "typing_step (UserMsg t) k = note_user_message t k"
| "typing_step (TurnOver t) k = note_bot_message t k"
| "typing_step (SafetyTimeout t) k = safety_timeout t k"
| "typing_step TypingShutdown k = shutdown_typing k"

definition tracker_ok :: "tracker \<Rightarrow> bool" where
  "tracker_ok k \<longleftrightarrow> (\<forall>t. is_running t k \<longleftrightarrow> 0 < typing_pending t k) \<and> (\<forall>t. tk_counts k t = None \<or> 0 < typing_pending t k) \<and>
     set (tk_timeouts k) = set (tk_tasks k)"

lemmas typing_defs = note_user_message_def note_bot_message_def stop_typing_def safety_timeout_def typing_pending_def
  is_running_def

lemma pending_nonneg:
  assumes "tracker_ok k"
  shows "0 \<le> typing_pending t k"
proof -
  have "tk_counts k t = None \<or> 0 < typing_pending t k"
    using assms by (simp add: tracker_ok_def)
  then show ?thesis
    by (auto simp: typing_pending_def)
qed

lemma stop_pending [simp]: "typing_pending t (stop_typing t' k) = (if t = t' then 0 else typing_pending t k)"
  by (simp add: typing_defs)

lemma stop_running [simp]: "is_running t (stop_typing t' k) \<longleftrightarrow> t \<noteq> t' \<and> is_running t k"
  by (auto simp: typing_defs)

lemma stop_ok: "tracker_ok k \<Longrightarrow> tracker_ok (stop_typing t k)"
  by (auto simp: tracker_ok_def typing_defs split: if_splits option.splits)

lemma stops_ok: "tracker_ok k \<Longrightarrow> tracker_ok (fold stop_typing ts k)"
  by (induction ts arbitrary: k) (simp_all add: stop_ok)

lemma user_ok:
  assumes "tracker_ok k"
  shows "tracker_ok (note_user_message t k)"
proof -
  have "0 \<le> typing_pending t k"
    using assms by (rule pending_nonneg)
  then show ?thesis
    using assms by (auto simp: tracker_ok_def note_user_message_def Let_def typing_pending_def is_running_def split: option.splits)
qed

lemma bot_ok:
  assumes "tracker_ok k"
  shows "tracker_ok (note_bot_message t k)"
proof (cases "typing_pending t k = 1")
  case True
  have "note_bot_message t k = stop_typing t k"
    using True by (simp add: note_bot_message_def Let_def stop_typing_def typing_pending_def)
  then show ?thesis
    using stop_ok [OF assms] by simp
next
  case False
  then show ?thesis
    using assms by (auto simp: tracker_ok_def note_bot_message_def Let_def typing_pending_def is_running_def split: option.splits if_splits)
qed

lemma typing_step_ok: "tracker_ok k \<Longrightarrow> tracker_ok (typing_step e k)"
  by (cases e) (simp_all add: user_ok bot_ok stop_ok stops_ok safety_timeout_def shutdown_typing_def)

text \<open>The messages of a thread that no turn has answered yet.\<close>

fun unanswered :: "pystr \<Rightarrow> typing_event list \<Rightarrow> int" where
  "unanswered t [] = 0"
| "unanswered t (UserMsg t' # es) = unanswered t es + (if t' = t then 1 else 0)"
| "unanswered t (TurnOver t' # es) = unanswered t es - (if t' = t then 1 else 0)"
| "unanswered t (_ # es) = unanswered t es"

lemma unanswered_append: "unanswered t (es @ fs) = unanswered t es + unanswered t fs"
proof (induction es)
  case (Cons e es)
  then show ?case by (cases e) simp_all
qed simp

lemma pending_user: "typing_pending t (note_user_message t' k) = typing_pending t k + (if t = t' then 1 else 0)"
  by (auto simp: note_user_message_def Let_def typing_pending_def)

lemma pending_bot: "tracker_ok k \<Longrightarrow> typing_pending t (note_bot_message t' k) = (if t = t' then max 0 (typing_pending t k - 1) else typing_pending t k)"
  using pending_nonneg [of k t'] by (auto simp: note_bot_message_def Let_def typing_pending_def stop_typing_def)

lemma pending_stops: "tracker_ok k \<Longrightarrow> 0 \<le> typing_pending t (fold stop_typing ts k) \<and> typing_pending t (fold stop_typing ts k) \<le> typing_pending t k"
proof (induction ts arbitrary: k)
  case Nil
  then show ?case
    by (simp add: pending_nonneg)
next
  case (Cons a ts)
  have "0 \<le> typing_pending t k"
    using Cons.prems by (rule pending_nonneg)
  then show ?case
    using Cons.IH [OF stop_ok [OF Cons.prems, of a]] by (auto split: if_splits)
qed

lemma pending_step:
  assumes "tracker_ok k"
  shows "typing_pending t (typing_step e k) \<le> max 0 (typing_pending t k + unanswered t [e])"
proof (cases e)
  case (SafetyTimeout t')
  then show ?thesis
    by (auto simp: safety_timeout_def)
next
  case TypingShutdown
  then show ?thesis
    using pending_stops [OF assms, of t "tk_tasks k"] by (simp add: shutdown_typing_def)
qed (use assms in \<open>simp_all add: pending_user pending_bot\<close>)

definition run_typing :: "typing_event list \<Rightarrow> tracker" where
  "run_typing es = fold typing_step es new_tracker"

lemma run_typing_ok: "tracker_ok (run_typing es)"
proof -
  have "tracker_ok k \<Longrightarrow> tracker_ok (fold typing_step es k)" for k
    by (induction es arbitrary: k) (simp_all add: typing_step_ok)
  moreover have "tracker_ok new_tracker"
    by (simp add: tracker_ok_def new_tracker_def is_running_def typing_pending_def)
  ultimately show ?thesis
    by (simp add: run_typing_def)
qed

lemma run_typing_snoc [simp]: "run_typing (es @ [e]) = typing_step e (run_typing es)"
  by (simp add: run_typing_def)

lemma run_typing_Nil [simp]: "typing_pending t (run_typing []) = 0"
  by (simp add: run_typing_def new_tracker_def typing_pending_def)

text \<open>A run in which only turns end that were asked for.\<close>

definition balanced :: "pystr \<Rightarrow> typing_event list \<Rightarrow> bool" where
  "balanced t es \<longleftrightarrow> list_all (\<lambda>n. 0 \<le> unanswered t (take n es)) [0..<Suc (length es)]"

lemma balanced_snoc: "balanced t (es @ [e]) \<Longrightarrow> balanced t es \<and> 0 \<le> unanswered t (es @ [e])"
proof -
  assume b: "balanced t (es @ [e])"
  have "0 \<le> unanswered t (take n es)" if "n \<le> length es" for n
    using b that by (auto simp: balanced_def list_all_iff dest: bspec [of _ _ n])
  moreover have "0 \<le> unanswered t (take (length (es @ [e])) (es @ [e]))"
    using b by (simp only: balanced_def list_all_iff) auto
  moreover have "0 \<le> unanswered t (take (length es) es)"
    using calculation(1) by blast
  ultimately show ?thesis
    by (auto simp: balanced_def list_all_iff)
qed

lemma pending_run:
  "balanced t es \<Longrightarrow> typing_pending t (run_typing es) \<le> unanswered t es"
proof (induction es rule: rev_induct)
  case (snoc e es)
  have b: "balanced t es" "0 \<le> unanswered t (es @ [e])"
    using balanced_snoc [OF snoc.prems] by auto
  have "typing_pending t (run_typing (es @ [e])) \<le> max 0 (typing_pending t (run_typing es) + unanswered t [e])"
    using pending_step [OF run_typing_ok] by simp
  then show ?case
    using snoc.IH [OF b(1)] b(2) by (simp add: unanswered_append)
qed simp

lemma watch_turn_bound: "watch_turn n seen i \<le> i + n"
proof (induction n arbitrary: i)
  case (Suc n)
  then show ?case
    using Suc.IH [of "Suc i"] by (auto split: sum.split)
qed simp

lemma typing_indicator_correct_parts:
  shows "is_running t (run_typing es) \<longleftrightarrow> 0 < typing_pending t (run_typing es)"
    "balanced t es \<Longrightarrow> unanswered t es = 0 \<Longrightarrow> \<not> is_running t (run_typing es)"
    "fst (wait_for_turn seen t k) \<le> 180"
proof -
  show r: "is_running t (run_typing es) \<longleftrightarrow> 0 < typing_pending t (run_typing es)"
    using run_typing_ok by (simp add: tracker_ok_def)
  show "balanced t es \<Longrightarrow> unanswered t es = 0 \<Longrightarrow> \<not> is_running t (run_typing es)"
    using pending_run [of t es] r by simp
  show "fst (wait_for_turn seen t k) \<le> 180"
    using watch_turn_bound [of 180 seen 0] by (simp add: wait_for_turn_def)
qed

text \<open>C37. The typing indicator of a thread shows exactly while its counter of pending messages is positive, in every
  state the bot can reach; and it never outlives the work: after a run in which as many turns of the thread
  have ended as messages were accepted, whatever safety timeouts and other threads did meanwhile, it is off.
  A watcher looks at its turn 180 times at most before it counts the turn as over.\<close>

theorem typing_indicator_correct:
  "(is_running t (run_typing es) \<longleftrightarrow> 0 < typing_pending t (run_typing es)) \<and>
     (balanced t es \<longrightarrow> (unanswered t es = 0) \<longrightarrow> (\<not> is_running t (run_typing es))) \<and>
     (fst (wait_for_turn seen t k) \<le> 180)"
proof -
  have c1: "(is_running t (run_typing es) \<longleftrightarrow> 0 < typing_pending t (run_typing es))"
    by (rule typing_indicator_correct_parts(1))
  have c2: "(balanced t es \<longrightarrow> (unanswered t es = 0) \<longrightarrow> (\<not> is_running t (run_typing es)))"
    by ((rule impI)+, rule typing_indicator_correct_parts(2), assumption+)
  have c3: "(fst (wait_for_turn seen t k) \<le> 180)"
    by (rule typing_indicator_correct_parts(3))
  show ?thesis
    by (rule conjI [OF c1 conjI [OF c2 c3]])
qed

theorem typing_indicator_correct_witness:
  "\<not> is_running (u ''a'') (run_typing [UserMsg (u ''a''), UserMsg (u ''a''), UserMsg (u ''b''), TurnOver (u ''a''),
     TurnOver (u ''a'')])"
  by (rule typing_indicator_correct [THEN conjunct2, THEN conjunct1, THEN mp, THEN mp]) (simp_all add: balanced_def upt_rec)

subsection \<open>The task behind the indicator\<close>

text \<open>
  \<open>TypingIndicatorTask._run\<close> of \<open>bot/typing_indicator.py\<close>: the times at which \<open>trigger\<close> is called. \<open>now\<close> is the clock
  (in milliseconds), \<open>busy n\<close> how long the \<open>n\<close>-th call takes, \<open>late n\<close> how much later than asked the wait times out,
  \<open>stop\<close> the time at which \<open>stop()\<close> is called, if it is. The refresh interval is positive.
\<close>

definition stopped_by :: "int option \<Rightarrow> int \<Rightarrow> bool" where
  "stopped_by stop t \<longleftrightarrow> (case stop of None \<Rightarrow> False | Some s \<Rightarrow> s \<le> t)"

function trigger_times ::
  "int \<Rightarrow> int \<Rightarrow> (nat \<Rightarrow> int) \<Rightarrow> (nat \<Rightarrow> int) \<Rightarrow> int option \<Rightarrow> nat \<Rightarrow> int \<Rightarrow> int list" where
  "trigger_times refresh deadline busy late stop n now =
     (if refresh \<le> 0 \<or> deadline \<le> now \<or> stopped_by stop now then []
      else
        (let wait_until = now + max 0 (busy n) + refresh in
         now # (if stopped_by stop wait_until then []
                else trigger_times refresh deadline busy late stop (Suc n) (wait_until + max 0 (late n)))))"
  by pat_completeness auto
termination
  by (relation "measure (\<lambda>(refresh, deadline, busy, late, stop, n, now). nat (deadline - now))") auto

declare trigger_times.simps [simp del]

text \<open>The task calls Discord a bounded number of times, never after its deadline and never after it was stopped.\<close>

lemma trigger_times_within:
  "t \<in> set (trigger_times refresh deadline busy late stop n now) \<Longrightarrow> now \<le> t \<and> t < deadline \<and> \<not> stopped_by stop t"
proof (induction refresh deadline busy late stop n now rule: trigger_times.induct)
  case (1 refresh deadline busy late stop n now)
  show ?case
    using "1.prems" "1.IH" trigger_times.simps [of refresh deadline busy late stop n now]
    by (fastforce simp: Let_def split: if_splits)
qed

lemma trigger_times_bounded:
  "0 < refresh \<Longrightarrow> (int (length (trigger_times refresh deadline busy late stop n now)) - 1) * refresh < max 1 (deadline - now)"
proof (induction refresh deadline busy late stop n now rule: trigger_times.induct)
  case (1 refresh deadline busy late stop n now)
  define w where "w = now + max 0 (busy n) + refresh"
  define rest where "rest = trigger_times refresh deadline busy late stop (Suc n) (w + max 0 (late n))"
  note simp = trigger_times.simps [of refresh deadline busy late stop n now, unfolded Let_def, folded w_def, folded rest_def]
  show ?case
  proof (cases "deadline \<le> now \<or> stopped_by stop now \<or> stopped_by stop w \<or> rest = []")
    case True
    then show ?thesis
      using "1.prems" by (auto simp: simp)
  next
    case False
    then have ih: "(int (length rest) - 1) * refresh < max 1 (deadline - (w + max 0 (late n)))"
      using "1.IH" "1.prems" by (simp add: w_def rest_def)
    have "hd rest \<in> set rest"
      using False by simp
    then have "w + max 0 (late n) < deadline"
      using trigger_times_within unfolding rest_def by fastforce
    moreover have "now + refresh \<le> w"
      by (simp add: w_def)
    ultimately have "int (length rest) * refresh < deadline - now"
      using ih by (simp add: algebra_simps max_def split: if_splits)
    then show ?thesis
      using False "1.prems" by (simp add: simp)
  qed
qed

end
