(* ===== verification/Command_Sync.thy ===== *)
theory Command_Sync
  imports Setup_Service Config
begin

text \<open>
  \<open>bot/command_sync.py\<close> and \<open>setup_sync\<close> of \<open>bot/setup_service.py\<close>: which slash commands are registered in
  which scope. A command is its name; the tree of discord.py is the record \<open>cmd_tree\<close>. What Discord
  answers to a synchronisation is a parameter: the names it registered, or a failure.
\<close>

definition GLOBAL_COMMAND_NAMES :: "pystr list" where
  "GLOBAL_COMMAND_NAMES = map u [''session'', ''diff'', ''root'', ''start'', ''send'', ''stop'', ''help'', ''archive'',
     ''resume'', ''restart'', ''invite'']"

definition GUILD_COMMAND_NAMES :: "pystr list" where
  "GUILD_COMMAND_NAMES = map u [''setup'', ''tool'']"

record cmd_tree =
  ct_global :: "pystr list"
  ct_guild :: "int \<Rightarrow> pystr list"
  ct_admin :: "pystr list option"

record sync_report =
  global_added :: nat
  global_updated :: nat
  global_removed :: nat
  guild_added :: nat
  guild_updated :: nat
  guild_removed :: nat

definition empty_report :: sync_report where
  "empty_report = \<lparr>global_added = 0, global_updated = 0, global_removed = 0, guild_added = 0, guild_updated = 0,
     guild_removed = 0\<rparr>"

definition compute_delta :: "pystr list \<Rightarrow> pystr list \<Rightarrow> nat \<times> nat \<times> nat" where
  "compute_delta before_names after_names =
     (card (set after_names - set before_names), card (set after_names \<inter> set before_names),
      card (set before_names - set after_names))"

text \<open>\<open>tree.add_command(command, guild=..., override=True)\<close> and \<open>tree.remove_command(name)\<close>.\<close>

definition add_guild_command :: "int \<Rightarrow> pystr \<Rightarrow> cmd_tree \<Rightarrow> cmd_tree" where
  "add_guild_command g name t =
     t\<lparr>ct_guild := (ct_guild t)(g := (if name \<in> set (ct_guild t g) then ct_guild t g else ct_guild t g @ [name]))\<rparr>"

definition remove_command :: "pystr \<Rightarrow> cmd_tree \<Rightarrow> cmd_tree" where
  "remove_command name t = t\<lparr>ct_global := removeAll name (ct_global t)\<rparr>"

definition admin_commands :: "bool \<Rightarrow> cmd_tree \<Rightarrow> pystr list" where
  "admin_commands guild_only t =
     (case ct_admin t of
        Some cs \<Rightarrow> cs
      | None \<Rightarrow> filter (\<lambda>c. guild_only \<or> c \<in> set GUILD_COMMAND_NAMES) (ct_global t))"

definition move_command :: "int list \<Rightarrow> pystr \<Rightarrow> cmd_tree \<Rightarrow> cmd_tree" where
  "move_command guild_ids name t = fold (\<lambda>g t. add_guild_command g name t) guild_ids (remove_command name t)"

definition move_admin :: "bool \<Rightarrow> int list \<Rightarrow> cmd_tree \<Rightarrow> cmd_tree" where
  "move_admin guild_only guild_ids t =
     (let cs = admin_commands guild_only t
      in fold (move_command guild_ids) cs (t\<lparr>ct_admin := Some cs\<rparr>))"

fun sync_guilds ::
  "(int \<Rightarrow> pystr list \<Rightarrow> pystr list option) \<Rightarrow> cmd_tree \<Rightarrow> int list \<Rightarrow> sync_report \<Rightarrow> sync_report" where
  "sync_guilds sync_guild t [] r = r"
| "sync_guilds sync_guild t (g # gs) r =
     (let before_guild = ct_guild t g
      in case sync_guild g before_guild of
           None \<Rightarrow> sync_guilds sync_guild t gs r
         | Some after_guild \<Rightarrow>
             (let (ga, gu, gr) = compute_delta before_guild after_guild
              in sync_guilds sync_guild t gs
                   (r\<lparr>guild_added := guild_added r + ga, guild_updated := guild_updated r + gu,
                      guild_removed := guild_removed r + gr\<rparr>)))"

text \<open>A failing global synchronisation leaves the moved commands in the local tree.\<close>

definition reconcile_commands ::
  "(pystr list \<Rightarrow> pystr list result) \<Rightarrow> (int \<Rightarrow> pystr list \<Rightarrow> pystr list option) \<Rightarrow> bool \<Rightarrow> int list \<Rightarrow>
   cmd_tree \<Rightarrow> sync_report result \<times> cmd_tree" where
  "reconcile_commands sync_global sync_guild guild_only guild_ids t =
     (let t = move_admin guild_only guild_ids t;
          before_global = ct_global t
      in case sync_global before_global of
           Inl e \<Rightarrow> (Inl e, t)
         | Inr after_global \<Rightarrow>
             (let (a, up, rm) = compute_delta before_global after_global
              in (Inr (sync_guilds sync_guild t guild_ids
                    (empty_report\<lparr>global_added := a, global_updated := up, global_removed := rm\<rparr>)), t)))"

definition sync_joined_guild :: "(int \<Rightarrow> pystr list \<Rightarrow> pystr list option) \<Rightarrow> int \<Rightarrow> cmd_tree \<Rightarrow> unit result \<times> cmd_tree" where
  "sync_joined_guild sync_guild g t =
     (case ct_admin t of
        None \<Rightarrow> (Inr (), t)
      | Some cs \<Rightarrow>
          (let t = fold (\<lambda>c t. add_guild_command g c t) cs t
           in case sync_guild g (ct_guild t g) of
                None \<Rightarrow> (Inl (ExternalErr (u ''sync'')), t)
              | Some _ \<Rightarrow> (Inr (), t)))"

text \<open>
  \<open>setup_sync\<close> with a bot: the invoking guild first, without repetitions. The id is the text of a number,
  \<open>gid\<close>.
\<close>

definition dedupe :: "int list \<Rightarrow> int list" where
  "dedupe xs = rev (remdups (rev xs))"

definition setup_sync ::
  "(pystr list \<Rightarrow> pystr list result) \<Rightarrow> (int \<Rightarrow> pystr list \<Rightarrow> pystr list option) \<Rightarrow> settings \<Rightarrow> db \<Rightarrow> pystr \<Rightarrow> int \<Rightarrow>
   pystr list option \<Rightarrow> pystr list option \<Rightarrow> int list option \<Rightarrow> cmd_tree \<Rightarrow> sync_report option result \<times> cmd_tree" where
  "setup_sync sync_global sync_guild cfg d guild_id gid roles names extra t =
     (if \<not> is_guild_admin_authorized d guild_id (roles_or_empty roles) names then (Inr None, t)
      else
        (case reconcile_commands sync_global sync_guild (DISCORD_GUILD_COMMANDS_ONLY cfg)
                (dedupe (gid # (case extra of None \<Rightarrow> [] | Some gs \<Rightarrow> gs))) t of
           (Inl e, t) \<Rightarrow> (Inl e, t)
         | (Inr r, t) \<Rightarrow> (Inr (Some r), t)))"

subsection \<open>Where the commands end up\<close>

lemma fold_add_guild:
  "ct_global (fold (\<lambda>g t. add_guild_command g c t) gs t) = ct_global t"
  "ct_admin (fold (\<lambda>g t. add_guild_command g c t) gs t) = ct_admin t"
  "set (ct_guild (fold (\<lambda>g t. add_guild_command g c t) gs t) g) = set (ct_guild t g) \<union> (if g \<in> set gs then {c} else {})"
  by (induction gs arbitrary: t) (auto simp: add_guild_command_def)

lemma move_command_simps:
  "ct_global (move_command gs c t) = removeAll c (ct_global t)"
  "ct_admin (move_command gs c t) = ct_admin t"
  "set (ct_guild (move_command gs c t) g) = set (ct_guild t g) \<union> (if g \<in> set gs then {c} else {})"
  by (simp_all add: move_command_def fold_add_guild remove_command_def)

lemma move_commands_simps:
  "ct_global (fold (move_command gs) cs t) = filter (\<lambda>c. c \<notin> set cs) (ct_global t)"
  "ct_admin (fold (move_command gs) cs t) = ct_admin t"
  "set (ct_guild (fold (move_command gs) cs t) g) = set (ct_guild t g) \<union> (if g \<in> set gs then set cs else {})"
  by (induction cs arbitrary: t)
    (auto simp: move_command_simps removeAll_filter_not_eq conj_commute intro!: filter_cong)

lemma move_admin_simps:
  "ct_global (move_admin only gs t) = filter (\<lambda>c. c \<notin> set (admin_commands only t)) (ct_global t)"
  "ct_admin (move_admin only gs t) = Some (admin_commands only t)"
  "set (ct_guild (move_admin only gs t) g) = set (ct_guild t g) \<union> (if g \<in> set gs then set (admin_commands only t) else {})"
  by (simp_all add: move_admin_def Let_def move_commands_simps)

lemma move_command_present:
  assumes "\<And>g. g \<in> set gs \<Longrightarrow> c \<in> set (ct_guild t g)" "c \<notin> set (ct_global t)"
  shows "move_command gs c t = t"
proof -
  have r: "remove_command c t = t"
    using assms(2) by (simp add: remove_command_def)
  have a: "add_guild_command g c t = t" if "g \<in> set gs" for g
    using assms(1) [OF that] by (simp add: add_guild_command_def)
  then have "fold (\<lambda>g t. add_guild_command g c t) gs t = t"
    by (induction gs) auto
  then show ?thesis
    by (simp add: move_command_def r)
qed

lemma move_admin_idem: "move_admin only gs (move_admin only gs t) = move_admin only gs t"
proof -
  let ?t = "move_admin only gs t" and ?cs = "admin_commands only t"
  have "fold (move_command gs) cs ?t = ?t" if "set cs \<subseteq> set ?cs" for cs
    using that
  proof (induction cs)
    case (Cons c cs)
    have "move_command gs c ?t = ?t"
      using Cons.prems by (intro move_command_present) (auto simp: move_admin_simps)
    then show ?case
      using Cons by simp
  qed simp
  moreover have "admin_commands only ?t = ?cs" "?t\<lparr>ct_admin := Some ?cs\<rparr> = ?t"
    using move_admin_simps(2) [of only gs t] by (simp_all add: admin_commands_def [of only ?t])
  ultimately show ?thesis
    by (simp add: move_admin_def [of only gs ?t] Let_def)
qed

lemma reconcile_tree: "snd (reconcile_commands sg sgu only gs t) = move_admin only gs t"
  by (simp add: reconcile_commands_def Let_def split: sum.split prod.split)

lemma compute_delta_same: "set b = set a \<Longrightarrow> compute_delta b a = (0, card (set a), 0)"
  by (simp add: compute_delta_def)

lemma sync_guilds_faithful:
  assumes "\<And>g cs. sync_guild g cs = None \<or> (\<exists>after. sync_guild g cs = Some after \<and> set after = set cs)"
  shows "guild_added (sync_guilds sync_guild t gs r) = guild_added r \<and>
     guild_removed (sync_guilds sync_guild t gs r) = guild_removed r \<and>
     global_added (sync_guilds sync_guild t gs r) = global_added r \<and>
     global_removed (sync_guilds sync_guild t gs r) = global_removed r"
proof (induction gs arbitrary: r)
  case (Cons g gs)
  show ?case
    using Cons.IH assms [of g "ct_guild t g"] by (auto simp: Let_def compute_delta_same)
qed simp

lemma commands_are_scoped_parts:
  assumes "t' = snd (reconcile_commands sync_global sync_guild guild_only guild_ids t)"
  shows "c \<in> set (admin_commands guild_only t) \<Longrightarrow> c \<notin> set (ct_global t') \<and> (\<forall>g. g \<in> set guild_ids \<longrightarrow> c \<in> set (ct_guild t' g))"
    "c \<in> set (ct_global t) \<Longrightarrow> c \<notin> set (admin_commands guild_only t) \<Longrightarrow> c \<in> set (ct_global t')"
    "set (ct_guild t g) \<subseteq> set (ct_guild t' g)"
    "snd (reconcile_commands sync_global' sync_guild' guild_only guild_ids t') = t'"
  unfolding assms reconcile_tree by (auto simp: move_admin_simps move_admin_idem)

text \<open>Reconciliation moves the administration commands out of the global scope into every listed guild and loses
  none: whatever Discord answers, afterwards no administration command is global, each is in every listed
  guild, every other global command stays, no guild loses a command; and reconciling again for the same guilds
  changes nothing.\<close>

theorem commands_are_scoped:
  assumes "t' = snd (reconcile_commands sync_global sync_guild guild_only guild_ids t)"
  shows "(c \<in> set (admin_commands guild_only t) \<longrightarrow> (c \<notin> set (ct_global t') \<and> (\<forall>g. g \<in> set guild_ids \<longrightarrow> c \<in> set (ct_guild t' g)))) \<and>
     (c \<in> set (ct_global t) \<longrightarrow> c \<notin> set (admin_commands guild_only t) \<longrightarrow> c \<in> set (ct_global t')) \<and>
     (set (ct_guild t g) \<subseteq> set (ct_guild t' g)) \<and>
     (snd (reconcile_commands sync_global' sync_guild' guild_only guild_ids t') = t')"
proof -
  have c1: "(c \<in> set (admin_commands guild_only t) \<longrightarrow> (c \<notin> set (ct_global t') \<and> (\<forall>g. g \<in> set guild_ids \<longrightarrow> c \<in> set (ct_guild t' g))))"
    by ((rule impI)+, rule commands_are_scoped_parts(1) [OF assms], assumption+)
  have c2: "(c \<in> set (ct_global t) \<longrightarrow> c \<notin> set (admin_commands guild_only t) \<longrightarrow> c \<in> set (ct_global t'))"
    by ((rule impI)+, rule commands_are_scoped_parts(2) [OF assms], assumption+)
  have c3: "(set (ct_guild t g) \<subseteq> set (ct_guild t' g))"
    by (rule commands_are_scoped_parts(3) [OF assms])
  have c4: "(snd (reconcile_commands sync_global' sync_guild' guild_only guild_ids t') = t')"
    by (rule commands_are_scoped_parts(4) [OF assms])
  show ?thesis
    by (rule conjI [OF c1 conjI [OF c2 conjI [OF c3 c4]]])
qed

theorem commands_are_scoped_witness:
  "\<exists>t' :: cmd_tree. u ''setup'' \<notin> set (ct_global t') \<and> u ''setup'' \<in> set (ct_guild t' 7) \<and> u ''stop'' \<in> set (ct_global t')"
proof -
  let ?t = "\<lparr>ct_global = [u ''setup'', u ''stop''], ct_guild = (\<lambda>_. []), ct_admin = None\<rparr>"
  let ?t' = "snd (reconcile_commands Inr (\<lambda>_. Some) False [7] ?t)"
  have a: "admin_commands False ?t = [u ''setup'']"
    by (simp add: admin_commands_def GUILD_COMMAND_NAMES_def)
  have s: "u ''setup'' \<notin> set (ct_global ?t') \<and> (\<forall>g. g \<in> set [7] \<longrightarrow> u ''setup'' \<in> set (ct_guild ?t' g))"
    by (rule commands_are_scoped [THEN conjunct1, THEN mp, OF refl]) (simp add: a)
  have "u ''stop'' \<in> set (ct_global ?t')"
    by (rule commands_are_scoped [THEN conjunct2, THEN conjunct1, THEN mp, THEN mp, OF refl]) (simp_all add: a)
  with s show ?thesis
    by (intro exI [of _ ?t']) auto
qed

text \<open>
  The report compares the local tree after the move with Discord's answer: when Discord registers what it
  is sent, the report never counts a command as added or removed, whatever the reconciliation changed.
\<close>

lemma report_is_blind:
  assumes "sync_global = Inr" "sync_guild = (\<lambda>_. Some)"
    "reconcile_commands sync_global sync_guild guild_only guild_ids t = (Inr r, t')"
  shows "global_added r = 0 \<and> global_removed r = 0 \<and> guild_added r = 0 \<and> guild_removed r = 0"
proof -
  have "\<exists>up. r = sync_guilds sync_guild t' guild_ids (empty_report\<lparr>global_added := 0, global_updated := up, global_removed := 0\<rparr>)"
    using assms by (auto simp: reconcile_commands_def Let_def compute_delta_same)
  then show ?thesis
    using sync_guilds_faithful [of sync_guild t' guild_ids] assms(2) by (auto simp: empty_report_def)
qed

end
