(* ===== verification/Bot_Reads.thy ===== *)
theory Bot_Reads
  imports Setup_Service Session_Service Redaction
begin

text \<open>
  The small modules of the bot: \<open>bot/commands/session_reads.py\<close> (listing sessions), \<open>bot/commands/root.py\<close>
  (accessors of \<open>allowed_roots\<close> that no command uses), \<open>bot/diff_service.py\<close> (the client of the runner's diff
  preview) and \<open>bot/interaction_response.py\<close> (texts sent in bounded, redacted pieces). The HTTP library is
  a parameter.
\<close>

subsection \<open>Listing sessions\<close>

definition member_sessions :: "pystr \<Rightarrow> pystr \<Rightarrow> bool \<Rightarrow> db \<Rightarrow> session list" where
  "member_sessions guild user include_all d =
     order_by (\<lambda>s. - s_created_at s)
       (sel (\<lambda>s. s_guild s = Some guild \<and> (include_all \<or> is_member_row d (s_id s) user)) (d_sessions d))"

definition get_sessions_for_user :: "pystr \<Rightarrow> pystr \<Rightarrow> bool \<Rightarrow> int \<Rightarrow> int \<Rightarrow> db \<Rightarrow> session list" where
  "get_sessions_for_user guild user include_all page page_size d =
     (let page = max 1 page; page_size = min 25 (max 1 page_size)
      in take (nat page_size) (drop (nat ((page - 1) * page_size)) (member_sessions guild user include_all d)))"

definition get_last_session :: "pystr \<Rightarrow> pystr \<Rightarrow> db \<Rightarrow> session option" where
  "get_last_session guild user d =
     (case member_sessions guild user False d of [] \<Rightarrow> None | s # _ \<Rightarrow> Some s)"

text \<open>The pages of a listing, one after the other, are the listing.\<close>

lemma pages_cover:
  assumes "0 < k"
  shows "concat (map (\<lambda>i. take k (drop (i * k) xs)) [0..<n]) = take (n * k) xs"
proof (induction n)
  case (Suc n)
  then show ?case
    using take_add [of "n * k" k xs] by (simp add: add.commute)
qed simp

lemma sessions_pages_cover:
  "concat (map (\<lambda>i. get_sessions_for_user guild user a (int i + 1) 10 d) [0..<n]) =
     take (n * 10) (member_sessions guild user a d)"
proof -
  have "get_sessions_for_user guild user a (int i + 1) 10 d = take 10 (drop (i * 10) (member_sessions guild user a d))" for i
    by (simp add: get_sessions_for_user_def Let_def nat_mult_distrib)
  then show ?thesis
    using pages_cover [of 10 "member_sessions guild user a d" n] by simp
qed

subsection \<open>Allowed roots\<close>

text \<open>\<open>add_root\<close> reports any violated constraint as a duplicate.\<close>

definition add_root :: "pystr \<Rightarrow> pystr \<Rightarrow> pystr \<Rightarrow> pystr \<Rightarrow> pystr \<Rightarrow> pystr \<Rightarrow> db \<Rightarrow> unit result \<times> db" where
  "add_root guild user host path realpath created_by d =
     (let row = \<lparr>r_guild = Some guild, r_user = user, r_host = host, r_path = path, r_realpath = realpath,
                  r_created_by = created_by\<rparr>
      in if \<not> prefix [slash] realpath \<or> get root_id (root_id row) (d_roots d) \<noteq> None \<or> \<not> guild_known d guild then
           (Inl (ValueErr (u ''Duplicate allowed root: '' @ py_repr realpath)), d)
         else (Inr (), d\<lparr>d_roots := d_roots d @ [row]\<rparr>))"

definition remove_root :: "pystr \<Rightarrow> pystr \<Rightarrow> pystr \<Rightarrow> db \<Rightarrow> bool \<times> db" where
  "remove_root guild host realpath d =
     (let p = (\<lambda>r. r_guild r = Some guild \<and> r_host r = host \<and> r_realpath r = realpath)
      in (0 < length (sel p (d_roots d)), d\<lparr>d_roots := del p (d_roots d)\<rparr>))"

definition list_roots :: "pystr \<Rightarrow> db \<Rightarrow> allowed_root list" where
  "list_roots guild d = sel (\<lambda>r. r_guild r = Some guild) (d_roots d)"

lemma remove_root_gone: "r \<in> set (list_roots guild (snd (remove_root guild host realpath d))) \<longleftrightarrow>
   r \<in> set (list_roots guild d) \<and> \<not> (r_host r = host \<and> r_realpath r = realpath)"
  by (auto simp: list_roots_def remove_root_def Let_def sel_def del_def)

subsection \<open>The client of the diff preview\<close>

definition runner_control_base_url :: "settings \<Rightarrow> pystr" where
  "runner_control_base_url cfg =
     (let bind = py_strip (RUNNER_CONTROL_BIND cfg)
      in if prefix (u ''http://'') bind \<or> prefix (u ''https://'') bind then rstrip_by (\<lambda>c. c = slash) bind
         else u ''http://'' @ bind)"

definition runner_control_auth_headers :: "settings \<Rightarrow> (pystr \<times> pystr) list" where
  "runner_control_auth_headers cfg =
     (if RUNNER_CONTROL_AUTH cfg \<noteq> [] then [(u ''Authorization'', u ''Bearer '' @ RUNNER_CONTROL_AUTH cfg)] else [])"

text \<open>
  The answer: a transport error with its text; a status other than 200 with the detail of a JSON object, if
  any, and the body; a body that is not JSON, JSON that is no object, or the two fields, absent when of
  another type.
\<close>

datatype diff_answer = DiffHttpError pystr | DiffStatus int "pystr option" pystr | DiffNotJson | DiffNotObject
  | DiffBody "pystr option" "bool option"

record diff_result =
  dp_patch :: pystr
  dp_truncated :: bool

definition fetch_diff_preview :: "(pystr \<Rightarrow> pystr) \<Rightarrow> diff_answer \<Rightarrow> diff_result result" where
  "fetch_diff_preview redact a =
     (case a of
        DiffHttpError m \<Rightarrow> Inl (ValueErr (u ''Failed to fetch diff preview: '' @ m))
      | DiffStatus status detail body \<Rightarrow>
          (let m = (if opt_str detail \<noteq> [] then opt_str detail else if body \<noteq> [] then body
                    else u ''HTTP '' @ int_str status)
           in Inl (ValueErr (u ''Failed to fetch diff preview: '' @ take 300 (redact m))))
      | DiffNotJson \<Rightarrow> Inl (ValueErr (u ''Failed to fetch diff preview: invalid response payload''))
      | DiffNotObject \<Rightarrow> Inl (ValueErr (u ''Invalid diff response''))
      | DiffBody (Some patch) (Some truncated) \<Rightarrow> Inr \<lparr>dp_patch = patch, dp_truncated = truncated\<rparr>
      | DiffBody _ _ \<Rightarrow> Inl (ValueErr (u ''Failed to fetch diff preview: invalid response payload'')))"

lemma fetch_diff_error: "fetch_diff_preview redact a = Inl e \<Longrightarrow> is_value_error e"
  by (auto simp: fetch_diff_preview_def Let_def split: diff_answer.splits option.splits)

subsection \<open>Bounded responses\<close>

definition deferred_pieces :: "pystr \<Rightarrow> pystr list" where
  "deferred_pieces body =
     map (\<lambda>i. let c = take 1900 (drop (i * 1900) body) in if c = [] then u ''No results.'' else c)
       [0..<(max 1 (length body) + 1899) div 1900]"

definition send_deferred_text :: "(pystr \<Rightarrow> pystr) \<Rightarrow> pystr \<Rightarrow> pystr list" where
  "send_deferred_text redact body = deferred_pieces (redact body)"

lemma deferred_pieces_ok:
  assumes "body \<noteq> []"
  shows "concat (deferred_pieces body) = body"
proof -
  let ?n = "(length body + 1899) div 1900"
  have n: "max 1 (length body) = length body"
    using assms by (cases body) auto
  have ne: "take 1900 (drop (i * 1900) body) \<noteq> []" if "i < ?n" for i
    using that assms by auto
  have "deferred_pieces body = map (\<lambda>i. take 1900 (drop (i * 1900) body)) [0..<?n]"
    unfolding deferred_pieces_def n by (rule map_cong [OF refl]) (simp add: Let_def ne)
  then have "concat (deferred_pieces body) = take (?n * 1900) body"
    using pages_cover [of 1900 body ?n] by simp
  moreover have "length body \<le> ?n * 1900"
    by linarith
  ultimately show ?thesis
    by simp
qed

lemma deferred_pieces_bound: "p \<in> set (deferred_pieces body) \<Longrightarrow> p \<noteq> [] \<and> length p \<le> 1900"
  by (auto simp: deferred_pieces_def Let_def)

end
