(* ===== verification/Bot_Commands.thy ===== *)
theory Bot_Commands
  imports Bot_Reads Tool_Service Command_Sync Typing_Tracker Bot_Sagas Session_Config
begin

text \<open>
  \<open>bot/main.py\<close> and \<open>bot/tool_commands.py\<close>: the handlers of the slash commands. A handler maps an
  interaction and the database to the texts it sends and the database it leaves; an exception that leaves a
  handler is an \<open>Inl\<close>, which \<open>on_app_command_error\<close> turns into one generic text. The transactions of a
  handler run without interference. What the bot gets from elsewhere (the clock, fresh keys, the file system,
  the runner's answers, Discord, the JSON parser, Fernet) are the fields of \<open>bot_env\<close>.
\<close>

subsection \<open>Interactions\<close>

record interaction =
  i_guild :: "pystr option"
  i_guild_id :: "pystr option"
  i_channel :: pystr
  i_user :: pystr
  i_user_name :: pystr
  i_roles :: "pystr list"
  i_role_names :: "pystr list"
  i_manage_guild :: bool

datatype thread_answer = ThreadCreated pystr | ThreadRefused

record bot_env =
  be_cfg :: settings
  be_now :: int
  be_key :: "nat \<Rightarrow> pystr"
  be_sid :: uuid
  be_secret_hash :: pystr
  be_ciphertext :: pystr
  be_quotas :: input_quotas
  be_realpath :: "pystr \<Rightarrow> pystr"
  be_netloc_ok :: "pystr \<Rightarrow> bool"
  be_word :: "nat \<Rightarrow> bool"
  be_encrypt :: "pystr \<Rightarrow> pystr option"
  be_engine :: engine
  be_type_error :: "jdoc \<Rightarrow> pystr"
  be_json :: "pystr \<Rightarrow> pystr + jdoc"
  be_canon :: "pystr \<Rightarrow> canon_reply"
  be_text_channel :: "pystr \<Rightarrow> bool"
  be_thread :: thread_answer
  be_diff :: diff_answer

type_synonym reply = "pystr list result"

definition be_redact :: "bot_env \<Rightarrow> pystr \<Rightarrow> pystr" where
  "be_redact env m = apply_common_redaction (be_word env) (be_netloc_ok env) (Some (be_cfg env)) m"

text \<open>\<open>json.loads\<close> where only failure or success counts.\<close>

definition be_loads :: "bot_env \<Rightarrow> pystr \<Rightarrow> jdoc option" where
  "be_loads env s = (case be_json env s of Inl _ \<Rightarrow> None | Inr j \<Rightarrow> Some j)"

text \<open>\<open>str\<close> of an exception that is a \<open>ValueError\<close>.\<close>

fun exc_text :: "exc \<Rightarrow> pystr" where
  "exc_text (ValueErr m) = m"
| "exc_text (ExecutionDenied m) = m"
| "exc_text _ = []"

definition say :: "pystr \<Rightarrow> db \<Rightarrow> reply \<times> db" where
  "say m d = (Inr [m], d)"

definition is_admin :: "interaction \<Rightarrow> pystr \<Rightarrow> db \<Rightarrow> bool" where
  "is_admin i g d = is_guild_admin_authorized d g (i_roles i) (Some (i_role_names i))"

definition NEEDS_SERVER :: pystr where
  "NEEDS_SERVER = u ''This command must be used inside a server.''"

definition RUN_IN_SERVER :: pystr where
  "RUN_IN_SERVER = u ''Run this in a server.''"

definition arrow :: pystr where "arrow = u '' '' @ 8594 # u '' ''"

subsection \<open>Setup\<close>

definition map_set :: "interaction \<Rightarrow> pystr \<Rightarrow> pystr \<Rightarrow> db \<Rightarrow> reply \<times> db" where
  "map_set i tool channel d =
     (case i_guild i of
        None \<Rightarrow> say NEEDS_SERVER d
      | Some g \<Rightarrow>
          (case setup_map_set g tool channel (i_user i) (Some (i_roles i)) (Some (i_role_names i)) d of
             (Inl e, d') \<Rightarrow> (Inl e, d')
           | (Inr r, d') \<Rightarrow> say (ms_message r) d'))"

definition map_list :: "bot_env \<Rightarrow> interaction \<Rightarrow> db \<Rightarrow> reply \<times> db" where
  "map_list env i d =
     (case i_guild i of
        None \<Rightarrow> say NEEDS_SERVER d
      | Some g \<Rightarrow>
          (case setup_map_list g d of
             [] \<Rightarrow> say (u ''No tool'' @ 8594 # u ''channel mappings configured.'') d
           | ms \<Rightarrow>
               (Inr (send_deferred_text (be_redact env)
                  (join_with nl (map (\<lambda>m. 8226 # space # code_span (c_tool m) @ arrow @ u ''<#'' @ c_channel m @ u ''>'') ms))),
                d)))"

definition map_remove :: "interaction \<Rightarrow> pystr \<Rightarrow> db \<Rightarrow> reply \<times> db" where
  "map_remove i tool d =
     (case i_guild i of
        None \<Rightarrow> say NEEDS_SERVER d
      | Some g \<Rightarrow>
          (let (r, d') = setup_map_remove g tool (Some (i_roles i)) (Some (i_role_names i)) d
           in say (mr_message r) d'))"

definition admin_role_set :: "interaction \<Rightarrow> pystr \<Rightarrow> pystr \<Rightarrow> db \<Rightarrow> reply \<times> db" where
  "admin_role_set i role_id role_name d =
     (case i_guild i of
        None \<Rightarrow> say NEEDS_SERVER d
      | Some g \<Rightarrow>
          if \<not> i_manage_guild i \<and> \<not> is_admin i g d then
            say (u ''You need the 'Manage Server' Discord permission or the configured admin role to set the admin role.'') d
          else
            (let (r, d') = setup_admin_role_set g (Some role_id) (Some role_name) (i_user i) (Some (i_roles i))
                   (Some (i_role_names i)) True d
             in say (rs_message r) d'))"

definition admin_role_list :: "interaction \<Rightarrow> db \<Rightarrow> reply \<times> db" where
  "admin_role_list i d =
     (case i_guild i of
        None \<Rightarrow> say NEEDS_SERVER d
      | Some g \<Rightarrow>
          (case setup_admin_role_list g d of
             (Some r, _) \<Rightarrow> say (u ''Admin role: <@&'' @ r @ u ''>'') d
           | (None, Some n) \<Rightarrow> say (u ''Admin role (name fallback): '' @ code_span n) d
           | (None, None) \<Rightarrow>
               say (u ''No admin role configured. Only members with the 'Manage Server' permission can run `/setup init` and `/setup admin-role set`; other admin commands are denied until a role is set.'') d))"

definition init_guild :: "interaction \<Rightarrow> db \<Rightarrow> reply \<times> db" where
  "init_guild i d =
     (case i_guild i of
        None \<Rightarrow> say NEEDS_SERVER d
      | Some g \<Rightarrow>
          if \<not> i_manage_guild i \<and> \<not> is_admin i g d then
            say (u ''You need the 'Manage Server' Discord permission or the configured admin role to run /setup init.'') d
          else (let (r, d') = setup_init g (i_user i) d in say (in_message r) d'))"

subsection \<open>Roots and aliases\<close>

definition root_add :: "bot_env \<Rightarrow> interaction \<Rightarrow> pystr \<Rightarrow> pystr option \<Rightarrow> db \<Rightarrow> reply \<times> db" where
  "root_add env i path alias d =
     (case i_guild_id i of
        None \<Rightarrow> say RUN_IN_SERVER d
      | Some g \<Rightarrow>
          (case alias of
             Some a \<Rightarrow>
               if \<not> is_admin i g d then say (u ''Only the guild's Discode admins can register aliases.'') d
               else
                 (case set_path_alias (be_realpath env) g a path (RUNNER_HOST_ID (be_cfg env)) (i_user i) d of
                    (Inl e, d') \<Rightarrow> if is_value_error e then say (u ''Failed to register: '' @ exc_text e) d' else (Inl e, d')
                  | (Inr (al, real), d') \<Rightarrow>
                      say (u ''Allowed root added: '' @ code_span real @ u '' (alias '' @ code_span al @ u '' registered for the guild).'') d')
           | None \<Rightarrow>
               if \<not> can_operate_sessions (be_cfg env) d g (i_user i) (i_roles i) (Some (i_role_names i)) then
                 say (u ''Only the guild's Discode admins can allow project roots.'') d
               else
                 (case add_allowed_root_for_user (be_realpath env) g (i_user i) (RUNNER_HOST_ID (be_cfg env)) path (i_user i) d of
                    (Inl e, d') \<Rightarrow> if is_value_error e then say (u ''Failed to add root: '' @ exc_text e) d' else (Inl e, d')
                  | (Inr real, d') \<Rightarrow> say (u ''Allowed root added: '' @ code_span real) d')))"

definition alias_set :: "bot_env \<Rightarrow> interaction \<Rightarrow> pystr \<Rightarrow> pystr \<Rightarrow> db \<Rightarrow> reply \<times> db" where
  "alias_set env i alias path d =
     (case i_guild_id i of
        None \<Rightarrow> say RUN_IN_SERVER d
      | Some g \<Rightarrow>
          if \<not> is_admin i g d then say (u ''Only the guild's Discode admins can set aliases.'') d
          else
            (case set_path_alias (be_realpath env) g alias path (RUNNER_HOST_ID (be_cfg env)) (i_user i) d of
               (Inl e, d') \<Rightarrow> if is_value_error e then say (u ''Could not set alias: '' @ exc_text e) d' else (Inl e, d')
             | (Inr (al, real), d') \<Rightarrow>
                 say (u ''Alias '' @ code_span al @ arrow @ code_span real @ u '' registered for this guild.'') d'))"

definition alias_list :: "bot_env \<Rightarrow> interaction \<Rightarrow> db \<Rightarrow> reply \<times> db" where
  "alias_list env i d =
     (case i_guild_id i of
        None \<Rightarrow> say RUN_IN_SERVER d
      | Some g \<Rightarrow>
          (case list_path_aliases g d of
             [] \<Rightarrow> say (u ''No aliases configured. Ask an admin to run `/root alias set <name> <path>`.'') d
           | rows \<Rightarrow>
               (Inr (send_deferred_text (be_redact env)
                  (join_with nl (map (\<lambda>r. code_span (a_alias r) @ arrow @ code_span (a_realpath r)) rows))), d)))"

definition alias_remove :: "interaction \<Rightarrow> pystr \<Rightarrow> db \<Rightarrow> reply \<times> db" where
  "alias_remove i alias d =
     (case i_guild_id i of
        None \<Rightarrow> say RUN_IN_SERVER d
      | Some g \<Rightarrow>
          if \<not> is_admin i g d then say (u ''Only the guild's Discode admins can remove aliases.'') d
          else
            (let (removed, d') = remove_path_alias g alias d
             in say ((if removed then u ''Alias '' else u ''No such alias '') @ code_span alias @
                   (if removed then u '' removed.'' else u ''.'')) d'))"

subsection \<open>Sessions\<close>

definition NO_SESSION :: pystr where
  "NO_SESSION = u ''No matching session found. Provide a session id/name or start a session first.''"

definition target_of :: "interaction \<Rightarrow> pystr \<Rightarrow> pystr option \<Rightarrow> db \<Rightarrow> session option" where
  "target_of i g ref d =
     resolve_session_target g (i_user i) ref (Some (i_channel i)) (i_roles i) (Some (i_role_names i)) d"

definition owner_or_admin :: "interaction \<Rightarrow> pystr \<Rightarrow> session \<Rightarrow> db \<Rightarrow> bool" where
  "owner_or_admin i g s d = is_session_owner_or_admin (s_id s) g (i_user i) (i_roles i) (Some (i_role_names i)) d"

definition session_list :: "interaction \<Rightarrow> int \<Rightarrow> db \<Rightarrow> reply \<times> db" where
  "session_list i page d =
     (case i_guild_id i of
        None \<Rightarrow> say RUN_IN_SERVER d
      | Some g \<Rightarrow>
          (case get_sessions_for_user g (i_user i) False page 10 d of
             [] \<Rightarrow> say (u ''No sessions found.'') d
           | rows \<Rightarrow>
               say (join_with nl (map (\<lambda>s. code_span (take 100 (s_name s)) @ u '' ['' @ status_str (s_status s) @ u ''] '' @
                       code_span (uuid_str (s_id s))) (take 10 rows)) @
                    nl # u ''Page '' @ int_str page @ u ''. Use /session list page:'' @ int_str (page + 1) @ u '' for more.'') d))"

text \<open>
  The part the handlers of archive, resume, restart and stop have in common: the guild, the target, the
  permission; \<open>verb\<close> is the word in the refusal.
\<close>

definition owner_command ::
  "interaction \<Rightarrow> pystr option \<Rightarrow> string \<Rightarrow> (pystr \<Rightarrow> session \<Rightarrow> reply \<times> db) \<Rightarrow> db \<Rightarrow> reply \<times> db" where
  "owner_command i ref verb act d =
     (case i_guild_id i of
        None \<Rightarrow> say RUN_IN_SERVER d
      | Some g \<Rightarrow>
          (case target_of i g ref d of
             None \<Rightarrow> say NO_SESSION d
           | Some s \<Rightarrow>
               if \<not> owner_or_admin i g s d then
                 say (u ''Only the session owner or a guild admin can '' @ u verb @ u '' this session.'') d
               else act g s))"

definition archive_command :: "bot_env \<Rightarrow> interaction \<Rightarrow> pystr option \<Rightarrow> db \<Rightarrow> reply \<times> db" where
  "archive_command env i ref d =
     owner_command i ref ''archive''
       (\<lambda>g s. let (ok, d') = run_archive_saga (be_now env) (be_key env 0) (be_key env 1) (be_key env 2) (s_id s) g d
              in say (u (if ok then ''Archive requested.'' else ''Session cannot be archived.'')) d') d"

definition resume_command :: "bot_env \<Rightarrow> interaction \<Rightarrow> pystr option \<Rightarrow> db \<Rightarrow> reply \<times> db" where
  "resume_command env i ref d =
     owner_command i ref ''resume''
       (\<lambda>g s. let (ok, d') = run_resume_saga (be_now env) (be_key env 0) (be_key env 1) (s_id s) g (Some (opt_str (s_host s))) d
              in say (u (if ok then ''Resume requested.'' else ''Session cannot be resumed.'')) d') d"

definition restart_command :: "bot_env \<Rightarrow> interaction \<Rightarrow> pystr option \<Rightarrow> db \<Rightarrow> reply \<times> db" where
  "restart_command env i ref d =
     owner_command i ref ''restart''
       (\<lambda>g s. case run_restart_saga (be_now env) (be_key env 0) (be_key env 1) (s_id s) g (i_user i) d of
                (Inl e, d') \<Rightarrow>
                  if is_value_error e then say (u ''Failed to restart session: '' @ exc_text e) d' else (Inl e, d')
              | (Inr sid, d') \<Rightarrow> say (u ''Restart queued as '' @ code_span (uuid_str sid) @ u ''.'') d') d"

definition stop_command :: "bot_env \<Rightarrow> interaction \<Rightarrow> pystr option \<Rightarrow> db \<Rightarrow> reply \<times> db" where
  "stop_command env i ref d =
     owner_command i ref ''stop''
       (\<lambda>g s. let (ok, d') = run_stop_saga (be_now env) (be_key env 0) (be_key env 1) (s_id s) g (i_user i)
                     (Some (opt_str (s_host s))) d
              in say (u (if ok then ''Stop requested.'' else ''Session is not stoppable.'')) d') d"

definition invite_command :: "bot_env \<Rightarrow> interaction \<Rightarrow> pystr \<Rightarrow> pystr \<Rightarrow> pystr option \<Rightarrow> db \<Rightarrow> reply \<times> db" where
  "invite_command env i invitee invitee_name ref d =
     (case i_guild_id i of
        None \<Rightarrow> say RUN_IN_SERVER d
      | Some g \<Rightarrow>
          (case target_of i g ref d of
             None \<Rightarrow> say NO_SESSION d
           | Some s \<Rightarrow>
               (let is_owner = (case session_of (s_id s) d of None \<Rightarrow> False | Some r \<Rightarrow> s_owner r = Some (i_user i))
                in if \<not> is_owner \<and> \<not> is_admin i g d then
                     say (u ''Only the session owner or a guild admin can invite members.'') d
                   else
                     (let (ok, d') = invite_user_to_session (be_now env) (be_key env 0) (s_id s) g invitee invitee_name d
                      in say (if ok then u ''<@'' @ invitee @ u ''> invited.'' else u ''Invite failed.'') d'))))"

text \<open>
  \<open>/send\<close>. The tracker counts the message only after it was queued; the second component tells the thread
  whose indicator starts.
\<close>

definition send_command ::
  "bot_env \<Rightarrow> interaction \<Rightarrow> pystr \<Rightarrow> pystr option \<Rightarrow> db \<times> tracker \<Rightarrow> reply \<times> db \<times> tracker" where
  "send_command env i body ref st =
     (let (d, k) = st in
      case i_guild_id i of
        None \<Rightarrow> (Inr [RUN_IN_SERVER], d, k)
      | Some g \<Rightarrow>
          let content = py_strip body
          in if content = [] then (Inr [u ''Text is required.''], d, k)
             else
               (case target_of i g ref d of
                  None \<Rightarrow> (Inr [NO_SESSION], d, k)
                | Some s \<Rightarrow>
                    if \<not> is_session_member (s_id s) (i_user i) d \<and> \<not> is_admin i g d then
                      (Inr [u ''Only session members or guild admins can /send into a session.''], d, k)
                    else
                      (case run_input_saga (be_cfg env) (be_quotas env) (be_now env) (be_key env 0)
                              \<lparr>ia_session = s_id s, ia_guild = g, ia_owner = opt_str (s_owner s),
                               ia_actor = Some (i_user i), ia_text = content\<rparr> d of
                         (Inl e, d') \<Rightarrow>
                           ((if is_value_error e then Inr [u ''Failed to send input: '' @ exc_text e] else Inl e), d', k)
                       | (Inr key, d') \<Rightarrow>
                           (Inr [u ''Input queued for '' @ code_span (s_name s) @ u '' (key='' @ take 8 key @ u '').''],
                            d', note_user_message (opt_str (s_thread s)) k))))"

definition diff_reply :: "bot_env \<Rightarrow> interaction \<Rightarrow> pystr option \<Rightarrow> db \<Rightarrow> pystr" where
  "diff_reply env i ref d =
     (case i_guild_id i of
        None \<Rightarrow> RUN_IN_SERVER
      | Some g \<Rightarrow>
          (case target_of i g ref d of
             None \<Rightarrow> NO_SESSION
           | Some s \<Rightarrow>
               if py_strip (s_cwd s) = [] then u ''Session has no working directory.''
               else
                 (case fetch_diff_preview (be_redact env) (be_diff env) of
                    Inl e \<Rightarrow> u ''Failed to preview diff: '' @ exc_text e
                  | Inr preview \<Rightarrow>
                      (let patch = py_strip (be_redact env (dp_patch preview))
                       in if patch = [] then u ''No local changes.''
                          else u ''```diff'' @ nl # take 1750 patch @ nl # u ''```'' @
                            (if dp_truncated preview \<or> 1750 < length patch
                             then nl # nl # u ''(Truncated diff preview.)'' else [])))))"

definition diff_command :: "bot_env \<Rightarrow> interaction \<Rightarrow> pystr option \<Rightarrow> db \<Rightarrow> reply \<times> db" where
  "diff_command env i ref d = say (diff_reply env i ref d) d"

subsection \<open>Session configuration\<close>

definition resolve_session_for_channel :: "pystr \<Rightarrow> db \<Rightarrow> session option" where
  "resolve_session_for_channel channel d = find (\<lambda>s. s_thread s = Some channel) (d_sessions d)"

definition IN_THREAD :: pystr where
  "IN_THREAD = u ''This command must be run inside a Discode session thread.''"

definition config_set :: "bot_env \<Rightarrow> interaction \<Rightarrow> pystr \<Rightarrow> pystr \<Rightarrow> db \<Rightarrow> reply \<times> db" where
  "config_set env i key v d =
     (case resolve_session_for_channel (i_channel i) d of
        None \<Rightarrow> say IN_THREAD d
      | Some s \<Rightarrow>
          (case set_session_config (be_encrypt env) (be_netloc_ok env) (s_id s) key v (i_roles i) (i_role_names i) d of
             (Inl e, d') \<Rightarrow> (Inl e, d)
           | (Inr r, d') \<Rightarrow> say (sr_message r) d'))"

definition config_get :: "interaction \<Rightarrow> db \<Rightarrow> reply \<times> db" where
  "config_get i d =
     (case resolve_session_for_channel (i_channel i) d of
        None \<Rightarrow> say IN_THREAD d
      | Some s \<Rightarrow>
          if \<not> is_admin i (opt_str (s_guild s)) d then say (u ''You need the configured admin role to view session config.'') d
          else
            (case get_session_config (s_id s) d of
               [] \<Rightarrow> say (u ''No overrides set.'') d
             | rows \<Rightarrow>
                 say (u ''```'' @ nl # join_with nl (map (\<lambda>(k, v). k @ u '': '' @ v) rows) @ nl # u ''```'') d))"

definition config_clear :: "interaction \<Rightarrow> pystr \<Rightarrow> db \<Rightarrow> reply \<times> db" where
  "config_clear i key d =
     (case resolve_session_for_channel (i_channel i) d of
        None \<Rightarrow> say IN_THREAD d
      | Some s \<Rightarrow>
          (let ((_, _, _, m), d') = clear_session_config_key (s_id s) key (i_roles i) (i_role_names i) d in say m d'))"

definition config_clear_all :: "interaction \<Rightarrow> db \<Rightarrow> reply \<times> db" where
  "config_clear_all i d =
     (case resolve_session_for_channel (i_channel i) d of
        None \<Rightarrow> say IN_THREAD d
      | Some s \<Rightarrow>
          (let ((_, _, _, m), d') = clear_all_session_config (s_id s) (i_roles i) (i_role_names i) d in say m d'))"

definition session_key_autocomplete :: "pystr \<Rightarrow> pystr list" where
  "session_key_autocomplete current =
     take 25 (filter (\<lambda>k. contains (ascii_lower current) k) (map u [''model'', ''base_url'', ''api_key'']))"

subsection \<open>Tools\<close>

definition tool_register :: "bot_env \<Rightarrow> interaction \<Rightarrow> pystr \<Rightarrow> pystr \<Rightarrow> db \<Rightarrow> reply \<times> db" where
  "tool_register env i name config d =
     (case i_guild i of
        None \<Rightarrow> say NEEDS_SERVER d
      | Some g \<Rightarrow>
          (case be_json env config of
             Inl m \<Rightarrow> say (u ''Invalid JSON: '' @ m) d
           | Inr cfg \<Rightarrow>
               (let (r, d') = register_tool (be_engine env) (be_type_error env) (be_cfg env) name cfg (i_user i) (Some (i_user i)) d
                in say (tr_message r) d')))"

definition tool_list :: "bot_env \<Rightarrow> interaction \<Rightarrow> db \<Rightarrow> reply \<times> db" where
  "tool_list env i d =
     (case i_guild i of
        None \<Rightarrow> say NEEDS_SERVER d
      | Some g \<Rightarrow>
          (case list_tools d of
             [] \<Rightarrow> say (u ''No tools registered.'') d
           | ts \<Rightarrow>
               (Inr (send_deferred_text (be_redact env)
                  (join_with nl (map (\<lambda>t. td_name t @ u '' '' @ 8226 # u '' '' @ td_display (td_config t) @ u '' '' @ 8226 #
                     u (if td_enabled t then '' enabled'' else '' disabled'')) (take 25 ts)))), d)))"

definition tool_update :: "bot_env \<Rightarrow> interaction \<Rightarrow> pystr \<Rightarrow> pystr \<Rightarrow> pystr \<Rightarrow> db \<Rightarrow> reply \<times> db" where
  "tool_update env i name fld v d =
     (case i_guild i of
        None \<Rightarrow> say NEEDS_SERVER d
      | Some g \<Rightarrow>
          (let (r, d') = update_tool_field (be_engine env) (be_type_error env) (be_loads env) (be_cfg env) name fld v (Some (i_user i)) d
           in say (tr_message r) d'))"

definition tool_enable :: "bot_env \<Rightarrow> interaction \<Rightarrow> pystr \<Rightarrow> db \<Rightarrow> reply \<times> db" where
  "tool_enable env i name d =
     (case i_guild i of
        None \<Rightarrow> say NEEDS_SERVER d
      | Some g \<Rightarrow> (let (r, d') = enable_tool (be_cfg env) name (Some (i_user i)) d in say (tr_message r) d'))"

definition tool_disable :: "bot_env \<Rightarrow> interaction \<Rightarrow> pystr \<Rightarrow> db \<Rightarrow> reply \<times> db" where
  "tool_disable env i name d =
     (case i_guild i of
        None \<Rightarrow> say NEEDS_SERVER d
      | Some g \<Rightarrow> (let (r, d') = disable_tool (be_cfg env) name (Some (i_user i)) d in say (tr_message r) d'))"

definition tool_remove :: "bot_env \<Rightarrow> interaction \<Rightarrow> pystr \<Rightarrow> db \<Rightarrow> reply \<times> db" where
  "tool_remove env i name d =
     (case i_guild i of
        None \<Rightarrow> say NEEDS_SERVER d
      | Some g \<Rightarrow> (let (r, d') = remove_tool (be_cfg env) name (Some (i_user i)) d in say (tr_message r) d'))"

end
