(* ===== verification/Start_Command.thy ===== *)
theory Start_Command
  imports Bot_Commands
begin

text \<open>
  \<open>bot/main.py\<close>: \<open>/start\<close>, the handler of thread messages, the gate of the command tree and
  \<open>on_app_command_error\<close>. Creating and deleting threads are effects, recorded in order.
\<close>

subsection \<open>Showing a tool\<close>

definition py_list_repr :: "pystr list \<Rightarrow> pystr" where
  "py_list_repr xs =
     91 # (case xs of [] \<Rightarrow> [] | x # ys \<Rightarrow> py_repr x @ concat (map (\<lambda>y. u '', '' @ py_repr y) ys)) @ [93]"

definition py_bool :: "bool \<Rightarrow> pystr" where
  "py_bool b = u (if b then ''True'' else ''False'')"

definition tool_show :: "bot_env \<Rightarrow> interaction \<Rightarrow> pystr \<Rightarrow> db \<Rightarrow> reply \<times> db" where
  "tool_show env i name d =
     (case i_guild i of
        None \<Rightarrow> say NEEDS_SERVER d
      | Some g \<Rightarrow>
          (case show_tool name d of
             (None, m) \<Rightarrow> say m d
           | (Some t, _) \<Rightarrow>
               (let c = td_config t
                in (Inr (send_deferred_text (be_redact env)
                     (join_with nl
                       [u ''name:                '' @ td_name t,
                        u ''display_name:        '' @ td_display c,
                        u ''enabled:             '' @ py_bool (td_enabled t),
                        u ''argv_prefix:         '' @ py_list_repr (td_prefix c),
                        u ''argv_resume_tokens:  '' @ py_list_repr (td_resume c),
                        u ''argv_suffix:         '' @ py_list_repr (td_suffix c),
                        u ''uses_pty:            '' @ py_bool (td_pty c),
                        u ''resume_token_source: '' @ source_str (td_source c),
                        u ''resume_token_pattern:'' @ fstr (td_pattern c),
                        u ''reply_extractor:     '' @ extractor_str (td_extractor c),
                        u ''reply_json_field:    '' @ fstr (td_json_field c),
                        u ''extra_paths:         '' @ py_list_repr (td_extra_paths c),
                        u ''env_passthrough:     '' @ py_list_repr (td_env c)])), d))))"

subsection \<open>Start\<close>

datatype thread_effect = CreateThread pystr | DeleteThread pystr

text \<open>\<open>SELECT id FROM runner_hosts WHERE status = 'online' LIMIT 1\<close>; an empty id counts as none.\<close>

definition first_online_host :: "db \<Rightarrow> pystr option" where
  "first_online_host d = map_option h_id (find (\<lambda>h. h_status h = Online) (d_hosts d))"

text \<open>The checks before anything visible is created: the working directory, or the text of the \<open>ValueError\<close>.\<close>

definition start_checks ::
  "bot_env \<Rightarrow> pystr \<Rightarrow> pystr \<Rightarrow> pystr \<Rightarrow> pystr \<Rightarrow> pystr \<Rightarrow> db \<Rightarrow> pystr result" where
  "start_checks env g owner tool cwd host d =
     (case resolve_alias_or_path g cwd d of
        Inl e \<Rightarrow> Inl e
      | Inr path \<Rightarrow>
          (case ensure_execution_allowed (be_cfg env) of
             Inl e \<Rightarrow> Inl e
           | Inr _ \<Rightarrow>
               (case validate_workspace (be_canon env path) g owner host d of
                  Inl e \<Rightarrow> Inl e
                | Inr real \<Rightarrow>
                    (case tool_of tool d of
                       None \<Rightarrow> Inl (ValueErr (u ''Unknown or disabled tool''))
                     | Some definition \<Rightarrow>
                         if \<not> td_enabled definition then Inl (ValueErr (u ''Unknown or disabled tool''))
                         else if td_source (td_config definition) = Sentinel then
                           Inl (ValueErr (u ''This tool has no isolated conversation identity and is unavailable''))
                         else if MAX_ACTIVE_SESSIONS_PER_USER (be_cfg env) \<le> int (active_session_count g owner d) then
                           Inl (ValueErr SESSION_LIMIT_MESSAGE)
                         else Inr real))))"

definition start_args :: "interaction \<Rightarrow> pystr \<Rightarrow> pystr \<Rightarrow> pystr \<Rightarrow> pystr \<Rightarrow> pystr \<Rightarrow> pystr \<Rightarrow> pystr \<Rightarrow> create_args" where
  "start_args i g tool name real channel host thread =
     \<lparr>ca_guild = g, ca_owner = i_user i, ca_username = i_user_name i, ca_tool = tool, ca_name = name, ca_cwd = real,
      ca_realpath = real, ca_parent = channel, ca_host = host, ca_thread = thread, ca_model = None, ca_token = None\<rparr>"

definition start_handler ::
  "bot_env \<Rightarrow> interaction \<Rightarrow> pystr \<Rightarrow> pystr \<Rightarrow> pystr \<Rightarrow> pystr option \<Rightarrow> db \<Rightarrow> reply \<times> thread_effect list \<times> db" where
  "start_handler env i tool name cwd runner_host_id d =
     (let no = (\<lambda>m. (Inr [m], [], d)) in
      case i_guild i of
        None \<Rightarrow> no NEEDS_SERVER
      | Some g \<Rightarrow>
          if \<not> can_operate_sessions (be_cfg env) d g (i_user i) (i_roles i) (Some (i_role_names i)) then
            no (u ''Only the guild's Discode admins can start sessions.'')
          else
            (let host = (if opt_str runner_host_id \<noteq> [] then opt_str runner_host_id else opt_str (first_online_host d))
             in if host = [] then no (u ''No online runner available. Ask a platform admin to bring a runner online.'')
                else
                  (case resolve_tool_channel g tool d of
                     None \<Rightarrow> no (u ''No channel mapped for tool '' @ code_span tool @ u ''. Run `/setup map set '' @ tool @ u '' #channel` first.'')
                   | Some channel \<Rightarrow>
                       if py_strip name = [] \<or> 100 < length (tool @ u '': '' @ name) then
                         no (u ''Use a nonempty session name; tool and name must fit 100 characters.'')
                       else
                         (case start_checks env g (i_user i) tool cwd host d of
                            Inl e \<Rightarrow> no (u ''Could not start session: '' @ exc_text e)
                          | Inr real \<Rightarrow>
                              if \<not> be_text_channel env channel then
                                no (u ''Mapped channel <#'' @ channel @ u ''> is not accessible. Update the mapping with `/setup map set`.'')
                              else
                                (case be_thread env of
                                   ThreadRefused \<Rightarrow>
                                     no (u ''Failed to create a Discord thread. Check bot permissions in the mapped channel and try again.'')
                                 | ThreadCreated thread \<Rightarrow>
                                     (case run_create_saga (be_cfg env) (be_now env) (be_sid env) (be_key env 0) (be_key env 1)
                                             (be_secret_hash env) (be_ciphertext env)
                                             (start_args i g tool name real channel host thread) d of
                                        (Inl e, d') \<Rightarrow>
                                          (Inr [if is_value_error e then u ''Could not start session: '' @ exc_text e
                                                else u ''Could not start session. Please retry or contact an administrator.''],
                                           [CreateThread thread, DeleteThread thread], d')
                                      | (Inr _, d') \<Rightarrow>
                                          (Inr [u ''Session '' @ code_span (take 8 (uuid_str (be_sid env))) @ u '' queued '' @ 183 #
                                                u '' tool '' @ code_span tool @ u '' '' @ 183 # u '' thread <#'' @ thread @
                                                u ''>. Wait for the runner's ready message before sending input.''],
                                           [CreateThread thread], d')))))))"

subsection \<open>What a start does\<close>

lemma start_checks_ok:
  assumes "start_checks env g owner tool cwd host d = Inr real"
  shows "ensure_execution_allowed (be_cfg env) = Inr ()"
    "\<exists>path. resolve_alias_or_path g cwd d = Inr path \<and> validate_workspace (be_canon env path) g owner host d = Inr real"
    "\<exists>t. tool_of tool d = Some t \<and> td_enabled t \<and> td_source (td_config t) \<noteq> Sentinel"
  using assms by (auto simp: start_checks_def split: sum.splits option.splits if_splits)

lemma start_cases:
  assumes "start_handler env i tool name cwd hid d = (r, effs, d')"
  obtains (refused) "effs = []" "d' = d"
  | (undone) thread where "effs = [CreateThread thread, DeleteThread thread]" "d' = d"
  | (started) g host channel real thread old where
      "effs = [CreateThread thread]" "i_guild i = Some g"
      "can_operate_sessions (be_cfg env) d g (i_user i) (i_roles i) (Some (i_role_names i))"
      "host = (if opt_str hid \<noteq> [] then opt_str hid else opt_str (first_online_host d))"
      "start_checks env g (i_user i) tool cwd host d = Inr real"
      "run_create_saga (be_cfg env) (be_now env) (be_sid env) (be_key env 0) (be_key env 1) (be_secret_hash env)
         (be_ciphertext env) (start_args i g tool name real channel host thread) d = (Inr old, d')"
proof -
  have saga: "run_create_saga c n s k1 k2 h ct a d = (Inl e, d'') \<Longrightarrow> d'' = d" for c n s k1 k2 h ct a e d''
    by (rule refused_request_changes_nothing_parts(1))
  show thesis
    using assms refused undone started unfolding start_handler_def Let_def
    by (force split: option.splits if_splits sum.splits thread_answer.splits prod.splits dest: saga)
qed

text \<open>C20. A start is all or nothing, and only for those who may: either the database is unchanged and any thread that
  was created is deleted again, or there is one new session, bound to the one created thread, on behalf of a
  member who may operate sessions of the guild, while execution is allowed, under a quota that is not exceeded,
  for a working directory that lies under an allowed root of the guild that is shared or the member's.\<close>

theorem start_is_all_or_nothing:
  assumes "start_handler env i tool name cwd hid d = (r, effs, d')"
  shows "(d' = d \<and> (effs = [] \<or> (\<exists>th. effs = [CreateThread th, DeleteThread th]))) \<or>
    (\<exists>g th real host channel. effs = [CreateThread th] \<and> i_guild i = Some g \<and>
       can_operate_sessions (be_cfg env) d g (i_user i) (i_roles i) (Some (i_role_names i)) \<and>
       ensure_execution_allowed (be_cfg env) = Inr () \<and>
       (\<exists>root \<in> set (d_roots d). r_guild root = Some g \<and> r_host root = host \<and> r_user root \<in> {[], i_user i} \<and>
          is_within_root real (r_realpath root)) \<and>
       session_of (be_sid env) d' =
         Some (new_session (be_now env) (be_sid env) (be_secret_hash env) (start_args i g tool name real channel host th)) \<and>
       int (active_session_count g (i_user i) d') \<le> MAX_ACTIVE_SESSIONS_PER_USER (be_cfg env))"
  using assms
proof (cases rule: start_cases)
  case (started g host channel real thread old)
  let ?a = "start_args i g tool name real channel host thread"
  note ok = start_checks_ok [OF started(5)] and made = creation_respects_quota_parts [OF started(6)]
  obtain path where "validate_workspace (be_canon env path) g (i_user i) host d = Inr real"
    using ok(2) by blast
  then have root: "\<exists>root \<in> set (d_roots d). r_guild root = Some g \<and> r_host root = host \<and> r_user root \<in> {[], i_user i} \<and>
      is_within_root real (r_realpath root)"
    using validate_workspace_ok by blast
  have a: "ca_guild ?a = g" "ca_owner ?a = i_user i"
    by (simp_all add: start_args_def)
  show ?thesis
    using started(1-3) ok(1) root made(1,3) unfolding a by blast
qed blast+

subsection \<open>An example\<close>

definition sample_env :: bot_env where
  "sample_env = \<lparr>be_cfg = sample_settings, be_now = 5, be_key = (\<lambda>n. [n]), be_sid = 2, be_secret_hash = [], be_ciphertext = [],
     be_quotas = \<lparr>q_message_bytes = 10, q_messages = 1, q_minute_bytes = 10\<rparr>, be_realpath = (\<lambda>p. p),
     be_netloc_ok = (\<lambda>_. True), be_word = (\<lambda>_. False), be_encrypt = Some, be_engine = sample_engine, be_type_error = (\<lambda>_. []),
     be_json = (\<lambda>_. Inl []), be_canon = (\<lambda>p. CanonReply p (Some (u ''allow'')) True), be_text_channel = (\<lambda>_. True),
     be_thread = ThreadCreated (u ''t9''), be_diff = DiffNotJson\<rparr>"

definition sample_admin :: interaction where
  "sample_admin = \<lparr>i_guild = Some (u ''g''), i_guild_id = Some (u ''g''), i_channel = u ''c'', i_user = u ''bob'',
     i_user_name = u ''bob'', i_roles = [u ''r''], i_role_names = [], i_manage_guild = False\<rparr>"

definition sample_guild :: db where
  "sample_guild = sample_registry\<lparr>d_hosts := [\<lparr>h_id = u ''h'', h_status = Online, h_heartbeat = None\<rparr>],
     d_guilds := [\<lparr>g_id = u ''g'', g_name = u ''g''\<rparr>],
     d_policies := [\<lparr>p_guild = u ''g'', p_role = Some (u ''r''), p_role_name = None, p_updated_by = []\<rparr>],
     d_maps := [\<lparr>c_guild = u ''g'', c_tool = u ''echo'', c_channel = u ''ch'', c_updated_by = []\<rparr>],
     d_roots := [\<lparr>r_guild = Some (u ''g''), r_user = [], r_host = u ''h'', r_path = u ''/srv'', r_realpath = u ''/srv'',
       r_created_by = u ''b''\<rparr>]\<rparr>"

lemma sample_checks:
  "start_checks sample_env (u ''g'') (u ''bob'') (u ''echo'') (u ''/srv/p'') (u ''h'') sample_guild = Inr (u ''/srv/p'')"
  by code_simp

lemma sample_may: "can_operate_sessions sample_settings sample_guild (u ''g'') (u ''bob'') [u ''r''] (Some [])"
  by code_simp

lemma sample_saga:
  "\<exists>old d'. run_create_saga sample_settings 5 2 [0] [1] [] []
     (start_args sample_admin (u ''g'') (u ''echo'') (u ''p'') (u ''/srv/p'') (u ''ch'') (u ''h'') (u ''t9'')) sample_guild = (Inr old, d')"
proof -
  have q: "0 < MAX_ACTIVE_SESSIONS_PER_USER sample_settings"
    by (simp add: sample_settings_def default_settings_def)
  show ?thesis
    using q unfolding run_create_saga_def Let_def
    by (simp add: active_session_count_def counts_active_def start_args_def sample_admin_def tool_of_def sample_guild_def sample_registry_def sample_config_def predecessor_def
        order_by_def sel_def resumable_def session_insertable_def new_session_def session_of_def sample_owned_def
        ensure_user_def ensure_guild_def ins_or_skip_def str_opt_def empty_db_def)
qed

theorem start_is_all_or_nothing_witness:
  "\<exists>r th d'. start_handler sample_env sample_admin (u ''echo'') (u ''p'') (u ''/srv/p'') None sample_guild =
     (r, [CreateThread th], d') \<and> session_of 2 d' \<noteq> None"
proof -
  obtain old d' where saga: "run_create_saga sample_settings 5 2 [0] [1] [] []
     (start_args sample_admin (u ''g'') (u ''echo'') (u ''p'') (u ''/srv/p'') (u ''ch'') (u ''h'') (u ''t9'')) sample_guild = (Inr old, d')"
    using sample_saga by blast
  have ch: "resolve_tool_channel (u ''g'') (u ''echo'') sample_guild = Some (u ''ch'')"
    by code_simp
  have h: "first_online_host sample_guild = Some (u ''h'')"
    by (simp add: first_online_host_def sample_guild_def)
  have n: "py_strip (u ''p'') \<noteq> []"
    by (simp add: u_def py_strip_def strip_by_def lstrip_by_def rstrip_by_def is_space_def)
  have "\<exists>r. start_handler sample_env sample_admin (u ''echo'') (u ''p'') (u ''/srv/p'') None sample_guild = (r, [CreateThread (u ''t9'')], d')"
    using sample_checks sample_may saga ch h n
    by (simp add: start_handler_def sample_admin_def sample_env_def)
  then obtain r where s: "start_handler sample_env sample_admin (u ''echo'') (u ''p'') (u ''/srv/p'') None sample_guild = (r, [CreateThread (u ''t9'')], d')" ..
  show ?thesis
    using start_is_all_or_nothing [OF s] s by (auto simp: sample_env_def)
qed

end
