(* ===== verification/Bot_Gate.thy ===== *)
theory Bot_Gate
  imports Start_Command
begin

text \<open>
  \<open>bot/main.py\<close>: the whole surface of the bot as one datatype of requests. \<open>run_command\<close> is the gate of the
  command tree (\<open>interaction_check\<close>) in front of the handlers, with \<open>on_app_command_error\<close> behind them;
  \<open>on_message\<close> handles a message in a thread. The theorems say who may cause which change.
\<close>

subsection \<open>The command tree\<close>

datatype command =
    CmdMapSet pystr pystr | CmdMapList | CmdMapRemove pystr | CmdAdminRoleSet pystr pystr | CmdAdminRoleList
  | CmdSetupInit | CmdRootAdd pystr "pystr option" | CmdAliasSet pystr pystr | CmdAliasList | CmdAliasRemove pystr
  | CmdSessionList int | CmdArchive "pystr option" | CmdResume "pystr option" | CmdRestart "pystr option"
  | CmdStop "pystr option" | CmdInvite pystr pystr "pystr option" | CmdSend pystr "pystr option" | CmdDiff "pystr option"
  | CmdConfigSet pystr pystr | CmdConfigGet | CmdConfigClear pystr | CmdConfigClearAll
  | CmdToolRegister pystr pystr | CmdToolList | CmdToolShow pystr | CmdToolUpdate pystr pystr pystr | CmdToolEnable pystr
  | CmdToolDisable pystr | CmdToolRemove pystr | CmdStart pystr pystr pystr "pystr option"

text \<open>The handlers that neither touch the typing tracker nor create threads.\<close>

fun plain_command :: "bot_env \<Rightarrow> interaction \<Rightarrow> command \<Rightarrow> db \<Rightarrow> reply \<times> db" where
  "plain_command env i (CmdMapSet t c) d = map_set i t c d"
| "plain_command env i CmdMapList d = map_list env i d"
| "plain_command env i (CmdMapRemove t) d = map_remove i t d"
| "plain_command env i (CmdAdminRoleSet r n) d = admin_role_set i r n d"
| "plain_command env i CmdAdminRoleList d = admin_role_list i d"
| "plain_command env i CmdSetupInit d = init_guild i d"
| "plain_command env i (CmdRootAdd p a) d = root_add env i p a d"
| "plain_command env i (CmdAliasSet a p) d = alias_set env i a p d"
| "plain_command env i CmdAliasList d = alias_list env i d"
| "plain_command env i (CmdAliasRemove a) d = alias_remove i a d"
| "plain_command env i (CmdSessionList page) d = session_list i page d"
| "plain_command env i (CmdArchive ref) d = archive_command env i ref d"
| "plain_command env i (CmdResume ref) d = resume_command env i ref d"
| "plain_command env i (CmdRestart ref) d = restart_command env i ref d"
| "plain_command env i (CmdStop ref) d = stop_command env i ref d"
| "plain_command env i (CmdInvite us n ref) d = invite_command env i us n ref d"
| "plain_command env i (CmdDiff ref) d = diff_command env i ref d"
| "plain_command env i (CmdConfigSet k v) d = config_set env i k v d"
| "plain_command env i CmdConfigGet d = config_get i d"
| "plain_command env i (CmdConfigClear k) d = config_clear i k d"
| "plain_command env i CmdConfigClearAll d = config_clear_all i d"
| "plain_command env i (CmdToolRegister n c) d = tool_register env i n c d"
| "plain_command env i CmdToolList d = tool_list env i d"
| "plain_command env i (CmdToolShow n) d = tool_show env i n d"
| "plain_command env i (CmdToolUpdate n f v) d = tool_update env i n f v d"
| "plain_command env i (CmdToolEnable n) d = tool_enable env i n d"
| "plain_command env i (CmdToolDisable n) d = tool_disable env i n d"
| "plain_command env i (CmdToolRemove n) d = tool_remove env i n d"
| "plain_command env i _ d = (Inr [], d)"

record bot_state =
  b_db :: db
  b_tracker :: tracker

definition dispatch_command :: "bot_env \<Rightarrow> interaction \<Rightarrow> command \<Rightarrow> bot_state \<Rightarrow> reply \<times> thread_effect list \<times> bot_state" where
  "dispatch_command env i c st =
     (case c of
        CmdSend body ref \<Rightarrow>
          (let (r, d, k) = send_command env i body ref (b_db st, b_tracker st) in (r, [], \<lparr>b_db = d, b_tracker = k\<rparr>))
      | CmdStart tool name cwd host \<Rightarrow>
          (let (r, effs, d) = start_handler env i tool name cwd host (b_db st) in (r, effs, st\<lparr>b_db := d\<rparr>))
      | _ \<Rightarrow> (let (r, d) = plain_command env i c (b_db st) in (r, [], st\<lparr>b_db := d\<rparr>)))"

text \<open>\<open>interaction_check\<close>, the handler, and the text for an exception that leaves it.\<close>

definition run_command :: "bot_env \<Rightarrow> interaction \<Rightarrow> command \<Rightarrow> bot_state \<Rightarrow> pystr list \<times> thread_effect list \<times> bot_state" where
  "run_command env i c st =
     (if \<not> is_guild_allowed (be_cfg env) (i_guild_id i) then
        ([u ''Discode is not enabled for this server.''], [], st)
      else
        (case dispatch_command env i c st of
           (Inl e, effs, st') \<Rightarrow> ([u ''Command failed. Check service logs and try again.''], effs, st')
         | (Inr ms, effs, st') \<Rightarrow> (ms, effs, st')))"

subsection \<open>Who may change what\<close>

text \<open>
  The authority each request needs, at the database it finds; \<open>False\<close> for a request that only reads. This is
  the table the help text advertises, made precise.
\<close>

definition may_administer :: "interaction \<Rightarrow> db \<Rightarrow> bool" where
  "may_administer i d \<longleftrightarrow> (\<exists>g. i_guild i = Some g \<and> is_admin i g d)"

definition is_platform_admin :: "bot_env \<Rightarrow> interaction \<Rightarrow> bool" where
  "is_platform_admin env i \<longleftrightarrow> i_user i \<in> set (platform_admin_user_ids (be_cfg env))"

definition may_control :: "interaction \<Rightarrow> pystr option \<Rightarrow> db \<Rightarrow> bool" where
  "may_control i ref d \<longleftrightarrow> (\<exists>g s. i_guild_id i = Some g \<and> target_of i g ref d = Some s \<and>
     (owner_or_admin i g s d))"

fun authority :: "bot_env \<Rightarrow> interaction \<Rightarrow> command \<Rightarrow> db \<Rightarrow> bool" where
  "authority env i (CmdMapSet t c) d = may_administer i d"
| "authority env i (CmdMapRemove t) d = may_administer i d"
| "authority env i (CmdAdminRoleSet r n) d = (i_manage_guild i \<or> may_administer i d)"
| "authority env i CmdSetupInit d = (i_manage_guild i \<or> may_administer i d)"
| "authority env i (CmdRootAdd p (Some a)) d = (\<exists>g. i_guild_id i = Some g \<and> is_admin i g d)"
| "authority env i (CmdRootAdd p None) d = (\<exists>g. i_guild_id i = Some g \<and> (is_platform_admin env i \<or> is_admin i g d))"
| "authority env i (CmdAliasSet a p) d = (\<exists>g. i_guild_id i = Some g \<and> is_admin i g d)"
| "authority env i (CmdAliasRemove a) d = (\<exists>g. i_guild_id i = Some g \<and> is_admin i g d)"
| "authority env i (CmdArchive ref) d = may_control i ref d"
| "authority env i (CmdResume ref) d = may_control i ref d"
| "authority env i (CmdRestart ref) d = may_control i ref d"
| "authority env i (CmdStop ref) d = may_control i ref d"
| "authority env i (CmdInvite us n ref) d = (\<exists>g s. i_guild_id i = Some g \<and> target_of i g ref d = Some s \<and>
     (is_admin i g d \<or> (\<exists>r. session_of (s_id s) d = Some r \<and> s_owner r = Some (i_user i))))"
| "authority env i (CmdSend b ref) d = (\<exists>g s. i_guild_id i = Some g \<and> target_of i g ref d = Some s \<and>
     (is_admin i g d \<or> is_session_member (s_id s) (i_user i) d))"
| "authority env i (CmdConfigSet k v) d = (\<exists>s r. resolve_session_for_channel (i_channel i) d = Some s \<and>
     session_of (s_id s) d = Some r \<and> is_admin i (opt_str (s_guild r)) d)"
| "authority env i (CmdConfigClear k) d = (\<exists>s r. resolve_session_for_channel (i_channel i) d = Some s \<and>
     session_of (s_id s) d = Some r \<and> is_admin i (opt_str (s_guild r)) d)"
| "authority env i CmdConfigClearAll d = (\<exists>s r. resolve_session_for_channel (i_channel i) d = Some s \<and>
     session_of (s_id s) d = Some r \<and> is_admin i (opt_str (s_guild r)) d)"
| "authority env i (CmdToolRegister n c) d = is_platform_admin env i"
| "authority env i (CmdToolUpdate n f v) d = is_platform_admin env i"
| "authority env i (CmdToolEnable n) d = is_platform_admin env i"
| "authority env i (CmdToolDisable n) d = is_platform_admin env i"
| "authority env i (CmdToolRemove n) d = is_platform_admin env i"
| "authority env i (CmdStart t n c h) d = (\<exists>g. i_guild i = Some g \<and> (is_platform_admin env i \<or> is_admin i g d))"
| "authority env i _ d = False"

named_theorems reads_only \<open>requests that leave the database alone\<close>

lemma say_db [simp]: "snd (say m d) = d"
  by (simp add: say_def)

lemma reads [reads_only]:
  "snd (map_list env i d) = d" "snd (admin_role_list i d) = d" "snd (alias_list env i d) = d"
  "snd (session_list i page d) = d" "snd (diff_command env i ref d) = d" "snd (config_get i d) = d"
  "snd (tool_list env i d) = d" "snd (tool_show env i n d) = d"
  by (auto simp: map_list_def admin_role_list_def alias_list_def session_list_def diff_command_def config_get_def
      tool_list_def tool_show_def Let_def split: option.split list.split prod.split)

lemma operate_iff: "can_operate_sessions (be_cfg env) d g (i_user i) (i_roles i) (Some (i_role_names i)) \<longleftrightarrow>
   is_platform_admin env i \<or> is_admin i g d"
  by (simp add: can_operate_sessions_def is_platform_admin_def is_admin_def)

lemma setup_changes:
  "snd (map_set i t c d) \<noteq> d \<Longrightarrow> may_administer i d"
  "snd (map_remove i t d) \<noteq> d \<Longrightarrow> may_administer i d"
  "snd (admin_role_set i r n d) \<noteq> d \<Longrightarrow> i_manage_guild i \<or> may_administer i d"
  "snd (init_guild i d) \<noteq> d \<Longrightarrow> i_manage_guild i \<or> may_administer i d"
  by (auto simp: map_set_def map_remove_def admin_role_set_def init_guild_def may_administer_def is_admin_def say_def
      roles_or_empty_def setup_map_set_def setup_map_remove_def Let_def split: option.splits sum.splits prod.splits if_splits)

lemma root_changes:
  "snd (root_add env i p (Some a) d) \<noteq> d \<Longrightarrow> \<exists>g. i_guild_id i = Some g \<and> is_admin i g d"
  "snd (root_add env i p None d) \<noteq> d \<Longrightarrow> \<exists>g. i_guild_id i = Some g \<and> (is_platform_admin env i \<or> is_admin i g d)"
  "snd (alias_set env i a p d) \<noteq> d \<Longrightarrow> \<exists>g. i_guild_id i = Some g \<and> is_admin i g d"
  "snd (alias_remove i a d) \<noteq> d \<Longrightarrow> \<exists>g. i_guild_id i = Some g \<and> is_admin i g d"
  by (auto simp: root_add_def alias_set_def alias_remove_def say_def operate_iff split: option.splits if_splits)

lemma owner_changes:
  "snd (owner_command i ref verb act d) \<noteq> d \<Longrightarrow> may_control i ref d"
  by (auto simp: owner_command_def may_control_def say_def split: option.splits if_splits)

lemma invite_changes:
  "snd (invite_command env i us n ref d) \<noteq> d \<Longrightarrow> authority env i (CmdInvite us n ref) d"
  by (auto simp: invite_command_def say_def Let_def split: option.splits if_splits)

lemma config_changes:
  "snd (config_set env i k v d) \<noteq> d \<Longrightarrow> authority env i (CmdConfigSet k v) d"
  "snd (config_clear i k d) \<noteq> d \<Longrightarrow> authority env i (CmdConfigClear k) d"
  "snd (config_clear_all i d) \<noteq> d \<Longrightarrow> authority env i CmdConfigClearAll d"
  by (auto simp: config_set_def config_clear_def config_clear_all_def set_session_config_def clear_session_config_key_def
      clear_all_session_config_def is_admin_def say_def Let_def split: option.splits if_splits sum.splits prod.splits)

lemma tool_changes:
  "snd (tool_register env i n c d) \<noteq> d \<Longrightarrow> is_platform_admin env i"
  "snd (tool_update env i n f v d) \<noteq> d \<Longrightarrow> is_platform_admin env i"
  "snd (tool_enable env i n d) \<noteq> d \<Longrightarrow> is_platform_admin env i"
  "snd (tool_disable env i n d) \<noteq> d \<Longrightarrow> is_platform_admin env i"
  "snd (tool_remove env i n d) \<noteq> d \<Longrightarrow> is_platform_admin env i"
  by (auto simp: tool_register_def tool_update_def tool_enable_def tool_disable_def tool_remove_def say_def Let_def
      register_tool_def update_tool_field_def enable_tool_def disable_tool_def set_enabled_def remove_tool_def
      platform_authorized_def is_platform_admin_def split: option.splits sum.splits prod.splits if_splits)

lemma plain_changes:
  assumes "snd (plain_command env i c d) \<noteq> d"
  shows "authority env i c d"
proof -
  note changes = setup_changes root_changes invite_changes config_changes tool_changes
  consider p a where "c = CmdRootAdd p (Some a)" | p where "c = CmdRootAdd p None" | "\<forall>p a. c \<noteq> CmdRootAdd p a"
    by (metis option.exhaust)
  then show ?thesis
  proof cases
    case 3
    then show ?thesis
      using assms
      by (cases c) (auto simp: reads_only archive_command_def resume_command_def restart_command_def stop_command_def
          simp del: authority.simps(13,15-17) dest: changes owner_changes)
  qed (use assms root_changes in auto)
qed

lemma send_changes:
  assumes "send_command env i body ref (d, k) = (r, d', k')" "d' \<noteq> d \<or> k' \<noteq> k"
  shows "authority env i (CmdSend body ref) d"
proof -
  have saga: "run_input_saga cfg q now key a d = (Inl e, d') \<Longrightarrow> d' = d" for cfg q now key a e d'
    by (rule refused_request_changes_nothing_parts(2))
  show ?thesis
    using assms by (auto simp: send_command_def Let_def dest: saga split: option.splits if_splits sum.splits prod.splits)
qed

lemma start_changes:
  assumes "start_handler env i tool name cwd hid d = (r, effs, d')" "d' \<noteq> d"
  shows "authority env i (CmdStart tool name cwd hid) d"
  using assms(1)
proof (cases rule: start_cases)
  case (started g host channel real thread old)
  then show ?thesis
    using operate_iff [of env d g i] by auto
qed (use assms(2) in simp_all)

lemma dispatch_plain:
  "(\<And>b ref. c \<noteq> CmdSend b ref) \<Longrightarrow> (\<And>t n w h. c \<noteq> CmdStart t n w h) \<Longrightarrow>
   dispatch_command env i c st = (let (r, d) = plain_command env i c (b_db st) in (r, [], st\<lparr>b_db := d\<rparr>))"
  by (cases c) (auto simp: dispatch_command_def)

lemma dispatch_changes:
  assumes "b_db (snd (snd (dispatch_command env i c st))) \<noteq> b_db st"
  shows "authority env i c (b_db st)"
proof -
  consider b ref where "c = CmdSend b ref" | t n w h where "c = CmdStart t n w h"
    | "\<And>b ref. c \<noteq> CmdSend b ref" "\<And>t n w h. c \<noteq> CmdStart t n w h"
    by (cases c) blast+
  then show ?thesis
  proof cases
    case 1
    then show ?thesis
      using assms send_changes [of env i b ref "b_db st" "b_tracker st"]
      by (auto simp: dispatch_command_def Let_def split: prod.splits)
  next
    case 2
    then show ?thesis
      using assms start_changes [of env i t n w h "b_db st"]
      by (auto simp: dispatch_command_def Let_def split: prod.splits)
  next
    case 3
    then show ?thesis
      using assms plain_changes [of env i c "b_db st"]
      by (auto simp: dispatch_plain Let_def split: prod.splits)
  qed
qed

text \<open>C18. No slash command changes anything without authority: whatever a member of whatever server sends, the database
  changes only when the server is one the deployment serves and the member has, at that moment, the authority
  the command requires - the administrator role of the guild, the right to manage the server, the platform
  administrators' list, or the ownership or membership of the session the command resolves to.\<close>

theorem commands_need_authority:
  assumes "run_command env i c st = (ms, effs, st')" "b_db st' \<noteq> b_db st"
  shows "is_guild_allowed (be_cfg env) (i_guild_id i) \<and> authority env i c (b_db st)"
proof -
  have "is_guild_allowed (be_cfg env) (i_guild_id i)" "b_db (snd (snd (dispatch_command env i c st))) \<noteq> b_db st"
    using assms by (auto simp: run_command_def split: if_splits sum.splits prod.splits)
  then show ?thesis
    using dispatch_changes by blast
qed

text \<open>A request that only reads changes neither the database nor the tracker and creates no thread.\<close>

lemma reading_commands:
  assumes "c \<in> {CmdMapList, CmdAdminRoleList, CmdAliasList, CmdSessionList page, CmdDiff ref, CmdConfigGet, CmdToolList, CmdToolShow n}"
  shows "snd (run_command env i c st) = ([], st)"
proof -
  have "snd (plain_command env i c (b_db st)) = b_db st"
    using assms by (auto simp: reads_only)
  then obtain r where r: "plain_command env i c (b_db st) = (r, b_db st)"
    by (metis prod.collapse)
  have "dispatch_command env i c st = (r, [], st)"
    using assms by (subst dispatch_plain) (auto simp: r)
  then show ?thesis
    by (simp add: run_command_def split: sum.split)
qed

subsection \<open>Messages in threads\<close>

record message =
  g_self :: bool
  g_bot :: bool
  g_webhook :: bool
  g_thread :: "pystr option"
  g_guild :: "pystr option"
  g_author :: pystr
  g_content :: pystr

text \<open>
  \<open>on_message\<close>: the replies, whether the message is acknowledged with a reaction, and the state. A watcher of
  the turn starts with the acknowledgement; its end is the step \<open>TurnOver\<close> of the tracker.
\<close>

definition on_message :: "bot_env \<Rightarrow> message \<Rightarrow> bot_state \<Rightarrow> (pystr list \<times> bool) \<times> bot_state" where
  "on_message env m st =
     (let drop = (([], False), st);
          d = b_db st
      in if g_self m \<and> g_thread m \<noteq> None then drop
         else if g_bot m \<or> g_webhook m then drop
         else
           (case g_thread m of
              None \<Rightarrow> drop
            | Some thread \<Rightarrow>
                if \<not> is_guild_allowed (be_cfg env) (g_guild m) then drop
                else
                  (case g_guild m of
                     None \<Rightarrow> drop
                   | Some g \<Rightarrow>
                       if \<not> ENABLE_MESSAGE_CONTENT_INPUT (be_cfg env) then drop
                       else
                         (case resolve_session_for_thread thread g d of
                            None \<Rightarrow> drop
                          | Some s \<Rightarrow>
                              if s_status s \<notin> {Running, Idle} then
                                (([u ''This session is not ready for input. Check /session list.''], False), st)
                              else if \<not> is_session_member (s_id s) (g_author m) d then
                                (([u ''You're not a member of this session. Ask the owner to invite you with `/session invite`.''],
                                  False), st)
                              else
                                (let k = note_user_message thread (b_tracker st)
                                 in case run_input_saga (be_cfg env) (be_quotas env) (be_now env) (be_key env 0)
                                        \<lparr>ia_session = s_id s, ia_guild = g, ia_owner = opt_str (s_owner s),
                                         ia_actor = Some (g_author m), ia_text = g_content m\<rparr> d of
                                      (Inr key, d') \<Rightarrow> (([], True), \<lparr>b_db = d', b_tracker = k\<rparr>)
                                    | (Inl e, d') \<Rightarrow>
                                        ((if is_value_error e \<and> exc_text e \<noteq> u ''empty_input''
                                          then [u ''Could not send input: '' @ exc_text e] else [], False),
                                         \<lparr>b_db = d', b_tracker = note_bot_message thread k\<rparr>))))))"

lemma on_message_cases:
  assumes "on_message env m st = ((rs, ack), st')"
  obtains (dropped) "st' = st" "\<not> ack"
  | (refused) thread where "b_db st' = b_db st" "\<not> ack"
      "b_tracker st' = note_bot_message thread (note_user_message thread (b_tracker st))"
  | (queued) thread g s where "ack" "g_thread m = Some thread" "g_guild m = Some g" "\<not> g_bot m" "\<not> g_webhook m"
      "is_guild_allowed (be_cfg env) (Some g)" "ENABLE_MESSAGE_CONTENT_INPUT (be_cfg env)"
      "resolve_session_for_thread thread g (b_db st) = Some s" "s_status s \<in> {Running, Idle}"
      "is_session_member (s_id s) (g_author m) (b_db st)"
      "run_input_saga (be_cfg env) (be_quotas env) (be_now env) (be_key env 0)
         \<lparr>ia_session = s_id s, ia_guild = g, ia_owner = opt_str (s_owner s), ia_actor = Some (g_author m),
          ia_text = g_content m\<rparr> (b_db st) = (Inr (be_key env 0), b_db st')"
      "b_tracker st' = note_user_message thread (b_tracker st)"
proof -
  have saga: "run_input_saga cfg q now key a d = (Inl e, d') \<Longrightarrow> d' = d" for cfg q now key a d e d'
    by (rule refused_request_changes_nothing_parts(2))
  have key: "run_input_saga cfg q now key a d = (Inr k, d') \<Longrightarrow> k = key" for cfg q now key a d k d'
    by (rule accepted_input_is_queued_parts(1))
  show thesis
    using assms dropped refused queued unfolding on_message_def Let_def
    by (force split: option.splits if_splits sum.splits prod.splits dest: saga key)
qed

text \<open>C19. A message becomes input only as it should: if handling a message changes the database, or acknowledges it, then
  it was written by a person in a thread of a served server, input by message is enabled, the thread belongs to a
  running or idle session of that server, and the author is its owner or a member; the change is one queued turn
  of that session. And a message that is not queued leaves the number of pending messages of every thread as it
  was, so that no typing indicator is left behind.\<close>

theorem message_becomes_input:
  assumes "on_message env m st = ((rs, ack), st')" "tracker_ok (b_tracker st)"
  shows "(ack \<or> b_db st' \<noteq> b_db st \<longrightarrow>
      (\<exists>thread g s. g_thread m = Some thread \<and> g_guild m = Some g \<and> \<not> g_bot m \<and> \<not> g_webhook m \<and>
         is_guild_allowed (be_cfg env) (Some g) \<and> ENABLE_MESSAGE_CONTENT_INPUT (be_cfg env) \<and>
         resolve_session_for_thread thread g (b_db st) = Some s \<and> s_status s \<in> {Running, Idle} \<and>
         is_session_member (s_id s) (g_author m) (b_db st) \<and>
         (\<exists>t. turn_of (be_key env 0) (b_db st') = Some t \<and> t_session t = s_id s \<and> t_status t = Queued) \<and>
         typing_pending thread (b_tracker st') = typing_pending thread (b_tracker st) + 1)) \<and>
    (\<not> ack \<longrightarrow> (\<forall>th. typing_pending th (b_tracker st') = typing_pending th (b_tracker st)))"
  using assms(1)
proof (cases rule: on_message_cases)
  case (refused thread)
  have "0 \<le> typing_pending thread (b_tracker st)"
    by (rule pending_nonneg [OF assms(2)])
  then show ?thesis
    using refused pending_bot [OF user_ok [OF assms(2)]] by (simp add: pending_user)
next
  case (queued thread g s)
  then show ?thesis
    using accepted_input_is_queued_parts(3) [OF queued(11)] by (auto simp: pending_user)
qed simp

definition sample_input_env :: bot_env where
  "sample_input_env = sample_env\<lparr>be_cfg := sample_settings\<lparr>ALLOWED_GUILD_IDS := u ''g'', ENABLE_MESSAGE_CONTENT_INPUT := True\<rparr>\<rparr>"

definition sample_bot :: bot_state where
  "sample_bot = \<lparr>b_db = empty_db\<lparr>d_sessions := [sample_owned]\<rparr>, b_tracker = new_tracker\<rparr>"

definition sample_message :: message where
  "sample_message = \<lparr>g_self = False, g_bot = False, g_webhook = False, g_thread = Some (u ''th''), g_guild = Some (u ''g''),
     g_author = u ''alice'', g_content = u ''hi''\<rparr>"

lemma sample_allowed: "is_guild_allowed (be_cfg sample_input_env) (Some (u ''g''))"
  by (simp add: is_guild_allowed_def allowed_guild_ids_def csv_ids_def sample_input_env_def u_def py_strip_def
      strip_by_def lstrip_by_def rstrip_by_def is_space_def)

lemma sample_tracker: "tracker_ok new_tracker"
  by (simp add: tracker_ok_def new_tracker_def is_running_def typing_pending_def)

lemma sample_accepted:
  "\<exists>d'. run_input_saga (be_cfg sample_input_env) (be_quotas sample_input_env) (be_now sample_input_env) (be_key sample_input_env 0)
     \<lparr>ia_session = 1, ia_guild = u ''g'', ia_owner = u ''alice'', ia_actor = Some (u ''alice''), ia_text = u ''hi''\<rparr>
     (b_db sample_bot) = (Inr [0], d')"
  using sample_text
  by (simp add: run_input_saga_def sample_input_env_def sample_env_def sample_bot_def sample_settings_def default_settings_def
      session_of_def sample_owned_def over_rate_def recent_inputs_def sel_def empty_db_def turn_of_def)

theorem message_becomes_input_witness:
  "\<exists>d' t. turn_of [0] d' = Some t \<and> t_session t = 1 \<and> t_status t = Queued"
proof -
  obtain d' where d': "run_input_saga (be_cfg sample_input_env) (be_quotas sample_input_env) (be_now sample_input_env)
     (be_key sample_input_env 0) \<lparr>ia_session = 1, ia_guild = u ''g'', ia_owner = u ''alice'', ia_actor = Some (u ''alice''),
     ia_text = u ''hi''\<rparr> (b_db sample_bot) = (Inr [0], d')"
    using sample_accepted by blast
  have r: "resolve_session_for_thread (u ''th'') (u ''g'') (b_db sample_bot) = Some sample_owned"
    by (simp add: resolve_session_for_thread_def sample_bot_def sample_owned_def)
  have mem: "is_session_member 1 (u ''alice'') (b_db sample_bot)"
    by (simp add: is_session_member_def session_of_def sample_bot_def sample_owned_def)
  have o: "s_id sample_owned = 1" "s_status sample_owned = Running" "s_owner sample_owned = Some (u ''alice'')"
    by (simp_all add: sample_owned_def)
  have e: "ENABLE_MESSAGE_CONTENT_INPUT (be_cfg sample_input_env)" "be_key sample_input_env 0 = [0]"
    by (simp_all add: sample_input_env_def sample_env_def)
  have "\<exists>st'. on_message sample_input_env sample_message sample_bot = (([], True), st')"
    using sample_allowed r mem o e d' by (simp add: on_message_def sample_message_def Let_def)
  then obtain st' where st': "on_message sample_input_env sample_message sample_bot = (([], True), st')" ..
  have "tracker_ok (b_tracker sample_bot)"
    using sample_tracker by (simp add: sample_bot_def)
  from message_becomes_input [OF st' this] show ?thesis
    using r o e by (auto simp: sample_message_def)
qed

lemma sample_map_set:
  "\<exists>ms st'. run_command sample_input_env sample_admin (CmdMapSet (u ''echo'') (u ''c2'')) \<lparr>b_db = sample_guild, b_tracker = new_tracker\<rparr> =
     (ms, [], st') \<and> b_db st' \<noteq> sample_guild"
proof -
  have a: "is_guild_admin_authorized sample_guild (u ''g'') [u ''r''] (Some [])"
    by code_simp
  let ?r = "setup_map_set (u ''g'') (u ''echo'') (u ''c2'') (u ''bob'') (Some [u ''r'']) (Some []) sample_guild"
  have "resolve_tool_channel (u ''g'') (u ''echo'') (snd ?r) = Some (u ''c2'')"
    using setup_map_set_resolves [of sample_guild "u ''g''" "Some [u ''r'']" "Some []"] a by (simp add: roles_or_empty_def)
  moreover have "resolve_tool_channel (u ''g'') (u ''echo'') sample_guild = Some (u ''ch'')"
    by code_simp
  ultimately have "snd ?r \<noteq> sample_guild"
    by auto
  then show ?thesis
    using setup_map_set_total [of "u ''g''" "u ''echo''" "u ''c2''" "u ''bob''" "Some [u ''r'']" "Some []" sample_guild] sample_allowed
    by (auto simp: run_command_def dispatch_command_def map_set_def sample_admin_def say_def split: prod.splits sum.splits)
qed

theorem commands_need_authority_witness: "may_administer sample_admin sample_guild"
proof -
  obtain ms st' where r: "run_command sample_input_env sample_admin (CmdMapSet (u ''echo'') (u ''c2''))
      \<lparr>b_db = sample_guild, b_tracker = new_tracker\<rparr> = (ms, [], st')" and ne: "b_db st' \<noteq> sample_guild"
    using sample_map_set by blast
  show ?thesis
    using commands_need_authority [OF r] ne by simp
qed

end
