(* ===== verification/Bot_Events.thy ===== *)
theory Bot_Events
  imports Bot_Gate Command_Sync
begin

text \<open>
  \<open>bot/main.py\<close>: which commands the bot registers, and what it does with their scopes when it becomes ready, when it
  joins a guild and on \<open>/setup sync\<close>. Guild ids are numbers; \<open>int_str\<close> is their text.
\<close>

definition registered_commands :: "pystr list" where
  "registered_commands = map u [''setup'', ''root'', ''session'', ''archive'', ''resume'', ''restart'', ''invite'', ''tool'', ''start'',
     ''send'', ''stop'', ''diff'', ''help'']"

definition fresh_tree :: cmd_tree where
  "fresh_tree = \<lparr>ct_global = registered_commands, ct_guild = (\<lambda>_. []), ct_admin = None\<rparr>"

definition guild_served :: "settings \<Rightarrow> int \<Rightarrow> bool" where
  "guild_served cfg g \<longleftrightarrow> is_guild_allowed cfg (Some (int_str g))"

text \<open>A failure of the reconciliation is logged; the tree keeps what was moved.\<close>

definition on_ready ::
  "(pystr list \<Rightarrow> pystr list result) \<Rightarrow> (int \<Rightarrow> pystr list \<Rightarrow> pystr list option) \<Rightarrow> settings \<Rightarrow> int list \<Rightarrow> cmd_tree \<Rightarrow> cmd_tree" where
  "on_ready sync_global sync_guild cfg guilds t =
     snd (reconcile_commands sync_global sync_guild (DISCORD_GUILD_COMMANDS_ONLY cfg) (filter (guild_served cfg) guilds) t)"

datatype join_outcome = JoinSynced | JoinLeft

definition on_guild_join ::
  "(int \<Rightarrow> pystr list \<Rightarrow> pystr list option) \<Rightarrow> settings \<Rightarrow> int \<Rightarrow> cmd_tree \<Rightarrow> join_outcome \<times> cmd_tree" where
  "on_guild_join sync_guild cfg g t =
     (if guild_served cfg g then (JoinSynced, snd (sync_joined_guild sync_guild g t)) else (JoinLeft, t))"

definition sync_text :: "pystr \<Rightarrow> sync_report \<Rightarrow> pystr" where
  "sync_text stamp r =
     u ''**Sync complete** ('' @ code_span stamp @ u '')'' @ nl # u ''Global '' @ 8212 # u '' added: '' @ int_str (int (global_added r)) @
     u '', removed: '' @ int_str (int (global_removed r)) @ nl # u ''Guild '' @ 8212 # u '' added: '' @ int_str (int (guild_added r)) @
     u '', removed: '' @ int_str (int (guild_removed r))"

definition sync_command ::
  "(pystr list \<Rightarrow> pystr list result) \<Rightarrow> (int \<Rightarrow> pystr list \<Rightarrow> pystr list option) \<Rightarrow> settings \<Rightarrow> pystr \<Rightarrow> interaction \<Rightarrow> int \<Rightarrow>
   int list \<Rightarrow> db \<Rightarrow> cmd_tree \<Rightarrow> reply \<times> cmd_tree" where
  "sync_command sync_global sync_guild cfg stamp i gid guilds d t =
     (case i_guild i of
        None \<Rightarrow> (Inr [NEEDS_SERVER], t)
      | Some g \<Rightarrow>
          (case setup_sync sync_global sync_guild cfg d g gid (Some (i_roles i)) (Some (i_role_names i))
                  (Some (filter (guild_served cfg) guilds)) t of
             (Inl e, t') \<Rightarrow> (Inl e, t')
           | (Inr None, t') \<Rightarrow> (Inr [SETUP_UNAUTH_MSG], t')
           | (Inr (Some r), t') \<Rightarrow> (Inr [sync_text stamp r], t')))"

text \<open>Every registered command is listed in exactly one of the two scopes of \<open>command_sync\<close>.\<close>

lemma registered_scopes:
  "set registered_commands = set GLOBAL_COMMAND_NAMES \<union> set GUILD_COMMAND_NAMES"
  "set GLOBAL_COMMAND_NAMES \<inter> set GUILD_COMMAND_NAMES = {}"
  by (auto simp: registered_commands_def GLOBAL_COMMAND_NAMES_def GUILD_COMMAND_NAMES_def)

text \<open>After the bot is ready, a served guild has the administration commands whatever Discord answered, and
  an unserved one was given none; with guild-only registration no command is global.\<close>

lemma ready_scopes:
  assumes "t = on_ready sg sgu cfg guilds fresh_tree"
  shows "g \<in> set guilds \<Longrightarrow> guild_served cfg g \<Longrightarrow> set GUILD_COMMAND_NAMES \<subseteq> set (ct_guild t g)"
    "\<not> guild_served cfg g \<Longrightarrow> ct_guild t g = []"
    "DISCORD_GUILD_COMMANDS_ONLY cfg \<Longrightarrow> ct_global t = []"
proof -
  have a: "admin_commands (DISCORD_GUILD_COMMANDS_ONLY cfg) fresh_tree =
      filter (\<lambda>c. DISCORD_GUILD_COMMANDS_ONLY cfg \<or> c \<in> set GUILD_COMMAND_NAMES) registered_commands"
    by (simp add: admin_commands_def fresh_tree_def)
  note s = move_admin_simps [of "DISCORD_GUILD_COMMANDS_ONLY cfg" "filter (guild_served cfg) guilds" fresh_tree]
  show "g \<in> set guilds \<Longrightarrow> guild_served cfg g \<Longrightarrow> set GUILD_COMMAND_NAMES \<subseteq> set (ct_guild t g)"
    using registered_scopes(1) unfolding assms on_ready_def reconcile_tree s(3) a by auto
  show "ct_guild t g = []" if "\<not> guild_served cfg g"
  proof -
    have "set (ct_guild t g) = {}"
      using that unfolding assms on_ready_def reconcile_tree s(3) by (simp add: fresh_tree_def)
    then show ?thesis
      by simp
  qed
  show "DISCORD_GUILD_COMMANDS_ONLY cfg \<Longrightarrow> ct_global t = []"
    unfolding assms on_ready_def reconcile_tree s(1) a by (simp add: fresh_tree_def filter_empty_conv)
qed

lemma unserved_guild_is_left: "\<not> guild_served cfg g \<Longrightarrow> on_guild_join sg cfg g t = (JoinLeft, t)"
  by (simp add: on_guild_join_def)

end
