(* ===== verification/Help_Text.thy ===== *)
theory Help_Text
  imports Tool_Service
begin

text \<open>
  The \<open>/help\<close> text of \<open>bot/main.py\<close>: the walk of the command tree, the line of a command with its permission tag,
  and the distribution of the sections over messages.
\<close>

subsection \<open>The command tree\<close>

datatype cmd_node = CmdLeaf pystr "(pystr \<times> bool) list" pystr | CmdGroup pystr "cmd_node list"

fun node_name :: "cmd_node \<Rightarrow> pystr" where
  "node_name (CmdLeaf n ps desc) = n"
| "node_name (CmdGroup n cs) = n"

record help_entry =
  he_path :: "pystr list"
  he_args :: pystr
  he_desc :: pystr

definition param_text :: "pystr \<times> bool \<Rightarrow> pystr" where
  "param_text p = (if snd p then 60 # fst p @ [62] else 91 # fst p @ [93])"

fun walk_recursive :: "pystr list \<Rightarrow> cmd_node \<Rightarrow> help_entry list" where
  "walk_recursive path (CmdLeaf n ps desc) =
     [\<lparr>he_path = path @ [n], he_args = join_with space (map param_text ps), he_desc = desc\<rparr>]"
| "walk_recursive path (CmdGroup n cs) = concat (map (walk_recursive (path @ [n])) cs)"

text \<open>The commands of the guild replace global ones of the same name, in place.\<close>

definition walk_commands :: "cmd_node list \<Rightarrow> cmd_node list option \<Rightarrow> help_entry list" where
  "walk_commands global guild =
     (let by_name = fold (\<lambda>c m. AList.update (node_name c) c m) (global @ (case guild of None \<Rightarrow> [] | Some cs \<Rightarrow> cs)) []
      in concat (map (\<lambda>(n, c). walk_recursive [] c) by_name))"

subsection \<open>Lines\<close>

definition HELP_PERM_TAGS :: "(pystr list \<times> pystr) list" where
  "HELP_PERM_TAGS = map (\<lambda>(p, t). (map u p, u t))
     [([''root'', ''alias'', ''set''], ''admin''), ([''root'', ''alias'', ''remove''], ''admin''),
      ([''root'', ''add''], ''admin if alias''), ([''tool'', ''register''], ''platform admin''),
      ([''tool'', ''update''], ''platform admin''), ([''tool'', ''enable''], ''platform admin''),
      ([''tool'', ''disable''], ''platform admin''), ([''tool'', ''remove''], ''platform admin''),
      ([''setup'', ''map'', ''set''], ''admin''), ([''setup'', ''map'', ''remove''], ''admin''),
      ([''setup'', ''admin-role'', ''set''], ''admin''), ([''session'', ''config'', ''set''], ''admin''),
      ([''session'', ''config'', ''get''], ''admin''), ([''session'', ''config'', ''clear''], ''admin''),
      ([''session'', ''config'', ''clear-all''], ''admin''), ([''invite''], ''owner+''), ([''session'', ''invite''], ''owner+''),
      ([''stop''], ''owner+''), ([''archive''], ''owner+''), ([''session'', ''archive''], ''owner+''), ([''resume''], ''owner+''),
      ([''session'', ''resume''], ''owner+''), ([''restart''], ''owner+''), ([''session'', ''restart''], ''owner+''),
      ([''send''], ''member+'')]"

definition help_truncate :: "nat \<Rightarrow> pystr \<Rightarrow> pystr" where
  "help_truncate limit s = (if length s \<le> limit then s else take (limit - 1) s @ [8230])"

definition HELP_DESC_MAX :: nat where "HELP_DESC_MAX = 60"
definition HELP_CHUNK_LIMIT :: nat where "HELP_CHUNK_LIMIT = 1900"

definition format_leaf_line :: "help_entry \<Rightarrow> pystr \<Rightarrow> pystr" where
  "format_leaf_line e indent =
     rstrip_by is_space (indent @ last (he_path e) @ space # he_args e) @ u ''    '' @
     help_truncate HELP_DESC_MAX (he_desc e) @
     (case map_of HELP_PERM_TAGS (he_path e) of None \<Rightarrow> [] | Some t \<Rightarrow> u ''  ['' @ t @ u '']'')"

subsection \<open>Sections and chunks\<close>

definition help_sections :: "help_entry list \<Rightarrow> pystr list list" where
  "help_sections leaves =
     (let top = sort_key he_path (filter (\<lambda>e. length (he_path e) = 1) leaves);
          deep = filter (\<lambda>e. length (he_path e) \<noteq> 1) leaves;
          names = sort (remdups (map (\<lambda>e. hd (he_path e)) deep));
          indent = (\<lambda>e. let mid = butlast (tl (he_path e))
                        in u ''  '' @ (if mid \<noteq> [] then join_with dot mid @ u '' '' else []))
      in (if top \<noteq> [] then [map (\<lambda>e. format_leaf_line e (u ''/'')) top] else []) @
         map (\<lambda>n. (slash # n) # map (\<lambda>e. format_leaf_line e (indent e)) (sort_key he_path (filter (\<lambda>e. hd (he_path e) = n) deep)))
           names)"

definition WRAPPER_OVERHEAD :: nat where "WRAPPER_OVERHEAD = 8"

definition HELP_HEADER :: pystr where "HELP_HEADER = u ''Discode commands''"

text \<open>\<open>"\\n\\n".join(lines)\<close> in a code block.\<close>

fun join_blank :: "pystr list \<Rightarrow> pystr" where
  "join_blank [] = []"
| "join_blank [x] = x"
| "join_blank (x # y # zs) = x @ [nl, nl] @ join_blank (y # zs)"

definition wrap_block :: "pystr list \<Rightarrow> pystr" where
  "wrap_block ls = u ''```'' @ nl # join_blank ls @ nl # u ''```''"

fun help_loop :: "pystr list \<Rightarrow> pystr list \<Rightarrow> nat \<Rightarrow> pystr list" where
  "help_loop [] cur len = (if cur \<noteq> [] then [wrap_block cur] else [])"
| "help_loop (s # ss) cur len =
     (let section_len = length s + 2
      in if HELP_CHUNK_LIMIT < len + section_len \<and> 1 < length cur
         then wrap_block cur # help_loop ss [s] (WRAPPER_OVERHEAD + section_len)
         else help_loop ss (cur @ [s]) (len + section_len))"

definition render_help_text :: "cmd_node list \<Rightarrow> cmd_node list option \<Rightarrow> pystr list" where
  "render_help_text global guild =
     help_loop (map (join_with nl) (help_sections (walk_commands global guild))) [HELP_HEADER]
       (length HELP_HEADER + WRAPPER_OVERHEAD)"

text \<open>The command \<open>/help\<close>: the messages it sends, the first as the response and the others as follow-ups.\<close>

definition help_command :: "cmd_node list \<Rightarrow> cmd_node list option \<Rightarrow> pystr list" where
  "help_command global guild =
     (let chunks = render_help_text global guild
      in if chunks = [] then [u ''No commands registered.''] else chunks)"

subsection \<open>What the chunks hold\<close>

definition blank_len :: "pystr list \<Rightarrow> nat" where
  "blank_len ls = sum_list (map (\<lambda>s. length s + 2) ls)"

lemma length_join_blank: "ls \<noteq> [] \<Longrightarrow> length (join_blank ls) + 2 = blank_len ls"
  by (induction ls rule: join_blank.induct) (auto simp: blank_len_def)

lemma length_wrap_block: "ls \<noteq> [] \<Longrightarrow> length (wrap_block ls) + 2 = blank_len ls + 8"
  using length_join_blank [of ls] by (simp add: wrap_block_def)

text \<open>The unwrapped chunks: the loop only cuts the list of sections.\<close>

fun help_cut :: "pystr list \<Rightarrow> pystr list \<Rightarrow> nat \<Rightarrow> pystr list list" where
  "help_cut [] cur len = (if cur \<noteq> [] then [cur] else [])"
| "help_cut (s # ss) cur len =
     (if HELP_CHUNK_LIMIT < len + (length s + 2) \<and> 1 < length cur
      then cur # help_cut ss [s] (WRAPPER_OVERHEAD + (length s + 2))
      else help_cut ss (cur @ [s]) (len + (length s + 2)))"

lemma help_loop_cut: "help_loop ss cur len = map wrap_block (help_cut ss cur len)"
  by (induction ss arbitrary: cur len) (simp_all add: Let_def)

lemma help_cut_concat: "concat (help_cut ss cur len) = cur @ ss"
  by (induction ss arbitrary: cur len) simp_all

text \<open>
  The counter \<open>len\<close> is at least the length of the chunk so far, less two characters for the first chunk, and
  a chunk grows past the limit only while it has one line.
\<close>

lemma help_cut_bound:
  assumes "\<forall>s \<in> set ss. length s \<le> m" "\<forall>s \<in> set cur. length s \<le> m" "2 * m + 12 \<le> HELP_CHUNK_LIMIT"
    "blank_len cur + 6 \<le> len" "length cur \<le> 1 \<or> len \<le> HELP_CHUNK_LIMIT" "length cur \<le> 1 \<longrightarrow> len \<le> blank_len cur + 8"
    "c \<in> set (help_cut ss cur len)"
  shows "c \<noteq> [] \<and> blank_len c + 6 \<le> HELP_CHUNK_LIMIT"
  using assms
proof (induction ss arbitrary: cur len)
  case Nil
  have one: "length cur \<le> 1 \<Longrightarrow> blank_len cur \<le> m + 2"
    using Nil.prems(2) by (cases cur) (auto simp: blank_len_def)
  show ?case
    using Nil.prems one by (auto split: if_splits)
next
  case (Cons s ss)
  have one: "length cur \<le> 1 \<Longrightarrow> blank_len cur \<le> m + 2"
    using Cons.prems(2) by (cases cur) (auto simp: blank_len_def)
  show ?case
  proof (cases "HELP_CHUNK_LIMIT < len + (length s + 2) \<and> 1 < length cur")
    case True
    then consider "c = cur" | "c \<in> set (help_cut ss [s] (WRAPPER_OVERHEAD + (length s + 2)))"
      using Cons.prems(7) by auto
    then show ?thesis
    proof cases
      case 1
      then show ?thesis
        using True Cons.prems(4,5) by auto
    next
      case 2
      show ?thesis
        by (rule Cons.IH [OF _ _ _ _ _ _ 2])
          (use Cons.prems(1,3) in \<open>auto simp: blank_len_def WRAPPER_OVERHEAD_def\<close>)
    qed
  next
    case False
    have l: "len + (length s + 2) \<le> HELP_CHUNK_LIMIT"
    proof (cases "1 < length cur")
      case True
      then show ?thesis
        using False by simp
    next
      case small: False
      have "length s \<le> m"
        using Cons.prems(1) by simp
      then show ?thesis
        using small one Cons.prems(3,6) by simp
    qed
    have c: "c \<in> set (help_cut ss (cur @ [s]) (len + (length s + 2)))"
      using Cons.prems(7) False by auto
    show ?thesis
      by (rule Cons.IH [OF _ _ _ _ _ _ c])
        (use Cons.prems(1,2,3,4,6) l in \<open>auto simp: blank_len_def\<close>)
  qed
qed

lemma sections_hold:
  assumes "e \<in> set leaves"
  shows "\<exists>body \<in> set (help_sections leaves). \<exists>indent. format_leaf_line e indent \<in> set body"
proof (cases "length (he_path e) = 1")
  case True
  let ?top = "sort_key he_path (filter (\<lambda>e. length (he_path e) = 1) leaves)"
  have e: "e \<in> set ?top"
    using assms True by simp
  then have "?top \<noteq> []"
    by (metis empty_iff empty_set)
  then have "map (\<lambda>e. format_leaf_line e (u ''/'')) ?top \<in> set (help_sections leaves)"
    unfolding help_sections_def Let_def by (simp only: if_True set_append list.set Un_iff insert_iff simp_thms)
  then show ?thesis
    using e by (intro bexI exI) auto
next
  case False
  let ?deep = "filter (\<lambda>e. length (he_path e) \<noteq> 1) leaves"
  let ?g = "sort_key he_path (filter (\<lambda>x. hd (he_path x) = hd (he_path e)) ?deep)"
  define indent :: "help_entry \<Rightarrow> pystr" where "indent = (\<lambda>e. let mid = butlast (tl (he_path e))
     in u ''  '' @ (if mid \<noteq> [] then join_with dot mid @ u '' '' else []))"
  have n: "hd (he_path e) \<in> set (sort (remdups (map (\<lambda>e. hd (he_path e)) ?deep)))"
    using assms False by auto
  have "(slash # hd (he_path e)) # map (\<lambda>e. format_leaf_line e (indent e)) ?g \<in> set (help_sections leaves)"
    using n unfolding help_sections_def Let_def indent_def by auto
  moreover have "e \<in> set ?g"
    using assms False by simp
  ultimately show ?thesis
    by (intro bexI exI [of _ "indent e"]) auto
qed

text \<open>The help text is complete and cut as intended: the chunks, unwrapped, are the header and the sections in order,
  every command of the tree has its line in one of the sections, and when no section is longer than 944
  characters no chunk is longer than the limit of 1900 that leaves room below Discord's 2000.\<close>

theorem help_text_is_complete:
  assumes "leaves = walk_commands global guild" "secs = map (join_with nl) (help_sections leaves)"
  shows "(\<exists>cs. render_help_text global guild = map wrap_block cs \<and> concat cs = HELP_HEADER # secs) \<and>
    (\<forall>e \<in> set leaves. \<exists>body \<in> set (help_sections leaves). \<exists>indent. format_leaf_line e indent \<in> set body) \<and>
    ((\<forall>s \<in> set secs. length s \<le> 944) \<longrightarrow> (\<forall>c \<in> set (render_help_text global guild). length c \<le> HELP_CHUNK_LIMIT))"
proof -
  let ?cs = "help_cut secs [HELP_HEADER] (length HELP_HEADER + WRAPPER_OVERHEAD)"
  have r: "render_help_text global guild = map wrap_block ?cs"
    using assms by (simp add: render_help_text_def help_loop_cut)
  have "length (wrap_block c) \<le> HELP_CHUNK_LIMIT" if s: "\<forall>s \<in> set secs. length s \<le> 944" and c: "c \<in> set ?cs" for c
  proof -
    have "c \<noteq> [] \<and> blank_len c + 6 \<le> HELP_CHUNK_LIMIT"
      by (rule help_cut_bound [OF s _ _ _ _ _ c])
        (simp_all add: HELP_HEADER_def HELP_CHUNK_LIMIT_def WRAPPER_OVERHEAD_def blank_len_def)
    then show ?thesis
      using length_wrap_block [of c] by simp
  qed
  then show ?thesis
    using r help_cut_concat [of secs "[HELP_HEADER]"] sections_hold [of _ leaves] by auto
qed

theorem help_text_is_complete_witness:
  "\<exists>cs. render_help_text [CmdLeaf (u ''help'') [] (u ''Help'')] None = map wrap_block cs \<and> length (concat cs) = 2"
proof -
  let ?l = "walk_commands [CmdLeaf (u ''help'') [] (u ''Help'')] None"
  have "length (help_sections ?l) = 1"
    by (simp add: walk_commands_def help_sections_def)
  then show ?thesis
    using help_text_is_complete [OF refl refl, of "[CmdLeaf (u ''help'') [] (u ''Help'')]" None] by fastforce
qed

text \<open>
  Without that bound the limit is missed: the test \<open>len(current_lines) > 1\<close> lets a chunk after the first, which
  has no header, take a second section that does not fit.
\<close>

lemma help_chunk_overflow:
  assumes "length a = 1200" "length b = 1200" "length c = 1200"
  shows "\<exists>chunk \<in> set (help_loop [a, b, c] [HELP_HEADER] (length HELP_HEADER + WRAPPER_OVERHEAD)). 2000 < length chunk"
  using assms length_wrap_block [of "[b, c]"]
  by (simp add: Let_def HELP_HEADER_def HELP_CHUNK_LIMIT_def WRAPPER_OVERHEAD_def blank_len_def)

end
