(* ===== verification/Input_Admission.thy ===== *)
theory Input_Admission
  imports Runner_Main
begin

text \<open>
  \<open>_consume_input_stream\<close> of \<open>runner/main.py\<close>: the admission of input jobs. The loop reads messages in
  rounds, makes a task of each, chains the tasks of a session, bounds the handlers that run and the tasks
  that wait, and drains when it is told to stop. Tasks are interleaved by the event loop in any order: a
  run is a list of events, each of which is one stretch of code between two awaits.
\<close>

subsection \<open>The state of the loop\<close>

datatype task_phase = Waiting | Handling | Over

text \<open>A task is named by its position in \<open>ad_tasks\<close>; \<open>w_prev\<close> is the task it awaits first.\<close>

record input_task =
  w_mid :: nat
  w_sid :: pystr
  w_prev :: "nat option"
  w_phase :: task_phase

text \<open>
  \<open>ad_active\<close>, \<open>ad_tails\<close> and \<open>ad_inflight\<close> are the variables of the function, \<open>ad_batch\<close> the messages of the
  round that are still to be treated, \<open>ad_stop\<close> the event \<open>stop\<close>, \<open>ad_closed\<close> whether the function has
  left its loop and cancelled what was left, \<open>ad_group\<close> the consumer group. \<open>ad_started\<close> records the tasks
  in the order in which their handlers were entered.
\<close>

record admission =
  ad_tasks :: "input_task list"
  ad_active :: "nat list"
  ad_tails :: "pystr \<rightharpoonup> nat"
  ad_inflight :: "nat set"
  ad_batch :: "(nat \<times> fields) list"
  ad_stop :: bool
  ad_closed :: bool
  ad_group :: "fields cgroup"
  ad_started :: "nat list"

definition new_admission :: "fields cgroup \<Rightarrow> admission" where
  "new_admission g =
     \<lparr>ad_tasks = [], ad_active = [], ad_tails = Map.empty, ad_inflight = {}, ad_batch = [], ad_stop = False,
      ad_closed = False, ad_group = g, ad_started = []\<rparr>"

definition queue_capacity :: "nat \<Rightarrow> nat" where
  "queue_capacity concurrency = concurrency * 8"

text \<open>\<open>str(json.loads(fields.get("payload", "{}"))["session_id"])\<close>, or an error.\<close>

definition stream_session :: "fields \<Rightarrow> pystr option" where
  "stream_session f =
     (case fd_payload f of
        Some (Object p) \<Rightarrow> map_option jstr (pget ''session_id'' p)
      | _ \<Rightarrow> None)"

definition task_over :: "admission \<Rightarrow> nat \<Rightarrow> bool" where
  "task_over a i = (w_phase (ad_tasks a ! i) = Over)"

definition handlers_running :: "admission \<Rightarrow> nat" where
  "handlers_running a = length (filter (\<lambda>t. w_phase t = Handling) (ad_tasks a))"

definition set_phase :: "nat \<Rightarrow> task_phase \<Rightarrow> admission \<Rightarrow> admission" where
  "set_phase i p a = a\<lparr>ad_tasks := (ad_tasks a)[i := (ad_tasks a ! i)\<lparr>w_phase := p\<rparr>]\<rparr>"

definition leave_active :: "admission \<Rightarrow> admission" where
  "leave_active a = a\<lparr>ad_active := filter (\<lambda>i. \<not> task_over a i) (ad_active a)\<rparr>"

definition prune_done :: "admission \<Rightarrow> admission" where
  "prune_done a =
     (leave_active a)\<lparr>ad_tails := (\<lambda>sid. case ad_tails a sid of
        None \<Rightarrow> None | Some i \<Rightarrow> if task_over a i then None else Some i)\<rparr>"

text \<open>The end of \<open>process\<close>: the task is over and its message is no longer in flight.\<close>

definition end_task :: "nat \<Rightarrow> admission \<Rightarrow> admission" where
  "end_task i a = (set_phase i Over a)\<lparr>ad_inflight := ad_inflight a - {w_mid (ad_tasks a ! i)}\<rparr>"

text \<open>The \<open>finally\<close> clause: every task that is left is cancelled.\<close>

definition close_loop :: "admission \<Rightarrow> admission" where
  "close_loop a =
     a\<lparr>ad_tasks := map (\<lambda>t. t\<lparr>w_phase := Over\<rparr>) (ad_tasks a), ad_inflight := {}, ad_closed := True\<rparr>"

subsection \<open>Its steps\<close>

datatype admission_event =
    Read_Round "nat \<Rightarrow> bool"          \<comment> \<open>which pending messages have been idle for long enough\<close>
  | Admit bool                        \<comment> \<open>whether a dead letter can be written\<close>
  | Start_Task nat
  | Finish_Task nat "bool result" bool \<comment> \<open>what the handler did, and whether the message can be acknowledged\<close>
  | Stop_Signal
  | Close_Loop

text \<open>One round: what is over leaves, and messages are read unless the queue is full.\<close>

definition read_round :: "nat \<Rightarrow> (nat \<Rightarrow> bool) \<Rightarrow> admission \<Rightarrow> admission option" where
  "read_round n idle a =
     (if ad_stop a \<or> ad_batch a \<noteq> [] then None
      else
        (let a = prune_done a
         in if queue_capacity n \<le> length (ad_active a) then None
            else
              (case claim_pending idle (ad_group a) of
                 (m # ms, g) \<Rightarrow> Some (a\<lparr>ad_batch := m # ms, ad_group := g\<rparr>)
               | ([], g) \<Rightarrow>
                   (let (ms, g) = read_new (queue_capacity n - length (ad_active a)) g
                    in Some (a\<lparr>ad_batch := ms, ad_group := g\<rparr>)))))"

text \<open>One message of the round.\<close>

definition add_task :: "nat \<Rightarrow> pystr \<Rightarrow> admission \<Rightarrow> admission" where
  "add_task mid sid a =
     (let i = length (ad_tasks a)
      in a\<lparr>ad_tasks := ad_tasks a @ [\<lparr>w_mid = mid, w_sid = sid, w_prev = ad_tails a sid, w_phase = Waiting\<rparr>],
           ad_active := ad_active a @ [i], ad_tails := (ad_tails a)(sid \<mapsto> i),
           ad_inflight := insert mid (ad_inflight a)\<rparr>)"

definition admit_message :: "nat \<Rightarrow> bool \<Rightarrow> admission \<Rightarrow> admission option" where
  "admit_message n redis_ok a =
     (case ad_batch a of
        [] \<Rightarrow> None
      | (mid, f) # rest \<Rightarrow>
          if mid \<in> ad_inflight a then Some (a\<lparr>ad_batch := rest\<rparr>)
          else
            (let a = (if queue_capacity n \<le> length (ad_active a) then leave_active a else a)
             in if queue_capacity n \<le> length (ad_active a) then None
                else
                  (case stream_session f of
                     None \<Rightarrow>
                       if redis_ok then Some (a\<lparr>ad_batch := rest, ad_group := dead_letter mid f (ad_group a)\<rparr>)
                       else Some (close_loop a)
                   | Some sid \<Rightarrow> Some (add_task mid sid (a\<lparr>ad_batch := rest\<rparr>)))))"

text \<open>A task that has awaited its predecessor takes a slot, and gives up when the loop is stopping.\<close>

definition start_task :: "nat \<Rightarrow> nat \<Rightarrow> admission \<Rightarrow> admission option" where
  "start_task n i a =
     (if length (ad_tasks a) \<le> i \<or> w_phase (ad_tasks a ! i) \<noteq> Waiting then None
      else if (case w_prev (ad_tasks a ! i) of None \<Rightarrow> False | Some j \<Rightarrow> \<not> task_over a j) then None
      else if n \<le> handlers_running a then None
      else if ad_stop a then Some (end_task i a)
      else Some ((set_phase i Handling a)\<lparr>ad_started := ad_started a @ [i]\<rparr>))"

definition finish_task :: "nat \<Rightarrow> bool result \<Rightarrow> bool \<Rightarrow> admission \<Rightarrow> admission option" where
  "finish_task i handled redis_ok a =
     (if length (ad_tasks a) \<le> i \<or> w_phase (ad_tasks a ! i) \<noteq> Handling then None
      else
        Some ((end_task i a)\<lparr>ad_group :=
          (if handled = Inr True \<and> redis_ok then ack (w_mid (ad_tasks a ! i)) (ad_group a) else ad_group a)\<rparr>))"

fun admission_step :: "nat \<Rightarrow> admission_event \<Rightarrow> admission \<Rightarrow> admission option" where
  "admission_step n e a =
     (if ad_closed a then None
      else
        (case e of
           Read_Round idle \<Rightarrow> read_round n idle a
         | Admit redis_ok \<Rightarrow> admit_message n redis_ok a
         | Start_Task i \<Rightarrow> start_task n i a
         | Finish_Task i handled redis_ok \<Rightarrow> finish_task i handled redis_ok a
         | Stop_Signal \<Rightarrow> Some (a\<lparr>ad_stop := True\<rparr>)
         | Close_Loop \<Rightarrow> Some (close_loop a)))"

fun admission_run :: "nat \<Rightarrow> admission_event list \<Rightarrow> admission \<Rightarrow> admission option" where
  "admission_run n [] a = Some a"
| "admission_run n (e # es) a = (case admission_step n e a of None \<Rightarrow> None | Some a \<Rightarrow> admission_run n es a)"

subsection \<open>What the loop keeps\<close>

abbreviation phase_at :: "input_task list \<Rightarrow> nat \<Rightarrow> task_phase" where
  "phase_at ts i \<equiv> w_phase (ts ! i)"

abbreviation sid_at :: "input_task list \<Rightarrow> nat \<Rightarrow> pystr" where
  "sid_at ts i \<equiv> w_sid (ts ! i)"

text \<open>Tasks of a session are chained in the order of their admission, and leave the queue in that order.\<close>

definition earlier_over :: "input_task list \<Rightarrow> nat \<Rightarrow> bool" where
  "earlier_over ts i \<longleftrightarrow> (\<forall>j < i. sid_at ts j = sid_at ts i \<longrightarrow> phase_at ts j = Over)"

definition linked :: "input_task list \<Rightarrow> nat \<Rightarrow> bool" where
  "linked ts i \<longleftrightarrow>
     (case w_prev (ts ! i) of
        None \<Rightarrow> earlier_over ts i
      | Some p \<Rightarrow> p < i \<and> sid_at ts p = sid_at ts i \<and> (\<forall>j. p < j \<and> j < i \<longrightarrow> sid_at ts j \<noteq> sid_at ts i))"

definition chain_ok :: "input_task list \<Rightarrow> bool" where
  "chain_ok ts \<longleftrightarrow>
     (\<forall>i < length ts. linked ts i \<and> (phase_at ts i \<noteq> Waiting \<longrightarrow> earlier_over ts i))"

definition tail_ok :: "input_task list \<Rightarrow> pystr \<Rightarrow> nat option \<Rightarrow> bool" where
  "tail_ok ts sid tail \<longleftrightarrow>
     (case tail of
        None \<Rightarrow> \<forall>j < length ts. sid_at ts j = sid \<longrightarrow> phase_at ts j = Over
      | Some i \<Rightarrow> i < length ts \<and> sid_at ts i = sid \<and> (\<forall>j. i < j \<and> j < length ts \<longrightarrow> sid_at ts j \<noteq> sid))"

definition tails_ok :: "input_task list \<Rightarrow> (pystr \<rightharpoonup> nat) \<Rightarrow> bool" where
  "tails_ok ts tails \<longleftrightarrow> (\<forall>sid. tail_ok ts sid (tails sid))"

definition active_ok :: "nat \<Rightarrow> input_task list \<Rightarrow> nat list \<Rightarrow> bool" where
  "active_ok n ts act \<longleftrightarrow>
     length act \<le> queue_capacity n \<and> distinct act \<and> set act \<subseteq> {..<length ts} \<and>
     (\<forall>i < length ts. phase_at ts i \<noteq> Over \<longrightarrow> i \<in> set act)"

definition inflight_ok :: "input_task list \<Rightarrow> nat set \<Rightarrow> bool" where
  "inflight_ok ts mids \<longleftrightarrow>
     mids = w_mid ` set (filter (\<lambda>t. w_phase t \<noteq> Over) ts) \<and>
     (\<forall>i j. i < j \<and> j < length ts \<and> phase_at ts i \<noteq> Over \<and> phase_at ts j \<noteq> Over \<longrightarrow> w_mid (ts ! i) \<noteq> w_mid (ts ! j))"

definition started_ok :: "input_task list \<Rightarrow> nat list \<Rightarrow> bool" where
  "started_ok ts st \<longleftrightarrow>
     (\<forall>i \<in> set st. i < length ts \<and> phase_at ts i \<noteq> Waiting) \<and>
     (\<forall>sid. sorted_wrt (<) (filter (\<lambda>i. sid_at ts i = sid) st))"

definition admission_ok :: "nat \<Rightarrow> admission \<Rightarrow> bool" where
  "admission_ok n a \<longleftrightarrow>
     chain_ok (ad_tasks a) \<and> tails_ok (ad_tasks a) (ad_tails a) \<and> active_ok n (ad_tasks a) (ad_active a) \<and>
     inflight_ok (ad_tasks a) (ad_inflight a) \<and> started_ok (ad_tasks a) (ad_started a) \<and> handlers_running a \<le> n"

text \<open>A task whose predecessor is over is the first of its session that is not over.\<close>

lemma ready_first:
  assumes "chain_ok ts" "i < length ts" "case w_prev (ts ! i) of None \<Rightarrow> True | Some p \<Rightarrow> phase_at ts p = Over"
  shows "earlier_over ts i"
proof (cases "w_prev (ts ! i)")
  case None
  then show ?thesis
    using assms by (auto simp: chain_ok_def linked_def)
next
  case (Some p)
  then have p: "p < i" "sid_at ts p = sid_at ts i" "\<forall>j. p < j \<and> j < i \<longrightarrow> sid_at ts j \<noteq> sid_at ts i" "phase_at ts p = Over"
    using assms by (auto simp: chain_ok_def linked_def)
  then have "earlier_over ts p"
    using assms(1,2) by (simp add: chain_ok_def)
  then show ?thesis
    using p by (metis earlier_over_def linorder_neqE_nat)
qed

text \<open>The phase of one task moves on.\<close>

definition moved :: "input_task list \<Rightarrow> nat \<Rightarrow> task_phase \<Rightarrow> input_task list" where
  "moved ts i p = ts[i := (ts ! i)\<lparr>w_phase := p\<rparr>]"

lemma moved_nth [simp]:
  "length (moved ts i p) = length ts"
  "sid_at (moved ts i p) j = sid_at ts j"
  "w_mid (moved ts i p ! j) = w_mid (ts ! j)"
  "w_prev (moved ts i p ! j) = w_prev (ts ! j)"
  "i < length ts \<Longrightarrow> phase_at (moved ts i p) j = (if i = j then p else phase_at ts j)"
proof -
  have "moved ts i p ! j = (if i = j \<and> i < length ts then (ts ! i)\<lparr>w_phase := p\<rparr> else ts ! j)"
    by (cases "i < length ts") (simp_all add: moved_def nth_list_update list_update_beyond)
  then show "sid_at (moved ts i p) j = sid_at ts j" "w_mid (moved ts i p ! j) = w_mid (ts ! j)"
    "w_prev (moved ts i p ! j) = w_prev (ts ! j)"
    "i < length ts \<Longrightarrow> phase_at (moved ts i p) j = (if i = j then p else phase_at ts j)"
    by simp_all
qed (simp add: moved_def)

lemma moved_earlier:
  assumes "i < length ts" "phase_at ts i \<noteq> Over" "earlier_over ts j"
  shows "earlier_over (moved ts i p) j"
  using assms by (auto simp: earlier_over_def)

lemma moved_chain:
  assumes "chain_ok ts" "i < length ts" "phase_at ts i \<noteq> Over" "earlier_over ts i"
  shows "chain_ok (moved ts i p)"
  unfolding chain_ok_def
proof (intro allI impI)
  fix k assume k: "k < length (moved ts i p)"
  have "linked ts k" "phase_at ts k \<noteq> Waiting \<longrightarrow> earlier_over ts k"
    using assms(1) k by (auto simp: chain_ok_def)
  then show "linked (moved ts i p) k \<and> (phase_at (moved ts i p) k \<noteq> Waiting \<longrightarrow> earlier_over (moved ts i p) k)"
    using moved_earlier [OF assms(2,3)] assms(2,4) by (auto simp: linked_def split: option.splits)
qed

lemma moved_tails:
  assumes "tails_ok ts tails" "i < length ts" "phase_at ts i \<noteq> Over"
  shows "tails_ok (moved ts i p) tails"
proof -
  have "tail_ok (moved ts i p) sid (tails sid)" for sid
    using assms(1) [unfolded tails_ok_def, rule_format, of sid] assms(2,3)
    by (auto simp: tail_ok_def split: option.splits)
  then show ?thesis
    by (simp add: tails_ok_def)
qed

lemma moved_active:
  assumes "active_ok n ts act" "i < length ts" "phase_at ts i \<noteq> Over"
  shows "active_ok n (moved ts i p) act"
  using assms by (auto simp: active_ok_def)

lemma moved_started:
  assumes "started_ok ts st" "i < length ts" "p \<noteq> Waiting"
  shows "started_ok (moved ts i p) st"
  using assms by (auto simp: started_ok_def)

lemma moved_set:
  assumes "i < length ts"
  shows "t \<in> set (moved ts i p) \<longleftrightarrow>
    (\<exists>j < length ts. t = (if j = i then (ts ! i)\<lparr>w_phase := p\<rparr> else ts ! j))"
  using assms unfolding moved_def by (fastforce simp: in_set_conv_nth nth_list_update)

text \<open>A handler is entered.\<close>

lemma enter_started:
  assumes "started_ok ts st" "chain_ok ts" "i < length ts" "phase_at ts i = Waiting"
  shows "started_ok (moved ts i Handling) (st @ [i])"
proof -
  have "k < i" if "k \<in> set st" "sid_at ts k = sid_at ts i" for k
  proof -
    have k: "k < length ts" "phase_at ts k \<noteq> Waiting"
      using assms(1) that by (auto simp: started_ok_def)
    then have "earlier_over ts k"
      using assms(2) by (simp add: chain_ok_def)
    then have "\<not> i < k"
      using assms(4) that(2) by (auto simp: earlier_over_def)
    then show ?thesis
      using k assms(4) by (cases "k = i") auto
  qed
  then show ?thesis
    using moved_started [OF assms(1,3), of Handling] assms(3)
    by (auto simp: started_ok_def sorted_wrt_append)
qed

lemma open_mids:
  "w_mid ` set (filter (\<lambda>t. w_phase t \<noteq> Over) ts) = (\<lambda>j. w_mid (ts ! j)) ` {j. j < length ts \<and> phase_at ts j \<noteq> Over}"
  by (force simp: in_set_conv_nth)

lemma moved_inflight:
  assumes "inflight_ok ts mids" "i < length ts" "phase_at ts i \<noteq> Over"
  shows "inflight_ok (moved ts i p) (if p = Over then mids - {w_mid (ts ! i)} else mids)"
proof -
  have other: "w_mid (ts ! j) \<noteq> w_mid (ts ! i)" if "j < length ts" "j \<noteq> i" "phase_at ts j \<noteq> Over" for j
    using assms that by (metis inflight_ok_def linorder_neqE_nat)
  let ?open = "{j. j < length ts \<and> phase_at ts j \<noteq> Over}"
  have mids: "mids = (\<lambda>j. w_mid (ts ! j)) ` ?open"
    using assms(1) by (simp only: inflight_ok_def open_mids)
  have "{j. j < length ts \<and> (if i = j then p else phase_at ts j) \<noteq> Over} = (if p = Over then ?open - {i} else ?open)"
    using assms(2,3) by auto
  then have "(if p = Over then mids - {w_mid (ts ! i)} else mids) =
      (\<lambda>j. w_mid (ts ! j)) ` {j. j < length ts \<and> (if i = j then p else phase_at ts j) \<noteq> Over}"
    using other by (auto simp: mids)
  moreover have "w_mid (ts ! k) \<noteq> w_mid (ts ! j)"
    if "k < j" "j < length ts" "phase_at (moved ts i p) k \<noteq> Over" "phase_at (moved ts i p) j \<noteq> Over" for k j
  proof -
    have open_k: "phase_at ts k \<noteq> Over" "phase_at ts j \<noteq> Over"
      using that assms(2,3) by (auto split: if_splits)
    then show ?thesis
      using assms(1) that unfolding inflight_ok_def by blast
  qed
  ultimately show ?thesis
    unfolding inflight_ok_def open_mids using assms(2) by auto
qed

lemma running_moved:
  assumes "i < length (ad_tasks a)"
  shows "handlers_running (a\<lparr>ad_tasks := moved (ad_tasks a) i p\<rparr>) + (if phase_at (ad_tasks a) i = Handling then 1 else 0) =
    handlers_running a + (if p = Handling then 1 else 0)"
proof -
  let ?h = "\<lambda>t. w_phase t = Handling"
  have "length (filter ?h (ad_tasks a)) =
      length (filter ?h (take i (ad_tasks a))) + (if ?h (ad_tasks a ! i) then 1 else 0) + length (filter ?h (drop (Suc i) (ad_tasks a)))"
    using arg_cong [OF id_take_nth_drop [OF assms], of "\<lambda>xs. length (filter ?h xs)"] by simp
  then show ?thesis
    using assms by (simp add: handlers_running_def moved_def upd_conv_take_nth_drop)
qed

text \<open>The queue itself: leaving, pruning and adding.\<close>

lemma leave_ok: "admission_ok n a \<Longrightarrow> admission_ok n (leave_active a)"
  unfolding admission_ok_def leave_active_def active_ok_def
  by (auto simp: task_over_def handlers_running_def intro: order_trans [OF length_filter_le])

lemma tail_over:
  assumes "chain_ok ts" "tail_ok ts sid (Some i)" "phase_at ts i = Over"
  shows "tail_ok ts sid None"
proof -
  have i: "i < length ts" "sid_at ts i = sid" "\<forall>j. i < j \<and> j < length ts \<longrightarrow> sid_at ts j \<noteq> sid"
    using assms(2) by (auto simp: tail_ok_def)
  then have "earlier_over ts i"
    using assms(1,3) by (simp add: chain_ok_def)
  then have "phase_at ts j = Over" if "j < length ts" "sid_at ts j = sid" for j
    using that i assms(3) by (metis earlier_over_def linorder_neqE_nat)
  then show ?thesis
    by (simp add: tail_ok_def)
qed

lemma tails_prune:
  assumes "tails_ok (ad_tasks a) (ad_tails a)" "chain_ok (ad_tasks a)"
  shows "tails_ok (ad_tasks a) (ad_tails (prune_done a))"
  unfolding tails_ok_def
proof
  fix sid
  have "tail_ok (ad_tasks a) sid (ad_tails a sid)"
    using assms(1) by (simp add: tails_ok_def)
  then show "tail_ok (ad_tasks a) sid (ad_tails (prune_done a) sid)"
    using tail_over [OF assms(2)] by (auto simp: prune_done_def task_over_def split: option.split)
qed

lemma prune_ok:
  assumes "admission_ok n a"
  shows "admission_ok n (prune_done a)"
proof -
  have "admission_ok n (leave_active a)"
    by (rule leave_ok [OF assms])
  then show ?thesis
    using tails_prune [of a] assms by (simp add: admission_ok_def prune_done_def leave_active_def handlers_running_def)
qed

lemma earlier_snoc [simp]: "i < length ts \<Longrightarrow> earlier_over (ts @ [t]) i = earlier_over ts i"
  by (auto simp: earlier_over_def nth_append)

lemma linked_snoc [simp]: "i < length ts \<Longrightarrow> linked (ts @ [t]) i = linked ts i"
  by (auto simp: linked_def nth_append split: option.split)

lemma add_ok:
  assumes ok: "admission_ok n a" and room: "length (ad_active a) < queue_capacity n" and new: "mid \<notin> ad_inflight a"
  shows "admission_ok n (add_task mid sid a)"
proof -
  let ?ts = "ad_tasks a" and ?t = "\<lparr>w_mid = mid, w_sid = sid, w_prev = ad_tails a sid, w_phase = Waiting\<rparr>"
  note parts = ok [unfolded admission_ok_def]
  have t: "tail_ok ?ts s (ad_tails a s)" for s
    using parts by (simp add: tails_ok_def)
  have l: "linked (?ts @ [?t]) (length ?ts)"
    using t [of sid] by (auto simp: linked_def earlier_over_def tail_ok_def nth_append split: option.splits)
  have c: "chain_ok (?ts @ [?t])"
    using parts l by (auto simp: chain_ok_def less_Suc_eq nth_append)
  have tl: "tails_ok (?ts @ [?t]) ((ad_tails a)(sid \<mapsto> length ?ts))"
  proof -
    have "tail_ok (?ts @ [?t]) s (ad_tails a s)" if "s \<noteq> sid" for s
      using t [of s] that by (auto simp: tail_ok_def nth_append less_Suc_eq split: option.splits)
    moreover have "tail_ok (?ts @ [?t]) sid (Some (length ?ts))"
      by (auto simp: tail_ok_def)
    ultimately show ?thesis
      by (auto simp: tails_ok_def)
  qed
  have act: "active_ok n (?ts @ [?t]) (ad_active a @ [length ?ts])"
    using parts room by (auto simp: active_ok_def nth_append less_Suc_eq)
  have i: "inflight_ok (?ts @ [?t]) (insert mid (ad_inflight a))"
    using parts new by (auto simp: inflight_ok_def nth_append less_Suc_eq)
  have s: "started_ok (?ts @ [?t]) (ad_started a)"
  proof -
    have "filter (\<lambda>i. sid_at (?ts @ [?t]) i = s) (ad_started a) = filter (\<lambda>i. sid_at ?ts i = s) (ad_started a)" for s
      using parts by (intro filter_cong) (auto simp: started_ok_def nth_append)
    then show ?thesis
      using parts by (auto simp: started_ok_def nth_append)
  qed
  show ?thesis
    using c tl act i s parts by (simp add: admission_ok_def add_task_def Let_def handlers_running_def)
qed

lemma close_ok: "admission_ok n a \<Longrightarrow> admission_ok n (close_loop a)"
  by (auto simp: admission_ok_def close_loop_def chain_ok_def linked_def earlier_over_def tails_ok_def tail_ok_def active_ok_def
      inflight_ok_def started_ok_def handlers_running_def filter_map o_def split: option.splits cong: filter_cong)

lemma set_phase_moved: "set_phase i p a = a\<lparr>ad_tasks := moved (ad_tasks a) i p\<rparr>"
  by (simp add: set_phase_def moved_def)

lemma admission_frame [simp]:
  "admission_ok n (a\<lparr>ad_batch := b\<rparr>) = admission_ok n a"
  "admission_ok n (a\<lparr>ad_group := g\<rparr>) = admission_ok n a"
  "admission_ok n (a\<lparr>ad_stop := s\<rparr>) = admission_ok n a"
  by (simp_all add: admission_ok_def handlers_running_def)

lemma end_ok:
  assumes "admission_ok n a" "i < length (ad_tasks a)" "phase_at (ad_tasks a) i \<noteq> Over" "earlier_over (ad_tasks a) i"
  shows "admission_ok n (end_task i a)"
proof -
  note parts = assms(1) [unfolded admission_ok_def]
  show ?thesis
    using parts moved_chain [OF _ assms(2-4), of Over] moved_tails [OF _ assms(2,3), of "ad_tails a" Over]
      moved_active [OF _ assms(2,3), of n "ad_active a" Over] moved_inflight [OF _ assms(2,3), of "ad_inflight a" Over]
      moved_started [OF _ assms(2), of "ad_started a" Over] running_moved [OF assms(2), of Over]
    by (simp add: admission_ok_def end_task_def set_phase_moved handlers_running_def)
qed

lemma enter_ok:
  assumes "admission_ok n a" "i < length (ad_tasks a)" "phase_at (ad_tasks a) i = Waiting" "earlier_over (ad_tasks a) i"
    "handlers_running a < n"
  shows "admission_ok n ((set_phase i Handling a)\<lparr>ad_started := ad_started a @ [i]\<rparr>)"
proof -
  have open_i: "phase_at (ad_tasks a) i \<noteq> Over"
    using assms(3) by simp
  note parts = assms(1) [unfolded admission_ok_def]
  show ?thesis
    using parts assms(3,5) moved_chain [OF _ assms(2) open_i assms(4), of Handling]
      moved_tails [OF _ assms(2) open_i, of "ad_tails a" Handling]
      moved_active [OF _ assms(2) open_i, of n "ad_active a" Handling]
      moved_inflight [OF _ assms(2) open_i, of "ad_inflight a" Handling]
      enter_started [OF _ _ assms(2,3), of "ad_started a"] running_moved [OF assms(2), of Handling]
    by (simp add: admission_ok_def set_phase_moved handlers_running_def)
qed

lemma start_ok:
  assumes "start_task n i a = Some a'" "admission_ok n a"
  shows "admission_ok n a'"
proof -
  have i: "i < length (ad_tasks a)" "phase_at (ad_tasks a) i = Waiting" "handlers_running a < n"
    "case w_prev (ad_tasks a ! i) of None \<Rightarrow> True | Some p \<Rightarrow> phase_at (ad_tasks a) p = Over"
    "a' = (if ad_stop a then end_task i a else (set_phase i Handling a)\<lparr>ad_started := ad_started a @ [i]\<rparr>)"
    using assms(1) by (auto simp: start_task_def task_over_def split: if_splits option.splits)
  have "earlier_over (ad_tasks a) i"
    using assms(2) i(1,4) by (intro ready_first) (simp_all add: admission_ok_def)
  then show ?thesis
    using i end_ok [OF assms(2) i(1)] enter_ok [OF assms(2) i(1,2)] by simp
qed

lemma finish_ok:
  assumes "finish_task i h r a = Some a'" "admission_ok n a"
  shows "admission_ok n a'"
proof -
  have i: "i < length (ad_tasks a)" "phase_at (ad_tasks a) i = Handling"
    using assms(1) by (auto simp: finish_task_def split: if_splits)
  then have "earlier_over (ad_tasks a) i"
    using assms(2) by (simp add: admission_ok_def chain_ok_def)
  then show ?thesis
    using assms(1) i end_ok [OF assms(2) i(1)] by (auto simp: finish_task_def)
qed

lemma admit_ok:
  assumes "admit_message n r a = Some a'" "admission_ok n a"
  shows "admission_ok n a'"
proof -
  let ?b = "if queue_capacity n \<le> length (ad_active a) then leave_active a else a"
  have b: "admission_ok n ?b"
    using leave_ok assms(2) by simp
  have add: "admission_ok n (add_task mid sid (?b\<lparr>ad_batch := rest\<rparr>))"
    if "length (ad_active ?b) < queue_capacity n" "mid \<notin> ad_inflight a" for mid sid rest
    using that b by (intro add_ok) (simp_all add: leave_active_def)
  show ?thesis
    using assms b add close_ok
    by (auto simp: admit_message_def Let_def split: list.splits if_splits option.splits)
qed

lemma round_ok:
  assumes "read_round n idle a = Some a'" "admission_ok n a"
  shows "admission_ok n a'"
  using assms(1) prune_ok [OF assms(2)]
  by (auto simp: read_round_def Let_def split: if_splits prod.splits list.splits)

lemma admission_step_ok: "admission_step n e a = Some a' \<Longrightarrow> admission_ok n a \<Longrightarrow> admission_ok n a'"
  by (cases e) (auto split: if_splits dest: round_ok admit_ok start_ok finish_ok intro: close_ok)

lemma admission_run_ok: "admission_run n es a = Some a' \<Longrightarrow> admission_ok n a \<Longrightarrow> admission_ok n a'"
proof (induction es arbitrary: a)
  case (Cons e es)
  then show ?case
    by (auto simp del: admission_step.simps split: option.splits dest: admission_step_ok)
qed simp

lemma new_admission_ok: "admission_ok n (new_admission g)"
  by (simp add: admission_ok_def new_admission_def chain_ok_def tails_ok_def tail_ok_def active_ok_def inflight_ok_def
      started_ok_def handlers_running_def)

subsection \<open>No message is lost\<close>

lemma pending_claim: "pending_ids (snd (claim_pending idle g)) = pending_ids g"
  by (simp add: pending_ids_def claim_pending_def Let_def image_image case_prod_beta)

lemma pending_read: "pending_ids g \<subseteq> pending_ids (snd (read_new n g))"
  by (auto simp: pending_ids_def read_new_def)

lemma dead_claim [simp]: "g_dead (snd (claim_pending idle g)) = g_dead g"
  by (simp add: claim_pending_def Let_def)

lemma dead_read [simp]: "g_dead (snd (read_new n g)) = g_dead g"
  by (simp add: read_new_def)

text \<open>What a step does to the group: nothing is taken out but what was handled or is retained.\<close>

lemma step_group:
  assumes "admission_step n e a = Some a'"
  shows "(pending_ids (ad_group a) \<subseteq> pending_ids (ad_group a') \<and> g_dead (ad_group a') = g_dead (ad_group a)) \<or>
      (\<exists>k f. ad_group a' = dead_letter k f (ad_group a)) \<or>
      (\<exists>i. e = Finish_Task i (Inr True) True \<and> i < length (ad_tasks a) \<and> ad_group a' = ack (w_mid (ad_tasks a ! i)) (ad_group a))"
proof (cases e)
  case (Read_Round idle)
  then have r: "read_round n idle a = Some a'"
    using assms by (simp split: if_splits)
  obtain ms g where c: "claim_pending idle (ad_group a) = (ms, g)"
    by fastforce
  have "ad_group a' \<in> {g, snd (read_new (queue_capacity n - length (ad_active (prune_done a))) g)}"
    using r c by (auto simp: read_round_def Let_def prune_done_def leave_active_def split: if_splits list.splits prod.splits)
  moreover have "pending_ids g = pending_ids (ad_group a)" "g_dead g = g_dead (ad_group a)"
    using pending_claim [of idle "ad_group a"] dead_claim [of idle "ad_group a"] c by simp_all
  ultimately show ?thesis
  proof (elim insertE disjE emptyE)
    assume "ad_group a' = snd (read_new (queue_capacity n - length (ad_active (prune_done a))) g)"
    then show ?thesis
      using pending_read [of g] \<open>pending_ids g = pending_ids (ad_group a)\<close> \<open>g_dead g = g_dead (ad_group a)\<close> by simp
  qed simp
next
  case (Admit r)
  then have m: "admit_message n r a = Some a'"
    using assms by (simp split: if_splits)
  then obtain k f rest where "ad_batch a = (k, f) # rest"
    by (auto simp: admit_message_def split: list.splits)
  then have "ad_group a' \<in> {ad_group a, dead_letter k f (ad_group a)}"
    using m by (auto simp: admit_message_def leave_active_def close_loop_def add_task_def Let_def
        split: if_splits list.splits option.splits)
  then show ?thesis
    by auto
next
  case (Start_Task i)
  then show ?thesis
    using assms by (auto simp: start_task_def end_task_def set_phase_def split: if_splits option.splits)
next
  case (Finish_Task i h r)
  then show ?thesis
    using assms by (auto simp: finish_task_def split: if_splits)
qed (use assms in \<open>auto simp: close_loop_def split: if_splits\<close>)

lemma step_mids:
  assumes "admission_step n e a = Some a'" "i < length (ad_tasks a)"
  shows "i < length (ad_tasks a') \<and> w_mid (ad_tasks a' ! i) = w_mid (ad_tasks a ! i)"
  using assms by (cases e)
    (auto simp: read_round_def admit_message_def start_task_def finish_task_def end_task_def set_phase_moved
      leave_active_def prune_done_def close_loop_def add_task_def Let_def nth_append split: if_splits list.splits option.splits prod.splits)

lemma run_mids:
  "admission_run n es a = Some a' \<Longrightarrow> i < length (ad_tasks a) \<Longrightarrow>
   i < length (ad_tasks a') \<and> w_mid (ad_tasks a' ! i) = w_mid (ad_tasks a ! i)"
proof (induction es arbitrary: a)
  case (Cons e es)
  then obtain b where "admission_step n e a = Some b" "admission_run n es b = Some a'"
    by (auto simp del: admission_step.simps split: option.splits)
  then show ?case
    using step_mids [of n e a b i] Cons by simp
qed simp

lemma run_dead:
  "admission_run n es a = Some a' \<Longrightarrow> map_of (g_dead (ad_group a)) k \<noteq> None \<Longrightarrow> map_of (g_dead (ad_group a')) k \<noteq> None"
proof (induction es arbitrary: a)
  case (Cons e es)
  then obtain b where b: "admission_step n e a = Some b" "admission_run n es b = Some a'"
    by (auto simp del: admission_step.simps split: option.splits)
  have "map_of (g_dead (ad_group b)) k \<noteq> None"
    using step_group [OF b(1)] Cons.prems(2) by (auto simp: dead_of_dead)
  then show ?case
    by (rule Cons.IH [OF b(2)])
qed simp

lemma run_pending:
  assumes "admission_run n es a = Some a'" "k \<in> pending_ids (ad_group a)"
  shows "k \<in> pending_ids (ad_group a') \<or> map_of (g_dead (ad_group a')) k \<noteq> None \<or>
    (\<exists>i. Finish_Task i (Inr True) True \<in> set es \<and> i < length (ad_tasks a') \<and> w_mid (ad_tasks a' ! i) = k)"
  using assms
proof (induction es arbitrary: a)
  case (Cons e es)
  then obtain b where b: "admission_step n e a = Some b" "admission_run n es b = Some a'"
    by (auto simp del: admission_step.simps split: option.splits)
  consider "k \<in> pending_ids (ad_group b)" | "map_of (g_dead (ad_group b)) k \<noteq> None"
    | i where "e = Finish_Task i (Inr True) True" "i < length (ad_tasks a)" "w_mid (ad_tasks a ! i) = k"
    using step_group [OF b(1)] Cons.prems(2) by (fastforce simp: pending_ack pending_dead dead_of_dead)
  then show ?case
  proof cases
    case 1
    then show ?thesis
      using Cons.IH [OF b(2)] by auto
  next
    case 2
    then show ?thesis
      using run_dead [OF b(2)] by blast
  next
    case 3
    then show ?thesis
      using step_mids [OF b(1), of i] run_mids [OF b(2), of i] by auto
  qed
qed simp

subsection \<open>No waiting for ever\<close>

text \<open>Unless every task is over, some task can take its next step: the first that is not over can start, or a
  handler is running.\<close>

lemma some_task_can_move:
  assumes "admission_ok n a" "0 < n" "\<not> ad_closed a" "i < length (ad_tasks a)" "phase_at (ad_tasks a) i \<noteq> Over"
  shows "\<exists>j. admission_step n (Start_Task j) a \<noteq> None \<or> (\<forall>h r. admission_step n (Finish_Task j h r) a \<noteq> None)"
proof (cases "\<exists>j < length (ad_tasks a). phase_at (ad_tasks a) j = Handling")
  case True
  then show ?thesis
    using assms(3) by (auto simp: finish_task_def not_le)
next
  case False
  define j where "j = (LEAST j. j < length (ad_tasks a) \<and> phase_at (ad_tasks a) j \<noteq> Over)"
  have j: "j < length (ad_tasks a)" "phase_at (ad_tasks a) j \<noteq> Over"
    using LeastI [of "\<lambda>j. j < length (ad_tasks a) \<and> phase_at (ad_tasks a) j \<noteq> Over" i] assms(4,5) by (auto simp: j_def)
  have first: "phase_at (ad_tasks a) k = Over" if "k < j" for k
    using not_less_Least [of k "\<lambda>j. j < length (ad_tasks a) \<and> phase_at (ad_tasks a) j \<noteq> Over"] that j(1) by (auto simp: j_def)
  have "phase_at (ad_tasks a) j = Waiting"
    using False j by (cases "phase_at (ad_tasks a) j") auto
  moreover have "handlers_running a = 0"
    using False by (auto simp: handlers_running_def filter_empty_conv in_set_conv_nth)
  moreover have "case w_prev (ad_tasks a ! j) of None \<Rightarrow> False | Some p \<Rightarrow> \<not> task_over a p \<Longrightarrow> False"
    using assms(1) j(1) first by (auto simp: admission_ok_def chain_ok_def linked_def task_over_def split: option.splits)
  ultimately have "admission_step n (Start_Task j) a \<noteq> None"
    using assms(2,3) j(1) by (auto simp: start_task_def)
  then show ?thesis
    by blast
qed

text \<open>After the stop signal no handler is entered: what waits is left pending.\<close>

lemma stop_step: "admission_step n e a = Some a' \<Longrightarrow> ad_stop a \<Longrightarrow> ad_stop a' \<and> ad_started a' = ad_started a"
  by (cases e)
    (auto simp: read_round_def admit_message_def start_task_def finish_task_def end_task_def set_phase_def
      leave_active_def prune_done_def close_loop_def add_task_def Let_def split: if_splits list.splits option.splits prod.splits)

lemma stop_run: "admission_run n es a = Some a' \<Longrightarrow> ad_stop a \<Longrightarrow> ad_started a' = ad_started a"
proof (induction es arbitrary: a)
  case (Cons e es)
  then obtain b where b: "admission_step n e a = Some b" "admission_run n es b = Some a'"
    by (auto simp del: admission_step.simps split: option.splits)
  then show ?case
    using stop_step [OF b(1)] Cons by simp
qed simp

subsection \<open>The promise\<close>


text \<open>Two messages of a session and one of another: the second of the session waits, the third does not.\<close>

definition sample_stream :: "fields cgroup" where
  "sample_stream =
     (let f = \<lambda>s. \<lparr>fd_type = None, fd_payload = Some (Object [(u ''session_id'', JStr s)])\<rparr>
      in \<lparr>g_new = [], g_pending = [(1, f (u ''a''), 1), (2, f (u ''a''), 1), (3, f (u ''b''), 1)], g_acked = [], g_dead = []\<rparr>)"

definition sample_events :: "admission_event list" where
  "sample_events = [Read_Round (\<lambda>_. True), Admit True, Admit True, Admit True, Start_Task 0, Start_Task 2,
     Finish_Task 0 (Inr True) True, Start_Task 1]"

lemma sample_admission:
  "map_option (\<lambda>a. (ad_started a, g_acked (ad_group a), handlers_running a)) (admission_run 2 sample_events (new_admission sample_stream)) =
     Some ([0, 2, 1], [1], 2)"
  by code_simp


end
