(* ===== verification/Tool_Seeds.thy ===== *)
theory Tool_Seeds
  imports Tools
begin

text \<open>
  The tool definitions that the migrations put into the registry: \<open>_TOOL_SEEDS\<close> of
  \<open>alembic/versions/0001_initial.py\<close> and the corrections of \<open>0004_tool_seed_fixes.py\<close>. The rest of the
  migrations is DDL and not modelled.
\<close>

subsection \<open>The seeds\<close>

definition CODEX_PATTERN :: pystr where
  "CODEX_PATTERN = u ''session id:'' @ [92] @ u ''s*([0-9a-zA-Z-]+)''"

definition claude_seed :: tool_def where
  "claude_seed =
     \<lparr>td_name = u ''claude'',
      td_config = \<lparr>td_display = u ''Claude Code'',
        td_prefix = [u ''claude'', u ''--permission-mode'', u ''bypassPermissions'', u ''--print'', u ''--output-format'', u ''json''],
        td_resume = [u ''--resume'', P_TOKEN], td_suffix = [P_PROMPT], td_pty = False,
        td_source = JsonFieldSrc, td_pattern = Some (u ''session_id''),
        td_extractor = JsonFieldEx, td_json_field = Some (u ''result''), td_extra_paths = [],
        td_env = [u ''CLAUDE_API_KEY'', u ''ANTHROPIC_API_KEY'', u ''CLAUDE_CONFIG_DIR'', u ''HOME''],
        td_model_flag = Some (u ''--model''), td_api_key_env = Some (u ''ANTHROPIC_API_KEY''),
        td_base_url_env = Some (u ''ANTHROPIC_BASE_URL'')\<rparr>,
      td_enabled = True, td_created_by = Some (u ''system'')\<rparr>"

definition codex_seed :: tool_def where
  "codex_seed =
     \<lparr>td_name = u ''codex'',
      td_config = \<lparr>td_display = u ''OpenAI Codex'', td_prefix = [u ''codex'', u ''exec''],
        td_resume = [u ''resume'', P_TOKEN], td_suffix = [P_PROMPT], td_pty = True,
        td_source = StderrRegex, td_pattern = Some CODEX_PATTERN,
        td_extractor = StdoutStripAnsi, td_json_field = None, td_extra_paths = [],
        td_env = [u ''OPENAI_API_KEY'', u ''HOME'', u ''CODEX_HOME''],
        td_model_flag = Some (u ''--model''), td_api_key_env = Some (u ''OPENAI_API_KEY''),
        td_base_url_env = Some (u ''OPENAI_BASE_URL'')\<rparr>,
      td_enabled = True, td_created_by = Some (u ''system'')\<rparr>"

definition opencode_seed :: tool_def where
  "opencode_seed =
     \<lparr>td_name = u ''opencode'',
      td_config = \<lparr>td_display = u ''OpenCode'', td_prefix = [u ''opencode'', u ''run''],
        td_resume = [u ''--continue''], td_suffix = [P_PROMPT], td_pty = True,
        td_source = Sentinel, td_pattern = Some (u ''opencode''),
        td_extractor = StdoutStripAnsi, td_json_field = None, td_extra_paths = [],
        td_env = [u ''OPENAI_API_KEY'', u ''ANTHROPIC_API_KEY'', u ''HOME''],
        td_model_flag = Some (u ''--model''), td_api_key_env = None, td_base_url_env = None\<rparr>,
      td_enabled = True, td_created_by = Some (u ''system'')\<rparr>"

definition droid_seed :: tool_def where
  "droid_seed =
     \<lparr>td_name = u ''droid'',
      td_config = \<lparr>td_display = u ''Droid (Factory.ai)'',
        td_prefix = [u ''droid'', u ''exec'', u ''--output-format'', u ''json''],
        td_resume = [u ''-s'', P_TOKEN], td_suffix = [P_PROMPT], td_pty = False,
        td_source = JsonFieldSrc, td_pattern = Some (u ''session_id''),
        td_extractor = JsonFieldEx, td_json_field = Some (u ''result''), td_extra_paths = [],
        td_env = [u ''FACTORY_API_KEY'', u ''HOME''],
        td_model_flag = Some (u ''--model''), td_api_key_env = Some (u ''FACTORY_API_KEY''), td_base_url_env = None\<rparr>,
      td_enabled = True, td_created_by = Some (u ''system'')\<rparr>"

definition PI_ENV :: "pystr list" where
  "PI_ENV = [u ''HOME'', u ''PI_CODING_AGENT_DIR'', u ''GEMINI_API_KEY'', u ''ANTHROPIC_API_KEY'',
     u ''OPENAI_API_KEY'', u ''OPENROUTER_API_KEY'']"

definition pi_seed :: tool_def where
  "pi_seed =
     \<lparr>td_name = u ''pi'',
      td_config = \<lparr>td_display = u ''Pi (pi.dev)'', td_prefix = [u ''pi'', u ''-p''],
        td_resume = [u ''--session-id'', P_TOKEN], td_suffix = [P_PROMPT], td_pty = False,
        td_source = CallerUuid, td_pattern = None,
        td_extractor = StdoutStripAnsi, td_json_field = None, td_extra_paths = [],
        td_env = PI_ENV,
        td_model_flag = Some (u ''--model''), td_api_key_env = Some (u ''GEMINI_API_KEY''), td_base_url_env = None\<rparr>,
      td_enabled = False, td_created_by = Some (u ''system'')\<rparr>"

definition TOOL_SEEDS :: "tool_def list" where
  "TOOL_SEEDS = [claude_seed, codex_seed, opencode_seed, droid_seed, pi_seed]"

lemmas seed_defs = claude_seed_def codex_seed_def opencode_seed_def droid_seed_def pi_seed_def PI_ENV_def

subsection \<open>The migrations\<close>

text \<open>\<open>upgrade\<close> of revision 0001 inserts the seeds into the new table.\<close>

definition upgrade_0001 :: "db \<Rightarrow> db" where
  "upgrade_0001 d = d\<lparr>d_tools := d_tools d @ TOOL_SEEDS\<rparr>"

text \<open>\<open>upgrade\<close> of revision 0004: two updates, of the rows that still look like the old seeds.\<close>

definition stale_pi :: "tool_def \<Rightarrow> bool" where
  "stale_pi r \<longleftrightarrow> td_name r = u ''pi'' \<and> td_display (td_config r) = u ''Pi (Inflection)'' \<and> td_source (td_config r) = SrcNone"

definition fix_pi :: "tool_def \<Rightarrow> tool_def" where
  "fix_pi r = r\<lparr>td_config := (td_config r)\<lparr>td_display := u ''Pi (pi.dev)'', td_resume := [u ''--session-id'', P_TOKEN],
     td_source := CallerUuid, td_env := PI_ENV, td_model_flag := Some (u ''--model''),
     td_api_key_env := Some (u ''GEMINI_API_KEY'')\<rparr>\<rparr>"

definition stale_opencode :: "tool_def \<Rightarrow> bool" where
  "stale_opencode r \<longleftrightarrow> td_name r = u ''opencode'' \<and> td_source (td_config r) = Sentinel \<and> td_enabled r"

definition upgrade_0004 :: "db \<Rightarrow> db" where
  "upgrade_0004 d =
     d\<lparr>d_tools := upd stale_opencode (\<lambda>r. r\<lparr>td_enabled := False\<rparr>) (upd stale_pi fix_pi (d_tools d))\<rparr>"

subsection \<open>The seeds are valid\<close>

lemma contains_self [simp]: "contains s s"
  by (simp add: contains_def)

lemma seed_placeholders [simp]: "P_PROMPT \<noteq> []" "P_TOKEN \<noteq> []" "nul \<notin> set P_PROMPT" "nul \<notin> set P_TOKEN"
  by (simp_all add: P_PROMPT_def P_TOKEN_def u_def)

lemma seed_names: "map td_name TOOL_SEEDS = [u ''claude'', u ''codex'', u ''opencode'', u ''droid'', u ''pi'']"
  by (simp add: TOOL_SEEDS_def seed_defs)

lemma seed_names_ok: "t \<in> set TOOL_SEEDS \<Longrightarrow> NAME_PATTERN (td_name t)"
  by (auto simp: TOOL_SEEDS_def seed_defs NAME_PATTERN_def u_def lower_az_def)

lemma seed_fields_ok: "t \<in> set TOOL_SEEDS \<Longrightarrow> fields_ok (td_config t)"
  by (auto simp: TOOL_SEEDS_def seed_defs fields_ok_def u_def CODEX_PATTERN_def)

lemma seed_args_ok:
  "\<forall>t \<in> set TOOL_SEEDS. \<not> list_ex (\<lambda>item. item = [] \<or> nul \<in> set item)
     (td_prefix (td_config t) @ td_resume (td_config t) @ td_suffix (td_config t) @ td_extra_paths (td_config t))"
  by (simp add: TOOL_SEEDS_def seed_defs) (simp add: u_def)

lemma seed_env_ok:
  "\<forall>t \<in> set TOOL_SEEDS. \<not> list_ex (\<lambda>k. \<not> ENV_PATTERN k \<or> k \<in> set FORBIDDEN_ENV) (env_keys (td_config t))"
  by code_simp

lemma seed_contract:
  assumes "re_groups eng CODEX_PATTERN = Some 1" "t \<in> set TOOL_SEEDS"
  shows "validate_contract eng (td_config t) = None"
proof -
  have "list_ex (contains P_PROMPT) (td_suffix (td_config t))"
    "td_resume (td_config t) = [] \<or> td_source (td_config t) = Sentinel \<or> list_ex (contains P_TOKEN) (td_resume (td_config t))"
    "td_source (td_config t) \<in> {SrcNone, Sentinel, CallerUuid} \<or> opt_str (td_pattern (td_config t)) \<noteq> []"
    "td_source (td_config t) \<in> {StdoutRegex, StderrRegex} \<Longrightarrow> re_groups eng (opt_str (td_pattern (td_config t))) = Some 1"
    "td_extractor (td_config t) = JsonFieldEx \<Longrightarrow> opt_str (td_json_field (td_config t)) \<noteq> []"
    using assms by (auto simp: TOOL_SEEDS_def seed_defs CODEX_PATTERN_def)
  then show ?thesis
    using seed_args_ok [rule_format, OF assms(2)] seed_env_ok [rule_format, OF assms(2)]
    unfolding validate_contract_def by (auto simp del: list_ex_append)
qed

lemma seed_valid:
  assumes "re_groups eng CODEX_PATTERN = Some 1" "t \<in> set TOOL_SEEDS"
  shows "validate_tool_config eng (td_config t) (Some (td_name t)) = None"
  using seed_names_ok [OF assms(2)] seed_fields_ok [OF assms(2)] seed_contract [OF assms] by (simp add: validate_tool_config_def)

subsection \<open>What a migrated registry offers\<close>

lemma upgraded_tools:
  "d_tools d = [] \<Longrightarrow> d_tools (upgrade_0004 (upgrade_0001 d)) =
     [claude_seed, codex_seed, opencode_seed\<lparr>td_enabled := False\<rparr>, droid_seed, pi_seed]"
proof -
  assume d: "d_tools d = []"
  have "map stale_pi TOOL_SEEDS = [False, False, False, False, False]"
    "map stale_opencode TOOL_SEEDS = [False, False, True, False, False]"
    by code_simp+
  then show ?thesis
    using d by (simp add: upgrade_0004_def upgrade_0001_def upd_def TOOL_SEEDS_def)
qed

text \<open>An operator's edit survives: only the rows that still look like the old seeds are touched, and a second run
  changes nothing.\<close>

lemma upgrade_0004_fixed:
  "(\<And>r. r \<in> set (d_tools d) \<Longrightarrow> \<not> stale_pi r \<and> \<not> stale_opencode r) \<Longrightarrow> upgrade_0004 d = d"
  by (simp add: upgrade_0004_def upd_def cong: map_cong)

lemma upgrade_0004_idem: "upgrade_0004 (upgrade_0004 d) = upgrade_0004 d"
proof (rule upgrade_0004_fixed)
  have "u ''Pi (pi.dev)'' \<noteq> u ''Pi (Inflection)''" "u ''pi'' \<noteq> u ''opencode''"
    by (simp_all add: u_def)
  then show "\<not> stale_pi r \<and> \<not> stale_opencode r" if "r \<in> set (d_tools (upgrade_0004 d))" for r
    using that by (auto simp: upgrade_0004_def upd_def stale_pi_def stale_opencode_def fix_pi_def split: if_splits)
qed

text \<open>The shipped tools take the prompt as their only positional argument, without \<open>--\<close>: a prompt that starts with
  a dash is refused by every one of them.\<close>

lemma seed_suffix: "t \<in> set TOOL_SEEDS \<Longrightarrow> td_suffix (td_config t) = [P_PROMPT]"
  by (auto simp: TOOL_SEEDS_def seed_defs)

lemma unguarded_single: "unguarded_prompt [P_PROMPT]"
  by (simp add: unguarded_prompt_def)

lemma seed_command:
  assumes "t \<in> set TOOL_SEEDS" "td_source (td_config t) \<noteq> Sentinel"
  shows "exec_cmd (td_config t) prompt None =
    (if prefix [dash] (lstrip_by is_space prompt) then Inl AmbiguousPromptErr else Inr (td_prefix (td_config t) @ [prompt]))"
  using assms unguarded_single by (simp add: exec_cmd_def seed_suffix substitute_def replace_all_self opt_str_def)


text \<open>An engine that compiles the pattern of \<open>codex\<close> with its one group.\<close>

definition sample_engine :: engine where
  "sample_engine = \<lparr>re_groups = (\<lambda>p. if p = CODEX_PATTERN then Some 1 else None), re_search = (\<lambda>_ _. None),
     json_object = (\<lambda>_. None), field_error = (\<lambda>_. [])\<rparr>"


end
