(* ===== verification/Exec_Supervision.thy ===== *)
theory Exec_Supervision
  imports Exec_Session
begin

text \<open>
  \<open>tools/exec_session.py\<close>: the supervision of a subprocess, \<open>_run_pipe\<close> and \<open>_run_pty\<close> with \<open>_await_streams\<close> and
  \<open>_reap\<close>. The process, its descendants and the clock are the environment: a run is a list of events. The
  result of a run that is not cut short is that of \<open>exec_run\<close> on the chunks it has read.
\<close>

subsection \<open>State\<close>

datatype stream = OutStream | ErrStream

record reader =
  rd_kept :: "nat list"
  rd_seen :: nat
  rd_over :: bool

text \<open>How a run ends: with a result, with \<open>ExecTimeout\<close>, or with an exception that is raised again.\<close>

datatype exec_end = Returned exec_outcome | DeadlinePassed | Reraised

text \<open>
  The stages of \<open>_await_streams\<close>: polling for the exit of the process, the grace for inherited descriptors,
  and the wait for readers after the group was killed.
\<close>

datatype stage = Polling | Grace | Draining | Ended exec_end

record exec_state =
  es_stage :: stage
  es_code :: "int option"      \<comment> \<open>\<open>proc.returncode\<close>\<close>
  es_out :: reader
  es_err :: reader
  es_flag :: bool              \<comment> \<open>\<open>_killed_for_output\<close>\<close>
  es_kills :: nat              \<comment> \<open>how often the group was killed\<close>

definition new_reader :: reader where
  "new_reader = \<lparr>rd_kept = [], rd_seen = 0, rd_over = False\<rparr>"

definition spawned :: exec_state where
  "spawned = \<lparr>es_stage = Polling, es_code = None, es_out = new_reader, es_err = new_reader, es_flag = False, es_kills = 0\<rparr>"

definition killpg :: "exec_state \<Rightarrow> exec_state" where
  "killpg st = st\<lparr>es_kills := Suc (es_kills st)\<rparr>"

definition reader_of :: "stream \<Rightarrow> exec_state \<Rightarrow> reader" where
  "reader_of w st = (case w of OutStream \<Rightarrow> es_out st | ErrStream \<Rightarrow> es_err st)"

definition set_reader :: "stream \<Rightarrow> reader \<Rightarrow> exec_state \<Rightarrow> exec_state" where
  "set_reader w r st = (case w of OutStream \<Rightarrow> st\<lparr>es_out := r\<rparr> | ErrStream \<Rightarrow> st\<lparr>es_err := r\<rparr>)"

definition readers_over :: "exec_state \<Rightarrow> bool" where
  "readers_over st \<longleftrightarrow> rd_over (es_out st) \<and> rd_over (es_err st)"

definition cancel_readers :: "exec_state \<Rightarrow> exec_state" where
  "cancel_readers st = st\<lparr>es_out := (es_out st)\<lparr>rd_over := True\<rparr>, es_err := (es_err st)\<lparr>rd_over := True\<rparr>\<rparr>"

subsection \<open>Steps\<close>

datatype exec_event =
    Chunk stream "nat list"
  | Eof stream
  | Exit int
  | Poll
  | Settle
  | GraceOver
  | DrainOver
  | Deadline
  | Interrupt

text \<open>One chunk, of a pipe in \<open>_read_bounded\<close> or of the terminal in \<open>readable\<close>.\<close>

definition read_chunk :: "exec_limits \<Rightarrow> stream \<Rightarrow> nat list \<Rightarrow> exec_state \<Rightarrow> exec_state" where
  "read_chunk lim w data st =
     (let r = reader_of w st;
          seen = rd_seen r + length data;
          st = set_reader w (r\<lparr>rd_kept := rd_kept r @ take (x_max lim - length (rd_kept r)) data, rd_seen := seen\<rparr>) st
      in if x_kill lim < seen \<and> \<not> es_flag st then killpg (st\<lparr>es_flag := True\<rparr>) else st)"

text \<open>What \<open>os.read\<close> on the terminal gives: data, an error that says try again, or the end.\<close>

datatype pty_answer = PtyData "nat list" | PtyBlocked | PtyError

definition pty_event :: "pty_answer \<Rightarrow> exec_event option" where
  "pty_event a =
     (case a of
        PtyBlocked \<Rightarrow> None
      | PtyError \<Rightarrow> Some (Eof OutStream)
      | PtyData [] \<Rightarrow> Some (Eof OutStream)
      | PtyData data \<Rightarrow> Some (Chunk OutStream data))"

text \<open>The result, once the process is gone and the readers are over.\<close>

definition finish_exec :: "exec_limits \<Rightarrow> (nat list \<Rightarrow> pystr) \<Rightarrow> exec_state \<Rightarrow> exec_state" where
  "finish_exec lim decode st =
     st\<lparr>es_stage := Ended (Returned (exec_result lim decode (rd_kept (es_out st)) (rd_kept (es_err st))
        (length (rd_kept (es_out st)) < rd_seen (es_out st)) (length (rd_kept (es_err st)) < rd_seen (es_err st))
        (es_flag st) (case es_code st of None \<Rightarrow> 0 | Some c \<Rightarrow> c)))\<rparr>"

text \<open>The way out on the deadline or another exception: the readers are cancelled and the group is reaped.\<close>

definition reap :: "exec_end \<Rightarrow> exec_state \<Rightarrow> exec_state" where
  "reap e st = (killpg (cancel_readers st))\<lparr>es_stage := Ended e\<rparr>"

fun exec_step :: "exec_limits \<Rightarrow> (nat list \<Rightarrow> pystr) \<Rightarrow> exec_event \<Rightarrow> exec_state \<Rightarrow> exec_state option" where
  "exec_step lim decode e st =
     (case es_stage st of
        Ended _ \<Rightarrow> None
      | s \<Rightarrow>
          (case e of
             Chunk w data \<Rightarrow>
               if rd_over (reader_of w st) \<or> data = [] then None else Some (read_chunk lim w data st)
           | Eof w \<Rightarrow>
               if rd_over (reader_of w st) then None
               else Some (set_reader w ((reader_of w st)\<lparr>rd_over := True\<rparr>) st)
           | Exit code \<Rightarrow> if es_code st \<noteq> None then None else Some (st\<lparr>es_code := Some code\<rparr>)
           | Poll \<Rightarrow> if s = Polling \<and> es_code st \<noteq> None then Some (st\<lparr>es_stage := Grace\<rparr>) else None
           | Settle \<Rightarrow>
               if \<not> readers_over st then None
               else if s = Grace then Some (finish_exec lim decode (killpg st))
               else if s = Draining then Some (finish_exec lim decode st)
               else None
           | GraceOver \<Rightarrow>
               if s = Grace \<and> \<not> readers_over st then Some ((killpg st)\<lparr>es_stage := Draining\<rparr>) else None
           | DrainOver \<Rightarrow>
               if s = Draining \<and> \<not> readers_over st then Some (finish_exec lim decode (cancel_readers st)) else None
           | Deadline \<Rightarrow> Some (reap DeadlinePassed st)
           | Interrupt \<Rightarrow> Some (reap Reraised st)))"

fun exec_steps :: "exec_limits \<Rightarrow> (nat list \<Rightarrow> pystr) \<Rightarrow> exec_event list \<Rightarrow> exec_state \<Rightarrow> exec_state option" where
  "exec_steps lim decode [] st = Some st"
| "exec_steps lim decode (e # es) st =
     (case exec_step lim decode e st of None \<Rightarrow> None | Some st \<Rightarrow> exec_steps lim decode es st)"

subsection \<open>What every run keeps\<close>

text \<open>The chunks of a stream in the order in which they were read.\<close>

fun chunks_of :: "stream \<Rightarrow> exec_event list \<Rightarrow> nat list list" where
  "chunks_of w [] = []"
| "chunks_of w (Chunk w' data # es) = (if w' = w then [data] else []) @ chunks_of w es"
| "chunks_of w (e # es) = chunks_of w es"

lemma chunks_append [simp]: "chunks_of w (es @ es') = chunks_of w es @ chunks_of w es'"
  by (induction w es rule: chunks_of.induct) simp_all

definition reader_ok :: "exec_limits \<Rightarrow> nat list list \<Rightarrow> reader \<Rightarrow> bool" where
  "reader_ok lim cs r \<longleftrightarrow> rd_kept r = take (x_max lim) (concat cs) \<and> rd_seen r = length (concat cs)"

text \<open>The state after the events \<open>es\<close>.\<close>

definition exec_ok :: "exec_limits \<Rightarrow> (nat list \<Rightarrow> pystr) \<Rightarrow> exec_event list \<Rightarrow> exec_state \<Rightarrow> bool" where
  "exec_ok lim decode es st \<longleftrightarrow>
     reader_ok lim (chunks_of OutStream es) (es_out st) \<and> reader_ok lim (chunks_of ErrStream es) (es_err st) \<and>
     (es_flag st \<longleftrightarrow> x_kill lim < rd_seen (es_out st) \<or> x_kill lim < rd_seen (es_err st)) \<and>
     (es_flag st \<longrightarrow> 0 < es_kills st) \<and>
     (\<forall>c. es_code st = Some c \<longrightarrow> Exit c \<in> set es) \<and>
     (case es_stage st of
        Polling \<Rightarrow> True
      | Grace \<Rightarrow> es_code st \<noteq> None
      | Draining \<Rightarrow> es_code st \<noteq> None \<and> 0 < es_kills st
      | Ended e \<Rightarrow> 0 < es_kills st \<and> readers_over st \<and>
          (case e of
             Returned r \<Rightarrow> (\<exists>c. Exit c \<in> set es \<and>
               r = exec_run lim decode (chunks_of OutStream es) (chunks_of ErrStream es) False c)
           | DeadlinePassed \<Rightarrow> Deadline \<in> set es
           | Reraised \<Rightarrow> Interrupt \<in> set es))"

lemma reader_chunk:
  "reader_ok lim cs r \<Longrightarrow>
   reader_ok lim (cs @ [data]) (r\<lparr>rd_kept := rd_kept r @ take (x_max lim - length (rd_kept r)) data, rd_seen := rd_seen r + length data\<rparr>)"
  by (auto simp: reader_ok_def min_def)

lemma result_of_readers:
  assumes "reader_ok lim oc (es_out st)" "reader_ok lim ec (es_err st)"
    "es_flag st \<longleftrightarrow> x_kill lim < rd_seen (es_out st) \<or> x_kill lim < rd_seen (es_err st)" "es_code st = Some c"
  shows "es_stage (finish_exec lim decode st) = Ended (Returned (exec_run lim decode oc ec False c))"
proof -
  have "length (take (x_max lim) xs) < length xs \<longleftrightarrow> x_max lim < length xs" for xs :: "nat list"
    by auto
  then show ?thesis
    using assms by (simp add: finish_exec_def exec_run_def read_bounded_spec reader_ok_def)
qed

lemma chunk_ok:
  assumes "exec_ok lim decode es st" "\<forall>x. es_stage st \<noteq> Ended x"
  shows "exec_ok lim decode (es @ [Chunk w data]) (read_chunk lim w data st)"
proof (cases w)
  case OutStream
  then show ?thesis
    using assms reader_chunk [of lim "chunks_of OutStream es" "es_out st" data]
    by (auto simp: exec_ok_def read_chunk_def reader_of_def set_reader_def killpg_def Let_def split: stage.splits)
next
  case ErrStream
  then show ?thesis
    using assms reader_chunk [of lim "chunks_of ErrStream es" "es_err st" data]
    by (auto simp: exec_ok_def read_chunk_def reader_of_def set_reader_def killpg_def Let_def split: stage.splits)
qed

lemma supervision_finish_ok:
  assumes "exec_ok lim decode es st" "es_stage st = Draining \<or> es_stage st = Grace \<and> 0 < es_kills st" "readers_over st"
    "chunks_of OutStream es = chunks_of OutStream es'" "chunks_of ErrStream es = chunks_of ErrStream es'" "set es \<subseteq> set es'"
  shows "exec_ok lim decode es' (finish_exec lim decode st)"
proof -
  obtain c where c: "es_code st = Some c" "Exit c \<in> set es"
    using assms(1,2) by (auto simp: exec_ok_def split: stage.splits)
  have k: "0 < es_kills st"
    using assms(1,2) by (auto simp: exec_ok_def)
  have r: "es_stage (finish_exec lim decode st) =
      Ended (Returned (exec_run lim decode (chunks_of OutStream es') (chunks_of ErrStream es') False c))"
    using assms(1) c(1) unfolding assms(4,5) [symmetric] by (intro result_of_readers) (auto simp: exec_ok_def)
  have same: "es_out (finish_exec lim decode st) = es_out st" "es_err (finish_exec lim decode st) = es_err st"
    "es_flag (finish_exec lim decode st) = es_flag st" "es_kills (finish_exec lim decode st) = es_kills st"
    "es_code (finish_exec lim decode st) = es_code st"
    by (simp_all add: finish_exec_def)
  show ?thesis
    using assms(1,3,6) c k unfolding exec_ok_def r same readers_over_def assms(4,5) by auto
qed

lemma quiet_ok:
  "exec_ok lim decode es st \<Longrightarrow> \<forall>x. es_stage st \<noteq> Ended x \<Longrightarrow> (\<And>w. chunks_of w [e] = []) \<Longrightarrow> exec_ok lim decode (es @ [e]) st"
  by (auto simp: exec_ok_def split: stage.splits)

lemma over_ok:
  "exec_ok lim decode es st \<Longrightarrow> \<forall>x. es_stage st \<noteq> Ended x \<Longrightarrow>
   exec_ok lim decode es (set_reader w ((reader_of w st)\<lparr>rd_over := True\<rparr>) st) \<and>
   (\<forall>x. es_stage (set_reader w ((reader_of w st)\<lparr>rd_over := True\<rparr>) st) \<noteq> Ended x)"
  by (cases w; cases "es_stage st") (simp_all add: exec_ok_def set_reader_def reader_of_def reader_ok_def)

lemma reap_ok:
  "exec_ok lim decode es st \<Longrightarrow> (x = DeadlinePassed \<and> e = Deadline) \<or> (x = Reraised \<and> e = Interrupt) \<Longrightarrow>
   exec_ok lim decode (es @ [e]) (reap x st)"
  by (elim disjE conjE; simp add: exec_ok_def reap_def killpg_def cancel_readers_def reader_ok_def readers_over_def)

lemma exec_step_ok:
  assumes "exec_step lim decode e st = Some st'" "exec_ok lim decode es st"
  shows "exec_ok lim decode (es @ [e]) st'"
proof -
  have live: "\<forall>x. es_stage st \<noteq> Ended x"
    using assms(1) by auto
  show ?thesis
  proof (cases e)
    case (Chunk w data)
    then show ?thesis
      using assms(1) chunk_ok [OF assms(2) live, of w data] by (auto split: stage.splits if_splits)
  next
    case Settle
    then consider "es_stage st = Grace" "readers_over st" "st' = finish_exec lim decode (killpg st)"
      | "es_stage st = Draining" "readers_over st" "st' = finish_exec lim decode st"
      using assms(1) by (auto split: stage.splits if_splits)
    then show ?thesis
    proof cases
      case 1
      have "exec_ok lim decode es (killpg st)"
        using assms(2) 1(1) by (simp add: exec_ok_def killpg_def)
      then show ?thesis
        using 1 Settle unfolding 1(3) by (intro supervision_finish_ok [of _ _ es]) (auto simp: killpg_def readers_over_def)
    next
      case 2
      then show ?thesis
        using assms(2) Settle by (auto intro!: supervision_finish_ok [of _ _ es])
    qed
  next
    case DrainOver
    then have d: "es_stage st = Draining" "st' = finish_exec lim decode (cancel_readers st)"
      using assms(1) by (auto split: stage.splits if_splits)
    have "exec_ok lim decode es (cancel_readers st)"
      using assms(2) d(1) by (simp add: exec_ok_def cancel_readers_def reader_ok_def)
    then show ?thesis
      using d DrainOver unfolding d(2) by (intro supervision_finish_ok [of _ _ es]) (auto simp: cancel_readers_def readers_over_def)
  next
    case (Eof w)
    then have st': "st' = set_reader w ((reader_of w st)\<lparr>rd_over := True\<rparr>) st"
      using assms(1) by (auto split: stage.splits if_splits)
    then show ?thesis
      using over_ok [OF assms(2) live, of w] Eof by (intro quiet_ok) auto
  next
    case (Exit c)
    then have "st' = st\<lparr>es_code := Some c\<rparr>"
      using assms(1) by (auto split: stage.splits if_splits)
    then show ?thesis
      using assms(2) live Exit by (cases "es_stage st") (simp_all add: exec_ok_def)
  next
    case Poll
    then have "es_code st \<noteq> None" "st' = st\<lparr>es_stage := Grace\<rparr>"
      using assms(1) by (auto split: stage.splits if_splits)
    then show ?thesis
      using assms(2) Poll by (simp add: exec_ok_def)
  next
    case GraceOver
    then have "es_stage st = Grace" "st' = (killpg st)\<lparr>es_stage := Draining\<rparr>"
      using assms(1) by (auto split: stage.splits if_splits)
    then show ?thesis
      using assms(2) GraceOver by (simp add: exec_ok_def killpg_def)
  next
    case Deadline
    then have "st' = reap DeadlinePassed st"
      using assms(1) by (auto split: stage.splits)
    then show ?thesis
      using reap_ok [OF assms(2), of DeadlinePassed e] Deadline by simp
  next
    case Interrupt
    then have "st' = reap Reraised st"
      using assms(1) by (auto split: stage.splits)
    then show ?thesis
      using reap_ok [OF assms(2), of Reraised e] Interrupt by simp
  qed
qed

lemma exec_steps_ok:
  "exec_steps lim decode es st = Some st' \<Longrightarrow> exec_ok lim decode es0 st \<Longrightarrow> exec_ok lim decode (es0 @ es) st'"
proof (induction es arbitrary: st es0)
  case (Cons e es)
  then obtain st1 where "exec_step lim decode e st = Some st1" "exec_steps lim decode es st1 = Some st'"
    by (auto simp del: exec_step.simps split: option.splits)
  then show ?case
    using Cons.IH [of st1 "es0 @ [e]"] exec_step_ok [of lim decode e st st1 es0] Cons.prems(2) by simp
qed simp

lemma spawned_ok: "exec_ok lim decode [] spawned"
  by (simp add: exec_ok_def spawned_def new_reader_def reader_ok_def)

text \<open>Once the process is gone the timers alone end the run, whatever its descendants do.\<close>

lemma timers_end:
  assumes "es_code st \<noteq> None" "\<And>x. es_stage st \<noteq> Ended x"
  shows "\<exists>es st' r. set es \<subseteq> {Poll, Settle, GraceOver, DrainOver} \<and> length es \<le> 3 \<and>
    exec_steps lim decode es st = Some st' \<and> es_stage st' = Ended (Returned r)"
proof -
  have fin: "\<exists>r. es_stage (finish_exec lim decode s) = Ended (Returned r)" for s
    by (simp add: finish_exec_def)
  have drain: "\<exists>e st'. e \<in> {Settle, DrainOver} \<and> exec_step lim decode e s = Some st' \<and> (\<exists>r. es_stage st' = Ended (Returned r))"
    if "es_stage s = Draining" for s
    using that fin by (cases "readers_over s") (auto intro: exI [of _ Settle] exI [of _ DrainOver])
  have grace: "\<exists>es st'. set es \<subseteq> {Settle, GraceOver, DrainOver} \<and> length es \<le> 2 \<and>
      exec_steps lim decode es s = Some st' \<and> (\<exists>r. es_stage st' = Ended (Returned r))"
    if "es_stage s = Grace" for s
  proof (cases "readers_over s")
    case True
    then show ?thesis
      using that fin by (intro exI [of _ "[Settle]"]) auto
  next
    case False
    let ?s = "(killpg s)\<lparr>es_stage := Draining\<rparr>"
    obtain e st' where e: "e \<in> {Settle, DrainOver}" "exec_step lim decode e ?s = Some st'" "\<exists>r. es_stage st' = Ended (Returned r)"
      using drain [of ?s] by auto
    have "exec_step lim decode GraceOver s = Some ?s"
      using that False by simp
    then have "exec_steps lim decode [GraceOver, e] s = Some st'"
      using e(2) by (simp del: exec_step.simps)
    then show ?thesis
      using e by (intro exI [of _ "[GraceOver, e]"]) auto
  qed
  show ?thesis
  proof (cases "es_stage st")
    case Polling
    let ?s = "st\<lparr>es_stage := Grace\<rparr>"
    obtain es st' where es: "set es \<subseteq> {Settle, GraceOver, DrainOver}" "length es \<le> 2"
      "exec_steps lim decode es ?s = Some st'" "\<exists>r. es_stage st' = Ended (Returned r)"
      using grace [of ?s] by auto
    have "exec_step lim decode Poll st = Some ?s"
      using Polling assms(1) by auto
    then have "exec_steps lim decode (Poll # es) st = Some st'"
      using es(3) by (simp del: exec_step.simps)
    then show ?thesis
      using es by (intro exI [of _ "Poll # es"] exI [of _ st']) auto
  next
    case Grace
    obtain es st' where es: "set es \<subseteq> {Settle, GraceOver, DrainOver}" "length es \<le> 2"
      "exec_steps lim decode es st = Some st'" "\<exists>r. es_stage st' = Ended (Returned r)"
      using grace [OF Grace] by auto
    then show ?thesis
      by (intro exI [of _ es] exI [of _ st']) auto
  next
    case Draining
    obtain e st' where e: "e \<in> {Settle, DrainOver}" "exec_step lim decode e st = Some st'" "\<exists>r. es_stage st' = Ended (Returned r)"
      using drain [OF Draining] by auto
    then have "exec_steps lim decode [e] st = Some st'"
      by (simp del: exec_step.simps)
    then show ?thesis
      using e by (intro exI [of _ "[e]"] exI [of _ st']) auto
  qed (use assms(2) in auto)
qed

text \<open>C28. The supervision of a tool refines its specification: whatever the process and its descendants do and
  whenever the timers fire, what is kept of each stream never passes the limit; a run that has ended has killed
  the process group and left no reader; one that returns does so after the exit of the process with exactly
  the result the specification gives for the chunks that were read; the other ends are the deadline and an
  interruption. And once the process has exited, at most three firings of the timers end the run, even if a
  descendant keeps its output open for ever.\<close>

theorem supervision_refines_run:
  assumes "exec_steps lim decode es spawned = Some st"
  shows "length (rd_kept (es_out st)) \<le> x_max lim \<and> length (rd_kept (es_err st)) \<le> x_max lim \<and>
    (\<forall>e. es_stage st = Ended e \<longrightarrow> 0 < es_kills st \<and> readers_over st \<and>
       (case e of
          Returned r \<Rightarrow> (\<exists>c. Exit c \<in> set es \<and> r = exec_run lim decode (chunks_of OutStream es) (chunks_of ErrStream es) False c)
        | DeadlinePassed \<Rightarrow> Deadline \<in> set es
        | Reraised \<Rightarrow> Interrupt \<in> set es)) \<and>
    (es_code st \<noteq> None \<and> (\<forall>x. es_stage st \<noteq> Ended x) \<longrightarrow>
       (\<exists>es' st' r. set es' \<subseteq> {Poll, Settle, GraceOver, DrainOver} \<and> length es' \<le> 3 \<and>
          exec_steps lim decode es' st = Some st' \<and> es_stage st' = Ended (Returned r)))"
proof -
  have ok: "exec_ok lim decode es st"
    using exec_steps_ok [OF assms spawned_ok] by simp
  then have "length (rd_kept (es_out st)) \<le> x_max lim" "length (rd_kept (es_err st)) \<le> x_max lim"
    by (auto simp: exec_ok_def reader_ok_def)
  moreover have "es_stage st = Ended e \<Longrightarrow> 0 < es_kills st \<and> readers_over st \<and>
       (case e of
          Returned r \<Rightarrow> (\<exists>c. Exit c \<in> set es \<and> r = exec_run lim decode (chunks_of OutStream es) (chunks_of ErrStream es) False c)
        | DeadlinePassed \<Rightarrow> Deadline \<in> set es
        | Reraised \<Rightarrow> Interrupt \<in> set es)" for e
    using ok by (simp add: exec_ok_def)
  ultimately show ?thesis
    using timers_end [of st lim decode] by blast
qed

text \<open>A process that leaves a descendant behind which never closes its output.\<close>

definition sample_exec_events :: "exec_event list" where
  "sample_exec_events = [Chunk OutStream [104, 105], Exit 0, Eof ErrStream, Poll, GraceOver, DrainOver]"

lemma sample_supervision:
  "map_option (\<lambda>st. (rd_kept (es_out st), es_stage st)) (exec_steps \<lparr>x_max = 1, x_kill = 5\<rparr> id sample_exec_events spawned) =
     Some ([104], Ended (Returned (ExecOk (104 # trunc_notice \<lparr>x_max = 1, x_kill = 5\<rparr>) [])))"
  by (simp add: sample_exec_events_def spawned_def new_reader_def read_chunk_def reader_of_def set_reader_def killpg_def
      readers_over_def finish_exec_def cancel_readers_def exec_result_def Let_def)

theorem supervision_refines_run_witness:
  "\<exists>st. exec_steps \<lparr>x_max = 1, x_kill = 5\<rparr> id sample_exec_events spawned = Some st \<and> 0 < es_kills st \<and>
     (\<exists>r. es_stage st = Ended (Returned r) \<and> r = exec_run \<lparr>x_max = 1, x_kill = 5\<rparr> id [[104, 105]] [] False 0)"
proof -
  obtain st where st: "exec_steps \<lparr>x_max = 1, x_kill = 5\<rparr> id sample_exec_events spawned = Some st"
    "es_stage st = Ended (Returned (ExecOk (104 # trunc_notice \<lparr>x_max = 1, x_kill = 5\<rparr>) []))"
    using sample_supervision by auto
  then show ?thesis
    using supervision_refines_run [OF st(1)] by (auto simp: sample_exec_events_def)
qed

end
