(* ===== verification/Protocol.thy ===== *)
theory Protocol
  imports World Dispatcher Outbox
begin

text \<open>
  The wire protocol: \<open>specs/redis_envelopes.py\<close> and \<open>specs/audit_events.py\<close>. Which messages go over which
  stream is stated nowhere in the code; here it is the predicate \<open>typed_envelope\<close>, and every operation of
  theory \<open>World\<close> keeps the outbox and the audit log typed.
\<close>

subsection \<open>The registries\<close>

definition ENVELOPE_TYPES :: "pystr list" where
  "ENVELOPE_TYPES =
     [u ''runner.create_session.v1'', u ''runner.send_input.v1'', u ''runner.resume_session.v1'',
      u ''runner.stop_session.v1'', u ''discord.output_chunk.v1'', u ''discord.system_notice.v1'',
      u ''discord.terminal_notice.v1'', u ''discord.archive_thread.v1'']"

definition AUDIT_EVENT_TYPES :: "pystr list" where
  "AUDIT_EVENT_TYPES =
     [u ''session.create.requested'', u ''session.input.accepted'', u ''session.create.running'',
      u ''session.create.failed'', u ''session.stop.requested'', u ''session.stop.completed'',
      u ''session.archive.requested'', u ''session.archive.completed'', u ''session.resume.requested'',
      u ''session.resume.completed'', u ''session.resume.failed'', u ''session.restart.requested'',
      u ''session.invite.requested'', u ''transcript.quota_exceeded'', u ''worktree.created'',
      u ''worktree.deleted'', u ''worktree.orphan_cleaned'', u ''approval.created'',
      u ''approval.responded'', u ''approval.expired'', u ''approval.auto_approved'']"

text \<open>\<open>emit_event\<close> of \<open>db/models/event.py\<close>: the checked insertion of an audit event.\<close>

definition emit_event ::
  "int \<Rightarrow> pystr \<Rightarrow> pystr \<Rightarrow> pystr option \<Rightarrow> pystr option \<Rightarrow> pystr option \<Rightarrow> payload \<Rightarrow> db \<Rightarrow> unit result \<times> db" where
  "emit_event now key type guild sid actor p d =
     (if type \<notin> set AUDIT_EVENT_TYPES then (Inl (ValueErr (u ''unknown audit event type: '' @ type)), d)
      else if opt_str sid = [] then (Inr (), add_event now (Some key) guild None actor type p d)
      else
        (case uuid_of_str (opt_str sid) of
           None \<Rightarrow> (Inl (ValueErr (u ''badly formed hexadecimal UUID string'')), d)
         | Some i \<Rightarrow> (Inr (), add_event now (Some key) guild (Some i) actor type p d)))"

subsection \<open>Typed messages\<close>

definition text_field :: "string \<Rightarrow> payload \<Rightarrow> bool" where
  "text_field k p \<longleftrightarrow> (case pget k p of Some (JStr t) \<Rightarrow> True | _ \<Rightarrow> False)"

definition int_field :: "string \<Rightarrow> payload \<Rightarrow> bool" where
  "int_field k p \<longleftrightarrow> (case pget k p of Some (JInt t) \<Rightarrow> True | _ \<Rightarrow> False)"

definition uuid_field :: "string \<Rightarrow> payload \<Rightarrow> bool" where
  "uuid_field k p \<longleftrightarrow> (case pget k p of Some (JStr t) \<Rightarrow> uuid_of_str t \<noteq> None | _ \<Rightarrow> False)"

text \<open>
  A message is typed when it names its own type, an idempotency key and a session, travels on the stream whose
  consumer handles its type, and carries what that handler reads.
\<close>

definition typed_envelope :: "stream_entry \<Rightarrow> bool" where
  "typed_envelope e \<longleftrightarrow>
     (case e of (stream, p, ety) \<Rightarrow>
        pget ''type'' p = Some (JStr ety) \<and> text_field ''idempotency_key'' p \<and> uuid_field ''session_id'' p \<and>
        (if prefix (u ''runner:jobs:'') stream then
           (ety = u ''runner.create_session.v1'' \<and> \<not> isl (parse_create_job_payload p)) \<or>
           (ety \<in> {u ''runner.stop_session.v1'', u ''runner.resume_session.v1'', u ''runner.restart_session.v1''} \<and>
              int_field ''lifecycle_version'' p)
         else if prefix (u ''input:jobs:'') stream then
           ety = u ''runner.send_input.v1'' \<and> \<not> isl (parse_input_job [] p) \<and> int_field ''lifecycle_version'' p
         else
           stream = discord_outbound \<and> text_field ''thread_id'' p \<and>
           ety \<in> {u ''discord.system_notice.v1'', u ''discord.terminal_notice.v1'', u ''discord.archive_thread.v1''}))"

definition wire_ok :: "db \<Rightarrow> bool" where
  "wire_ok d \<longleftrightarrow>
     (\<forall>r \<in> set (d_outbox d). typed_envelope (entry_of r)) \<and>
     (\<forall>e \<in> set (d_events d). e_type e \<in> set AUDIT_EVENT_TYPES)"

subsection \<open>What is typed\<close>

named_theorems typing \<open>typed messages and the tables they are kept in\<close>

lemma stream_prefix [simp]:
  "prefix (u ''runner:jobs:'') (runner_jobs h)" "prefix (u ''input:jobs:'') (input_jobs h)"
  "\<not> prefix (u ''runner:jobs:'') (input_jobs h)" "\<not> prefix (u ''runner:jobs:'') discord_outbound"
  "\<not> prefix (u ''input:jobs:'') discord_outbound"
  by (simp_all add: runner_jobs_def input_jobs_def discord_outbound_def u_def)

lemma wire_write [typing]:
  "wire_ok (write_outbox now pr st ety p d) \<longleftrightarrow> typed_envelope (st, p, ety) \<and> wire_ok d"
  by (auto simp: wire_ok_def write_outbox_def entry_of_def)

lemma wire_event [typing]:
  "wire_ok (add_event now key g i a ty p d) \<longleftrightarrow> ty \<in> set AUDIT_EVENT_TYPES \<and> wire_ok d"
  by (auto simp: wire_ok_def add_event_def)

lemma wire_frame: "d_outbox d' = d_outbox d \<Longrightarrow> d_events d' = d_events d \<Longrightarrow> wire_ok d' = wire_ok d"
  by (simp add: wire_ok_def)

lemma wire_upd [typing]:
  "wire_ok (upd_sessions q f d) = wire_ok d" "wire_ok (upd_turns q2 h d) = wire_ok d"
  "wire_ok (set_session sid f d) = wire_ok d" "wire_ok (set_turn key h d) = wire_ok d"
  "wire_ok (release_superseded sid d) = wire_ok d" "wire_ok (ensure_user i n d) = wire_ok d"
  "wire_ok (ensure_guild g d) = wire_ok d" "wire_ok (insert_session s d) = wire_ok d"
  "wire_ok (add_member sid i r d) = wire_ok d" "wire_ok (insert_turn now key sid v d) = wire_ok d"
  "wire_ok (snd (fenced_update sid v ss f d)) = wire_ok d" "wire_ok (mark_turn now key st only d) = wire_ok d"
  "wire_ok (mark_uncertain now key d) = wire_ok d" "wire_ok (upsert_executing now key sid v d) = wire_ok d"
  "wire_ok (complete now key sid v reply token d) = wire_ok d"
  by (rule wire_frame;
      simp add: upd_sessions_def upd_turns_def set_session_def set_turn_def release_superseded_def ensure_user_def
        ensure_guild_def insert_session_def add_member_def insert_turn_def fenced_update_def mark_turn_def
        mark_uncertain_def upsert_executing_def complete_def)+

text \<open>Every kind of message that is sent.\<close>

lemmas typed_defs = typed_envelope_def text_field_def int_field_def uuid_field_def

lemma typed_notices [typing]:
  "typed_envelope (discord_outbound, system_notice key (uuid_str i) g th k m, u ''discord.system_notice.v1'')"
  "typed_envelope (discord_outbound, terminal_notice key (uuid_str i) g th m, u ''discord.terminal_notice.v1'')"
  "typed_envelope (discord_outbound, pset ''guild_id'' v (system_notice key (uuid_str i) g th k m), u ''discord.system_notice.v1'')"
  "typed_envelope (discord_outbound, pset ''guild_id'' v (terminal_notice key (uuid_str i) g th m), u ''discord.terminal_notice.v1'')"
  by (simp_all add: typed_defs system_notice_def terminal_notice_def)

lemma typed_job_notices [typing]:
  "uuid_of_str t \<noteq> None \<Longrightarrow> typed_envelope (discord_outbound, system_notice key t g th k m, u ''discord.system_notice.v1'')"
  "uuid_of_str t \<noteq> None \<Longrightarrow> typed_envelope (discord_outbound, terminal_notice key t g th m, u ''discord.terminal_notice.v1'')"
  by (simp_all add: typed_defs system_notice_def terminal_notice_def)

lemma typed_stop [typing]:
  "typed_envelope (runner_jobs h, stop_job key s, u ''runner.stop_session.v1'')"
  "typed_envelope (runner_jobs h, stop_job key s @ q, u ''runner.stop_session.v1'')"
  by (simp_all add: typed_defs stop_job_def pget_def)

subsection \<open>The bot\<close>

lemma jopt_some: "opt_str x \<noteq> [] \<Longrightarrow> jopt x = JStr (opt_str x)"
  by (cases x) (simp_all add: jopt_def opt_str_def)

lemma audit_types [typing]:
  "u ''session.create.requested'' \<in> set AUDIT_EVENT_TYPES" "u ''session.input.accepted'' \<in> set AUDIT_EVENT_TYPES"
  "u ''session.create.running'' \<in> set AUDIT_EVENT_TYPES" "u ''session.create.failed'' \<in> set AUDIT_EVENT_TYPES"
  "u ''session.stop.requested'' \<in> set AUDIT_EVENT_TYPES" "u ''session.archive.requested'' \<in> set AUDIT_EVENT_TYPES"
  "u ''session.resume.requested'' \<in> set AUDIT_EVENT_TYPES" "u ''session.restart.requested'' \<in> set AUDIT_EVENT_TYPES"
  "u ''session.invite.requested'' \<in> set AUDIT_EVENT_TYPES"
  by (simp_all add: AUDIT_EVENT_TYPES_def)

lemma wire_stop: "wire_ok d \<Longrightarrow> wire_ok (snd (run_stop_saga now k1 k2 sid guild who host d))"
  by (simp add: run_stop_saga_def Let_def typing split: option.split) (simp add: typed_defs)

lemma wire_archive: "wire_ok d \<Longrightarrow> wire_ok (snd (run_archive_saga now k1 k2 k3 sid guild d))"
  by (simp add: run_archive_saga_def Let_def typing split: option.split) (simp add: typed_defs jopt_some)

lemma wire_resume: "wire_ok d \<Longrightarrow> wire_ok (snd (run_resume_saga now k1 k2 sid guild host d))"
  by (simp add: run_resume_saga_def Let_def typing split: option.split) (simp add: typed_defs)

lemma wire_restart: "wire_ok d \<Longrightarrow> wire_ok (snd (run_restart_saga now k1 k2 sid guild who d))"
  by (simp add: run_restart_saga_def Let_def typing split: option.split) (simp add: typed_defs)

lemma wire_invite: "wire_ok d \<Longrightarrow> wire_ok (snd (invite_user_to_session now k sid guild invitee name d))"
proof -
  assume "wire_ok d"
  moreover have "wire_ok (d\<lparr>d_members := m\<rparr>) = wire_ok d" for m d
    by (rule wire_frame) simp_all
  ultimately show ?thesis
    by (simp add: invite_user_to_session_def Let_def typing split: option.split)
qed

lemma wire_create: "wire_ok d \<Longrightarrow> wire_ok (snd (run_create_saga cfg now sid k1 k2 sh ct a d))"
  by (simp add: run_create_saga_def Let_def typing split: option.split)
    (simp add: typed_defs parse_create_job_payload_def field_def jopt_def split: option.split)

lemma wire_input: "wire_ok d \<Longrightarrow> wire_ok (snd (run_input_saga cfg q now key a d))"
  by (simp add: run_input_saga_def Let_def typing split: option.split sum.split bool.split)
    (simp add: typed_defs parse_input_job_def field_def jopt_def split: option.split)

text \<open>Binding a thread writes it into the queued creation.\<close>

lemma isl_bind: "isl (bind_result_of x f) \<longleftrightarrow> isl x \<or> isl (f (projr x))"
  by (cases x) simp_all

lemma isl_field: "isl (field k p) \<longleftrightarrow> pget k p = None"
  by (simp add: field_def split: option.split)

lemma parse_fields:
  "isl (parse_create_job_payload p) \<longleftrightarrow> (\<exists>k \<in> {''session_id'', ''guild_id'', ''owner_id'', ''tool'', ''cwd_realpath'',
     ''thread_id'', ''hook_secret_ciphertext'', ''idempotency_key''}. pget k p = None)"
  "isl (parse_input_job host p) \<longleftrightarrow> (\<exists>k \<in> {''session_id'', ''guild_id'', ''text'', ''idempotency_key''}. pget k p = None)"
  by (simp_all add: parse_create_job_payload_def parse_input_job_def isl_bind isl_field)

lemma typed_rebound:
  assumes "typed_envelope (entry_of r)"
  shows "typed_envelope (entry_of (r\<lparr>o_payload := pset ''thread_id'' (JStr t) (o_payload r)\<rparr>))"
proof -
  have "isl (parse_create_job_payload (pset ''thread_id'' (JStr t) (o_payload r))) \<Longrightarrow> isl (parse_create_job_payload (o_payload r))"
    "isl (parse_input_job [] (pset ''thread_id'' (JStr t) (o_payload r))) \<Longrightarrow> isl (parse_input_job [] (o_payload r))"
    unfolding parse_fields by auto
  then show ?thesis
    using assms by (auto simp: typed_envelope_def text_field_def int_field_def uuid_field_def entry_of_def)
qed

lemma wire_bind: "wire_ok d \<Longrightarrow> wire_ok (snd (bind_session_thread sid thread d))"
proof -
  assume ok: "wire_ok d"
  have "wire_ok (d'\<lparr>d_outbox := upd p (\<lambda>r. r\<lparr>o_payload := pset ''thread_id'' (JStr thread) (o_payload r)\<rparr>) (d_outbox d)\<rparr>)"
    if "d_events d' = d_events d" for p d'
    using ok that typed_rebound by (auto simp: wire_ok_def upd_def)
  then show ?thesis
    using ok by (simp add: bind_session_thread_def set_session_def upd_sessions_def split: option.split)
qed

lemma wire_bot: "wire_ok d \<Longrightarrow> wire_ok (perform x d)"
  by (cases x) (simp_all add: wire_create wire_input wire_bind wire_stop wire_archive wire_resume wire_restart wire_invite)

subsection \<open>The contract of an operation\<close>

locale typed_op =
  fixes oper :: "'a \<Rightarrow> db \<Rightarrow> db"
  assumes keeps_wire: "wire_ok d \<Longrightarrow> wire_ok (oper x d)"
begin

lemma keeps_wire_all: "wire_ok d \<Longrightarrow> wire_ok (foldr oper xs d)"
  by (induction xs) (simp_all add: keeps_wire)

end

interpretation typed_bot: typed_op perform
  by unfold_locales (rule wire_bot)

subsection \<open>The janitor\<close>

lemma wire_for_rows:
  "(\<And>n s d. wire_ok d \<Longrightarrow> wire_ok (act n s d)) \<Longrightarrow> wire_ok d \<Longrightarrow> wire_ok (for_rows act n rows d)"
  by (induction rows arbitrary: n d) simp_all

lemma wire_sweep:
  "(\<And>n s d. wire_ok d \<Longrightarrow> wire_ok (act n s d)) \<Longrightarrow> wire_ok d \<Longrightarrow> wire_ok (snd (sweep p f act d))"
  by (simp add: sweep_def update_returning_def wire_for_rows typing)

lemma wire_sweeps:
  assumes "wire_ok d"
  shows "wire_ok (snd (sweep_creating_watchdog cfg now keys d))" "wire_ok (snd (sweep_resuming_watchdog cfg now keys d))"
    "wire_ok (snd (sweep_idle_timeout m now d))" "wire_ok (snd (sweep_stopping_watchdog m now d))"
    "wire_ok (snd (sweep_stop_timeout m now keys d))" "wire_ok (snd (sweep_runner_heartbeat_orphans cfg m now keys d))"
proof -
  have stale: "wire_ok (mark_stale_hosts cfg now d) = wire_ok d"
    by (rule wire_frame) (simp_all add: mark_stale_hosts_def)
  show "wire_ok (snd (sweep_creating_watchdog cfg now keys d))" "wire_ok (snd (sweep_resuming_watchdog cfg now keys d))"
    "wire_ok (snd (sweep_idle_timeout m now d))" "wire_ok (snd (sweep_stopping_watchdog m now d))"
    "wire_ok (snd (sweep_stop_timeout m now keys d))" "wire_ok (snd (sweep_runner_heartbeat_orphans cfg m now keys d))"
    unfolding sweep_creating_watchdog_def sweep_resuming_watchdog_def sweep_idle_timeout_def sweep_stopping_watchdog_def
      sweep_stop_timeout_def sweep_runner_heartbeat_orphans_def Let_def
    by (rule wire_sweep; simp add: assms janitor_notice_def typing stale)+
qed

lemma wire_sweep_archive:
  assumes "wire_ok d"
  shows "wire_ok (snd (sweep_archive_timeout m now keys d))"
  unfolding sweep_archive_timeout_def
proof (rule wire_sweep [OF _ assms])
  have "typed_envelope (discord_outbound, pset ''guild_id'' v
      [(u ''type'', JStr (u ''discord.archive_thread.v1'')), (u ''idempotency_key'', JStr k),
       (u ''session_id'', JStr (uuid_str i)), (u ''guild_id'', JNull), (u ''thread_id'', JStr th)], u ''discord.archive_thread.v1'')"
    for v k i th
    by (simp add: typed_defs)
  then show "wire_ok (let d = (if opt_str (s_host s) = [] then d
                   else write_outbox now (u ''janitor'') (runner_jobs (opt_str (s_host s))) (u ''runner.stop_session.v1'')
                          (stop_job (keys (2 * n)) s @ [(u ''preserve_archived'', JBool True)]) d)
          in janitor_notice now (u ''discord.archive_thread.v1'')
               [(u ''type'', JStr (u ''discord.archive_thread.v1'')),
                (u ''idempotency_key'', JStr (keys (2 * n + 1))), (u ''session_id'', JStr (uuid_str (s_id s))),
                (u ''guild_id'', JNull), (u ''thread_id'', JStr (opt_str (s_thread s)))] s d)"
    if "wire_ok d" for n s d
    using that by (simp add: janitor_notice_def typing)
qed

lemma wire_retention:
  assumes "wire_ok d"
  shows "wire_ok (snd (sweep_idempotency_keys n now d))" "wire_ok (snd (sweep_events n m now d))"
    "wire_ok (snd (sweep_outbox n m now d))" "wire_ok (snd (sweep_turn_results n r now d))"
proof -
  show "wire_ok (snd (sweep_idempotency_keys n now d))"
    using assms by (simp add: sweep_idempotency_keys_def case_prod_beta wire_ok_def)
  show "wire_ok (snd (sweep_events n m now d))" "wire_ok (snd (sweep_outbox n m now d))"
    using assms delete_batch_subset by (fastforce simp: sweep_events_def sweep_outbox_def case_prod_beta wire_ok_def)+
  show "wire_ok (snd (sweep_turn_results n r now d))"
    using assms by (simp add: sweep_turn_results_def Let_def typing split: option.split)
qed

lemma wire_repair_one: "wire_ok d \<Longrightarrow> wire_ok (snd (repair_one m c d))"
  by (simp add: repair_one_def retire_drifted_def count_attempt_def clear_marker_def Let_def case_prod_beta
      wire_bind typing split: option.split)

lemma wire_repair_all:
  "(\<And>n d. wire_ok d \<Longrightarrow> wire_ok (gap n d)) \<Longrightarrow> wire_ok d \<Longrightarrow> wire_ok (snd (repair_all m gap n cs d))"
  by (induction cs arbitrary: n d) (simp_all add: Let_def case_prod_beta wire_repair_one split: repair.split)

lemma wire_janitor_sweeps:
  assumes "f \<in> set (janitor_sweeps udigit cfg now keys (\<lambda>_ d. d))" "wire_ok d"
  shows "wire_ok (snd (f d))"
  using assms unfolding janitor_sweeps_def Let_def
  by (auto simp: wire_sweeps wire_sweep_archive wire_retention counted_def wire_repair_all case_prod_beta
      sweep_session_thread_binding_drift_def)

lemma wire_run_sweeps:
  "(\<And>f d. f \<in> set fs \<Longrightarrow> wire_ok d \<Longrightarrow> wire_ok (snd (f d))) \<Longrightarrow> wire_ok d \<Longrightarrow>
   wire_ok (snd (snd (run_sweeps down n fs acc d)))"
  by (induction fs arbitrary: n acc d) (simp_all add: Let_def case_prod_beta)

interpretation typed_janitor: typed_op janitor_pass
proof
  show "wire_ok (janitor_pass a d)" if "wire_ok d" for a d
    unfolding janitor_pass_def run_sweep_once_def
    by (auto simp: case_prod_beta intro!: wire_run_sweeps wire_janitor_sweeps that)
qed

interpretation typed_env: typed_op env_step
proof
  show "wire_ok (env_step x d)" if "wire_ok d" for x d
    using that by (cases x) (simp_all add: typed_bot.keeps_wire typed_janitor.keeps_wire)
qed

subsection \<open>The runner\<close>

lemma wire_running:
  "wire_ok d \<Longrightarrow> uuid_of_str (cj_session j) \<noteq> None \<Longrightarrow> wire_ok (snd (set_running now key rc sid j token d))"
  by (simp add: set_running_def typing)

lemma wire_fail: "wire_ok d \<Longrightarrow> wire_ok (fail_and_notify now key sid g t r d)"
  by (simp add: fail_and_notify_def typing)

lemma wire_create_job:
  assumes "\<And>n d. wire_ok d \<Longrightarrow> wire_ok (gap n d)" "wire_ok d"
  shows "wire_ok (snd (snd (run_create_job cfg rc gap now key fresh j (store, d))))"
  using assms
  by (simp add: run_create_job_def Let_def wire_fail wire_running case_prod_beta
      split: option.split sum.split cwd_verdict.split exc.split)

lemma wire_resume_job:
  assumes "\<And>n d. wire_ok d \<Longrightarrow> wire_ok (gap n d)" "wire_ok d"
  shows "wire_ok (snd (snd (run_resume_job rc gap now key fresh bad p (store, d))))"
  using assms
  by (simp add: run_resume_job_def Let_def typing case_prod_beta split: option.split sum.split cwd_verdict.split)

lemma wire_recover_rows:
  assumes "\<And>n d. wire_ok d \<Longrightarrow> wire_ok (gap n d)" "wire_ok d"
  shows "wire_ok (snd (snd (snd (recover_rows rc gap bad n rows (store, d)))))"
proof -
  have "wire_ok (snd (snd (recover_row rc (gap m) b s (store, d))))" if "wire_ok d" for m b s store d
    using assms(1) that by (simp add: recover_row_def Let_def typing split: cwd_verdict.split)
  then have row: "wire_ok (snd (snd (recover_row rc (gap m) b s st)))" if "wire_ok (snd st)" for m b s st
    using that by (cases st) simp
  have "wire_ok (snd (snd (snd (recover_rows rc gap bad n rows st))))" if "wire_ok (snd st)" for st
    using that
  proof (induction rows arbitrary: n st)
    case (Cons s rows)
    then show ?case
      using assms(1) row by (cases st) (simp add: Let_def case_prod_beta)
  next
    case Nil
    then show ?case
      by (cases st) simp
  qed
  then show ?thesis
    using assms(2) by simp
qed

lemma wire_stop_job:
  assumes "\<And>n d. wire_ok d \<Longrightarrow> wire_ok (re_gap ev n d)" "wire_ok d"
  shows "wire_ok (snd (snd (run_stop_job ev restart p (store, d))))"
proof -
  have "snd (snd (case x of (Inl e, st) \<Rightarrow> (Inl e, st) | (Inr y, st) \<Rightarrow> (Inr True, st))) = snd (snd x)"
    for x :: "bool result \<times> store \<times> db"
    by (cases x; cases "fst x") auto
  then show ?thesis
    using assms by (simp add: run_stop_job_def Let_def typing wire_resume_job split: option.split)
qed

lemma wire_input_job:
  assumes "\<And>n d. wire_ok d \<Longrightarrow> wire_ok (gap n d)" "wire_ok d"
  shows "wire_ok (snd (snd (snd (run_input_job cfg x run post gap now locked j (store, d)))))"
proof -
  have a: "wire_ok (snd (admit now key sid v d))" if "wire_ok d" for key sid v d
    using that by (simp add: admit_def Let_def case_prod_beta typing)
  have p: "wire_ok (snd (post_phase post (gap n) now key reply d))" if "wire_ok d" for n key reply d
    using assms(1) that by (simp add: post_phase_def typing split: post_outcome.split)
  show ?thesis
    using assms by (simp add: run_input_job_def run_locked_def Let_def case_prod_beta a p typing
        split: option.split plan.split sum.split)
qed

lemma wire_dispatch:
  assumes "\<And>n d. wire_ok d \<Longrightarrow> wire_ok (re_gap ev n d)" "wire_ok d"
  shows "wire_ok (snd (snd (snd (dispatch_runner_job ev f (store, d)))))"
  using assms wire_create_job [OF assms] wire_resume_job [OF assms] wire_stop_job [OF assms] wire_input_job [OF assms]
  by (simp add: dispatch_runner_job_def Let_def case_prod_beta split: option.split json_doc.split sum.split)

interpretation typed_world: typed_op world_step
proof
  have g: "wire_ok (between g n d)" if "wire_ok d" for g n d
    using that by (simp add: between_def typed_env.keeps_wire_all)
  show "wire_ok (world_step x d)" if "wire_ok d" for x d
    using that by (cases x) (simp_all add: typed_env.keeps_wire wire_dispatch recover_sessions_def wire_recover_rows g)
qed

subsection \<open>Properties\<close>

text \<open>What a pass of the relay publishes.\<close>

lemma drain_rows_sent: "e \<in> set (fst (drain_rows cfg xadd clk rows d)) \<Longrightarrow> e \<in> entry_of ` set rows"
proof (induction rows arbitrary: d)
  case (Cons r rows)
  then show ?case
    by (cases "xadd r") (auto simp: case_prod_beta)
qed simp

lemma drain_batch_sent:
  assumes "e \<in> set (fst (snd (drain_batch cfg producer xadd clk now locked un0 d)))"
  shows "e \<in> entry_of ` set (d_outbox d)"
proof -
  have "e \<in> entry_of ` set (batch cfg producer now locked d)"
    using assms drain_rows_sent by (auto simp: drain_batch_def Let_def case_prod_beta split: if_splits)
  then show ?thesis
    using set_batch by blast
qed

text \<open>C8. The wire protocol is typed, whatever the bot, the janitor and the runner's jobs do in any order.\<close>

theorem messages_are_typed:
  assumes "wire_ok d"
  shows "(\<forall>e \<in> set (fst (snd (drain_batch cfg producer xadd clk now locked False (foldr world_step xs d)))). typed_envelope e) \<and>
     (\<forall>e \<in> set (d_events (foldr world_step xs d)). e_type e \<in> set AUDIT_EVENT_TYPES)"
proof -
  have "wire_ok (foldr world_step xs d)"
    by (rule typed_world.keeps_wire_all [OF assms])
  then show ?thesis
    using drain_batch_sent unfolding wire_ok_def by blast
qed

theorem messages_are_typed_witness:
  "list_all typed_envelope
     (fst (snd (drain_batch sample_cfg (u ''bot'') (\<lambda>_. XOk) (\<lambda>_. 9) 5 (\<lambda>_. False) False
        (foldr world_step sample_history sample_db))))"
proof -
  have "wire_ok sample_db"
    by (simp add: wire_ok_def sample_defs)
  then show ?thesis
    unfolding list_all_iff by (rule messages_are_typed [THEN conjunct1])
qed

text \<open>The registry of envelope types is not the protocol: the bot sends a restart job of a type it lacks.\<close>

lemma restart_is_unregistered:
  assumes "session_of sid d = Some s" "s_guild s = Some guild" "s_status s \<in> {Running, Idle, Stopped}"
  shows "\<exists>r \<in> set (d_outbox (snd (run_restart_saga now k1 k2 sid guild who d))).
     typed_envelope (entry_of r) \<and> snd (snd (entry_of r)) \<notin> set ENVELOPE_TYPES"
  using assms by (auto simp: run_restart_saga_def write_outbox_def entry_of_def typed_defs ENVELOPE_TYPES_def u_def
      runner_jobs_def pget_def)

end
