(* ===== verification/Outbound.thy ===== *)
theory Outbound
  imports Redaction Rate_Limiter Discord_Rest
begin

text \<open>
  \<open>_send_to_discord\<close> of \<open>dispatcher/main.py\<close>, the one way of a notice to Discord: the permit of the rate limiter, the
  redaction, and the retrying request, whose \<open>Retry-After\<close> answers feed the limiter. It joins theories
  \<open>Rate_Limiter\<close>, \<open>Redaction\<close> and \<open>Discord_Rest\<close>.
\<close>

text \<open>What the process and its surroundings give to a call.\<close>

record outbound_env =
  ob_cfg :: settings
  ob_word :: "nat \<Rightarrow> bool"
  ob_netloc :: "pystr \<Rightarrow> bool"
  ob_digest :: "pystr \<Rightarrow> pystr"
  ob_client :: sender
  ob_answer :: "nat \<Rightarrow> exc + response"
  ob_unarchive :: "exc + response"
  ob_jitter :: "nat \<Rightarrow> rat"

text \<open>
  The callback that \<open>set_retry_after_callback\<close> registers, run at clock \<open>clk n\<close> for the \<open>n\<close>-th action.
\<close>

definition feed_limiter :: "(nat \<Rightarrow> rat) \<Rightarrow> pystr \<Rightarrow> action list \<Rightarrow> limiter \<Rightarrow> limiter" where
  "feed_limiter clk thread acts l =
     fold (\<lambda>(n, a) l. case a of CoolOff d \<Rightarrow> note_retry_after (clk n) thread d l | _ \<Rightarrow> l) (List.enumerate 0 acts) l"

definition send_to_discord ::
  "outbound_env \<Rightarrow> (nat \<Rightarrow> rat) \<Rightarrow> rat \<Rightarrow> rat \<Rightarrow> rat \<Rightarrow> pystr \<Rightarrow> pystr \<Rightarrow> pystr option \<Rightarrow> limiter \<Rightarrow>
   rat \<times> action list \<times> pystr result \<times> limiter" where
  "send_to_discord ob clk now o1 o2 thread message nonce l =
     (let (l, start) = acquire now o1 o2 thread l;
          redacted = apply_common_redaction (ob_word ob) (ob_netloc ob) (Some (ob_cfg ob)) message;
          (acts, res) = send_message (ob_cfg ob) (ob_digest ob) (ob_client ob) (ob_answer ob) (unarchive_thread (ob_unarchive ob))
                          (ob_jitter ob) redacted nonce
      in (start, acts, res, feed_limiter clk thread acts l))"

lemma feed_limiter_same [simp]:
  "l_tokens (feed_limiter clk thread acts l) = l_tokens l" "l_last (feed_limiter clk thread acts l) = l_last l"
proof -
  have "l_tokens (fold (\<lambda>(n, a) l. case a of CoolOff d \<Rightarrow> note_retry_after (clk n) thread d l | _ \<Rightarrow> l) xs l) = l_tokens l \<and>
    l_last (fold (\<lambda>(n, a) l. case a of CoolOff d \<Rightarrow> note_retry_after (clk n) thread d l | _ \<Rightarrow> l) xs l) = l_last l" for xs
    by (induction xs arbitrary: l) (auto simp: note_retry_after_def split: action.split)
  then show "l_tokens (feed_limiter clk thread acts l) = l_tokens l" "l_last (feed_limiter clk thread acts l) = l_last l"
    by (simp_all add: feed_limiter_def)
qed


definition sample_outbound :: outbound_env where
  "sample_outbound =
     \<lparr>ob_cfg = default_settings (u ''token-value'') (u ''x'') (u ''y'') (u ''key'') TrustedHost, ob_word = (\<lambda>_. False),
      ob_netloc = (\<lambda>_. True), ob_digest = (\<lambda>t. t), ob_client = Sender 3 1, ob_answer = sample_answers, ob_unarchive = sample_answers 1,
      ob_jitter = (\<lambda>_. 0)\<rparr>"


end
