(* ===== verification/Tool_Probe.thy ===== *)
theory Tool_Probe
  imports Tool_Seeds Samples
begin

text \<open>
  \<open>scripts/tool_probe.py\<close>: the conformance probe of a tool definition. It builds the commands the runner would build
  and reports a verdict per check. The printed details are left out. The theorem shows what a passed probe of one
  fixed prompt says of every prompt.
\<close>

subsection \<open>Reports\<close>

datatype verdict = PASS | FAIL | WARN | SKIP

type_synonym report = "(verdict \<times> pystr) list"

definition load_definition :: "pystr \<Rightarrow> tool_def list \<Rightarrow> tool_def option" where
  "load_definition name rows = find (\<lambda>r. td_name r = name) rows"

text \<open>The environment of the probe, \<open>shutil.which\<close> for a search path, and the expansion of a tilde.\<close>

record probe_ctx =
  pb_engine :: engine
  pb_environ :: env
  pb_which :: "pystr \<Rightarrow> pystr \<Rightarrow> pystr option"
  pb_expanduser :: "pystr \<Rightarrow> pystr"

definition resolve_binary :: "probe_ctx \<Rightarrow> tool_config \<Rightarrow> pystr option" where
  "resolve_binary pb c =
     pb_which pb (hd (td_prefix c))
       (join_strs (u '':'') (map (pb_expanduser pb) (td_extra_paths c) @ [env_get (pb_environ pb) (u ''PATH'')]))"

subsection \<open>Static checks\<close>

definition pass_if :: "bool \<Rightarrow> verdict \<Rightarrow> string \<Rightarrow> verdict \<times> pystr" where
  "pass_if b otherwise name = (if b then PASS else otherwise, u name)"

definition PROBE_PROMPT :: pystr where "PROBE_PROMPT = u ''PROMPT''"
definition DASH_PROMPT :: pystr where "DASH_PROMPT = u ''-PROMPT''"

text \<open>Multi-turn continuity: does the first command name the conversation?\<close>

definition continuity :: "tool_config \<Rightarrow> pystr option \<Rightarrow> pystr list \<Rightarrow> verdict \<times> pystr" where
  "continuity c token first =
     (if td_source c = SrcNone then (WARN, u ''multi-turn continuity'')
      else if td_source c = CallerUuid then
        pass_if (opt_str token \<noteq> [] \<and> opt_str token \<in> set first) FAIL ''multi-turn continuity''
      else (PASS, u ''multi-turn continuity''))"

text \<open>
  The prompt guard: \<open>guarded.index("-PROMPT")\<close> is outside the \<open>try\<close>, so a command without that argument
  ends the probe with \<open>ValueError\<close>.
\<close>

definition prompt_guard :: "pystr list result \<Rightarrow> (verdict \<times> pystr) result" where
  "prompt_guard guarded =
     (case guarded of
        Inl e \<Rightarrow> Inr (PASS, u ''prompt flag-injection guard'')
      | Inr argv \<Rightarrow>
          if DASH_PROMPT \<in> set argv then
            Inr (pass_if (u ''--'' \<in> set (takeWhile (\<lambda>a. a \<noteq> DASH_PROMPT) argv)) FAIL ''prompt flag-injection guard'')
          else Inl (ValueErr (u ''list.index(x): x not in list'')))"

text \<open>Returns the report and whether there is an adapter for the live checks.\<close>

definition static_checks :: "probe_ctx \<Rightarrow> uuid \<Rightarrow> tool_def \<Rightarrow> (report \<times> bool) result" where
  "static_checks pb fresh t =
     (let c = td_config t in
      if validate_tool_config (pb_engine pb) c (Some (td_name t)) \<noteq> None then
        Inr ([(FAIL, u ''definition validates'')], False)
      else
        (let r = [(PASS, u ''definition validates''), pass_if (resolve_binary pb c \<noteq> None) FAIL ''binary on PATH''];
             token = mint_initial_token c fresh
         in case (exec_cmd c PROBE_PROMPT token, exec_cmd c PROBE_PROMPT (Some (or_str token (Some (u ''TOKEN''))))) of
              (Inr first, Inr later) \<Rightarrow>
                (case prompt_guard (exec_cmd c DASH_PROMPT token) of
                   Inl e \<Rightarrow> Inl e
                 | Inr g \<Rightarrow>
                     Inr (r @ [(PASS, u ''turn argv constructed''), continuity c token first, g,
                            pass_if (u ''HOME'' \<in> fst ` set (scrub_env (pb_environ pb) (td_env c))) WARN
                              ''env allowlist includes HOME''], True))
            | _ \<Rightarrow> Inr (r @ [(FAIL, u ''execution contract'')], False)))"

subsection \<open>Live checks\<close>

text \<open>
  \<open>run n argv\<close> is the outcome of turn \<open>n\<close>: the output and the error stream, or one of the exceptions that are caught.
\<close>

definition recall_prompt :: pystr where
  "recall_prompt = u ''What code word did I ask you to remember? Reply with just it.''"

definition remember_prompt :: "pystr \<Rightarrow> pystr" where
  "remember_prompt nonce = u ''Remember this code word: '' @ nonce @ u ''. Reply with just: OK''"

definition probe_turn ::
  "tool_config \<Rightarrow> (pystr list \<Rightarrow> (pystr \<times> pystr) option) \<Rightarrow> pystr \<Rightarrow> pystr option \<Rightarrow> (pystr \<times> pystr) option" where
  "probe_turn c run prompt token = (case exec_cmd c prompt token of Inl e \<Rightarrow> None | Inr argv \<Rightarrow> run argv)"

definition live_checks ::
  "engine \<Rightarrow> tool_config \<Rightarrow> (nat \<Rightarrow> pystr list \<Rightarrow> (pystr \<times> pystr) option) \<Rightarrow> pystr \<Rightarrow> uuid \<Rightarrow> report" where
  "live_checks eng c run nonce fresh =
     (let token = mint_initial_token c fresh in
      case probe_turn c (run 1) (remember_prompt nonce) token of
        None \<Rightarrow> [(FAIL, u ''turn 1 runs'')]
      | Some (out, err) \<Rightarrow>
          (let reply = extract_reply eng c out err; scraped = parse_resume_token eng c out err;
               next_token = str_opt (or_str scraped token);
               r = [(PASS, u ''turn 1 runs''), pass_if (py_strip reply \<noteq> []) FAIL ''reply extracts non-empty'',
                    pass_if (strip_ansi reply = reply) FAIL ''reply is ANSI-free'',
                    if td_source c = CallerUuid then pass_if (scraped = None) FAIL ''minted token survives turn 1''
                    else pass_if (next_token \<noteq> None) FAIL ''resume token obtained'']
           in case probe_turn c (run 2) recall_prompt next_token of
                None \<Rightarrow> r @ [(FAIL, u ''turn 2 runs'')]
              | Some (out2, err2) \<Rightarrow>
                  r @ [(PASS, u ''turn 2 runs''),
                       pass_if (contains nonce (extract_reply eng c out2 err2)) FAIL ''two turns share one session'']))"

definition failed :: "report \<Rightarrow> bool" where
  "failed r \<longleftrightarrow> FAIL \<in> fst ` set r"

text \<open>\<open>main\<close>: the report and the exit status.\<close>

definition probe ::
  "probe_ctx \<Rightarrow> (nat \<Rightarrow> pystr list \<Rightarrow> (pystr \<times> pystr) option) \<Rightarrow> bool \<Rightarrow> pystr \<Rightarrow> uuid \<Rightarrow> uuid \<Rightarrow> tool_def \<Rightarrow>
   (report \<times> int) result" where
  "probe pb run live nonce fresh fresh' t =
     (case static_checks pb fresh t of
        Inl e \<Rightarrow> Inl e
      | Inr (r, adapter) \<Rightarrow>
          (let r = r @ (if live \<and> adapter \<and> \<not> failed r
                        then live_checks (pb_engine pb) (td_config t) run nonce fresh'
                        else [(SKIP, u ''two-turn continuity unverified'')])
           in Inr (r, if failed r then 1 else 0)))"

subsection \<open>What a passed probe says\<close>

lemma failed_simps [simp]:
  "failed (r @ r') \<longleftrightarrow> failed r \<or> failed r'" "failed ((v, n) # r) \<longleftrightarrow> v = FAIL \<or> failed r" "\<not> failed []"
  by (auto simp: failed_def)

lemma pass_if_fst [simp]: "fst (pass_if b v n) = (if b then PASS else v)"
  by (simp add: pass_if_def)

lemma failed_Cons [simp]: "failed (x # r) \<longleftrightarrow> fst x = FAIL \<or> failed r"
  by (auto simp: failed_def)

lemma probe_passed:
  assumes "probe pb run live nonce fresh fresh' t = Inr (r, 0)"
  shows "validate_tool_config (pb_engine pb) (td_config t) (Some (td_name t)) = None"
    "resolve_binary pb (td_config t) \<noteq> None"
    "\<exists>first g. exec_cmd (td_config t) PROBE_PROMPT (mint_initial_token (td_config t) fresh) = Inr first \<and>
       prompt_guard (exec_cmd (td_config t) DASH_PROMPT (mint_initial_token (td_config t) fresh)) = Inr g \<and> fst g \<noteq> FAIL \<and>
       fst (continuity (td_config t) (mint_initial_token (td_config t) fresh) first) \<noteq> FAIL"
  using assms
  by (auto simp: probe_def static_checks_def Let_def split: sum.splits if_splits)

text \<open>The command depends on the prompt only where the placeholder is.\<close>

lemma replace_all_other:
  assumes "old \<noteq> []" "replace_all old a s = s'" "c \<in> set a" "c \<notin> set s'"
  shows "replace_all old b s = s'"
  using assms(2,4)
proof (induction s arbitrary: s' rule: length_induct)
  case (1 s)
  show ?case
  proof (cases s)
    case (Cons x xs)
    show ?thesis
    proof (cases "prefix old s")
      case True
      then have "s' = a @ replace_all old a (drop (length old - 1) xs)"
        using 1(2) Cons assms(1) by (simp add: replace_all_Cons)
      then show ?thesis
        using 1(3) assms(3) by simp
    next
      case False
      then have "s' = x # replace_all old a xs"
        using 1(2) Cons assms(1) by (simp add: replace_all_Cons)
      then show ?thesis
        using 1(1) [rule_format, of xs "replace_all old a xs"] 1(3) Cons False assms(1) by (simp add: replace_all_Cons)
    qed
  qed (use 1 in simp)
qed

lemma token_in_every_command:
  assumes "exec_cmd c PROBE_PROMPT (Some (uuid_str i)) = Inr first" "uuid_str i \<in> set first"
    "exec_cmd c prompt (Some (uuid_str i)) = Inr argv"
  shows "uuid_str i \<in> set argv"
proof -
  have P: "80 \<in> set PROBE_PROMPT" "80 \<notin> set (uuid_str i)"
    using uuid_chars [of 80 i] by (auto simp: PROBE_PROMPT_def u_def hexc_def)
  have "replace_all P_PROMPT prompt a = uuid_str i" if "replace_all P_PROMPT PROBE_PROMPT a = uuid_str i" for a
    by (rule replace_all_other [OF _ that P]) (simp add: P_PROMPT_def)
  then have "uuid_str i \<in> set (substitute P_PROMPT PROBE_PROMPT sfx) \<Longrightarrow> uuid_str i \<in> set (substitute P_PROMPT prompt sfx)" for sfx
    unfolding substitute_def set_map by (metis (mono_tags, lifting) image_iff)
  then show ?thesis
    using assms by (auto simp: exec_cmd_def split: if_splits)
qed


definition sample_probe :: probe_ctx where
  "sample_probe =
     \<lparr>pb_engine = rc_engine sample_rc, pb_environ = [(u ''HOME'', u ''/home/a'')], pb_which = (\<lambda>b p. Some b),
      pb_expanduser = (\<lambda>p. p)\<rparr>"

lemma sample_probed:
  "\<exists>r. probe sample_probe (\<lambda>_ _. None) False (u ''ZX'') 1 2 sample_tool = Inr (r, 0)"
proof -
  have "validate_tool_config (pb_engine sample_probe) (td_config sample_tool) (Some (td_name sample_tool)) = None"
    using get_adapter_ok [OF sample_adapter] by (simp add: sample_tool_def sample_probe_def)
  moreover have "prompt_guard (exec_cmd (td_config sample_tool) DASH_PROMPT None) = Inr (PASS, u ''prompt flag-injection guard'')"
    by code_simp
  moreover have e: "\<exists>a. exec_cmd (td_config sample_tool) PROBE_PROMPT tok = Inr a" for tok
    by (simp add: exec_cmd_def sample_tool_def PROBE_PROMPT_def u_def lstrip_by_def is_space_def)
  moreover obtain a b where "exec_cmd (td_config sample_tool) PROBE_PROMPT None = Inr a"
    "exec_cmd (td_config sample_tool) PROBE_PROMPT (Some (or_str None (Some (u ''TOKEN'')))) = Inr b"
    using e by metis
  moreover have "mint_initial_token (td_config sample_tool) 1 = None" "resolve_binary sample_probe (td_config sample_tool) \<noteq> None"
    "fst (continuity (td_config sample_tool) None first) \<noteq> FAIL" for first
    by (simp_all add: mint_initial_token_def sample_tool_def resolve_binary_def sample_probe_def continuity_def)
  ultimately show ?thesis
    by (simp add: probe_def static_checks_def Let_def)
qed


text \<open>
  A definition the adapter accepts and guards, as the comment of \<open>exec_cmd\<close> advises, that crashes the probe.
\<close>

lemma probe_crashes:
  assumes "td_source c = SrcNone" "td_prefix c = [u ''tool'']" "td_resume c = []" "td_suffix c = [u ''--message={prompt}'']"
    "td_config t = c" "validate_tool_config (pb_engine pb) c (Some (td_name t)) = None"
  shows "probe pb run live nonce fresh fresh' t = Inl (ValueErr (u ''list.index(x): x not in list''))"
proof -
  have "substitute P_PROMPT DASH_PROMPT [u ''--message={prompt}''] = [u ''--message=-PROMPT'']"
    by code_simp
  moreover have "\<not> unguarded_prompt [u ''--message={prompt}'']"
    by (simp add: unguarded_prompt_def P_PROMPT_def)
  moreover have "\<exists>a. exec_cmd c PROBE_PROMPT tok = Inr a" for tok
    using assms by (simp add: exec_cmd_def PROBE_PROMPT_def u_def lstrip_by_def is_space_def)
  ultimately show ?thesis
    using assms
    by (auto simp: probe_def static_checks_def prompt_guard_def mint_initial_token_def exec_cmd_def Let_def DASH_PROMPT_def
        split: sum.split)
qed

end
