(* ===== verification/Runner_Process.thy ===== *)
theory Runner_Process
  imports Runner_Main Samples
begin

text \<open>
  \<open>run_runner\<close> and \<open>_run_runner\<close> of \<open>runner/main.py\<close>: the order of start-up, the five services that run side by side,
  draining on a signal, and the clean-up. What the services do is modelled in the theories of the workers; here only
  their start, their end and the heartbeats count. A run is driven by the events that reach the process.
\<close>

subsection \<open>Start-up\<close>

text \<open>The steps that may raise, in the order of the code.\<close>

datatype startup_step =
    ExecutionPolicy | MetricsServer | ControlBind | ClientStart | RunnerGroup | InputGroup | SessionRecovery

definition startup_steps :: "startup_step list" where
  "startup_steps = [ExecutionPolicy, MetricsServer, ControlBind, ClientStart, RunnerGroup, InputGroup, SessionRecovery]"

datatype service = ControlApi | RelayService | RunnerJobs | InputJobs | HeartbeatService

datatype act =
    Did startup_step
  | StartServices "service list"
  | StopInput
  | CancelInput
  | ServerExit
  | CancelServices
  | MarkOffline
  | CloseClient
  | CloseReplyClient
  | CloseRuntime

definition services :: "service list" where
  "services = [ControlApi, RelayService, RunnerJobs, InputJobs, HeartbeatService]"

text \<open>\<open>fails s\<close> is what step \<open>s\<close> raises, if it does. Returns what was done and the error that ended it.\<close>

fun start_up :: "(startup_step \<Rightarrow> exc option) \<Rightarrow> startup_step list \<Rightarrow> act list \<times> exc option" where
  "start_up fails [] = ([], None)"
| "start_up fails (s # ss) =
     (case fails s of
        Some e \<Rightarrow> ([], Some e)
      | None \<Rightarrow> (let (acts, r) = start_up fails ss in (Did s # acts, r)))"

subsection \<open>Waiting for the services\<close>

text \<open>
  A signal, a heartbeat at a clock, or services that are found done in one pass of the event loop, each with the error
  it raised, if any (a cancelled task raises \<open>CancelledError\<close>).
\<close>

datatype wakeup = Signalled | Beat int | Completed_Services "(service \<times> exc option) list"

text \<open>
  \<open>asyncio.wait(tasks, return_when=FIRST_COMPLETED)\<close> under the handler \<open>_request_stop\<close>: the first signal stops the
  admission of input, later ones cancel it. \<open>None\<close> when the events run out before a service is done.
\<close>

fun wait_services ::
  "pystr \<Rightarrow> bool \<Rightarrow> wakeup list \<Rightarrow> db \<Rightarrow> act list \<times> (bool \<times> (service \<times> exc option) list \<times> wakeup list) option \<times> db" where
  "wait_services host stop [] d = ([], None, d)"
| "wait_services host stop (e # es) d =
     (case e of
        Signalled \<Rightarrow>
          (let (acts, r, d) = wait_services host True es d
           in ((if stop then CancelInput else StopInput) # acts, r, d))
      | Beat now \<Rightarrow> wait_services host stop es (heartbeat host now d)
      | Completed_Services fin \<Rightarrow>
          if fin = [] then wait_services host stop es d else ([], Some (stop, fin, es), d))"

text \<open>The result of \<open>_run_runner\<close> for the services that are done.\<close>

definition run_outcome :: "bool \<Rightarrow> (service \<times> exc option) list \<Rightarrow> unit result" where
  "run_outcome stop fin =
     (if fst ` set fin = {InputJobs} \<and> stop then Inr ()
      else (case find (\<lambda>(s, e). e \<noteq> None) fin of
              Some (s, Some e) \<Rightarrow> Inl e
            | _ \<Rightarrow> Inl (RuntimeErr (u ''runner service stopped unexpectedly''))))"

text \<open>
  The \<open>finally\<close> block: for up to five seconds the control API may end while the other services go on (\<open>during\<close>
  are the heartbeats of that time); then all are cancelled and awaited, and the host is marked offline.
  \<open>db_down\<close> tells whether that update fails, which is only logged.
\<close>

fun beats :: "pystr \<Rightarrow> wakeup list \<Rightarrow> db \<Rightarrow> db" where
  "beats host [] d = d"
| "beats host (Beat now # es) d = beats host es (heartbeat host now d)"
| "beats host (_ # es) d = beats host es d"

definition shut_down :: "pystr \<Rightarrow> bool \<Rightarrow> wakeup list \<Rightarrow> db \<Rightarrow> act list \<times> db" where
  "shut_down host db_down during d =
     (let d = beats host during d
      in ([ServerExit, CancelServices, MarkOffline, CloseClient], if db_down then d else mark_runner_offline host d))"

definition run_services ::
  "pystr \<Rightarrow> bool \<Rightarrow> wakeup list \<Rightarrow> db \<Rightarrow> act list \<times> unit result option \<times> db" where
  "run_services host db_down es d =
     (case wait_services host False es d of
        (acts, None, d) \<Rightarrow> (StartServices services # acts, None, d)
      | (acts, Some (stop, fin, during), d) \<Rightarrow>
          (let (acts', d) = shut_down host db_down during d
           in (StartServices services # acts @ acts', Some (run_outcome stop fin), d)))"

text \<open>
  \<open>run_runner\<close>; \<open>recover\<close> is what the recovery of sessions commits before it ends or raises, and the client is closed
  once more if it was set up. No result while the services run.
\<close>

definition run_runner ::
  "pystr \<Rightarrow> (startup_step \<Rightarrow> exc option) \<Rightarrow> (db \<Rightarrow> db) \<Rightarrow> bool \<Rightarrow> wakeup list \<Rightarrow> db \<Rightarrow> act list \<times> unit result option \<times> db" where
  "run_runner host fails recover db_down es d =
     (let (acts, failure) = start_up fails startup_steps;
          d = (if Did InputGroup \<in> set acts then recover d else d);
          closing = (if Did ControlBind \<in> set acts then [CloseClient] else []) @ [CloseReplyClient, CloseRuntime]
      in case failure of
           Some e \<Rightarrow> (acts @ closing, Some (Inl e), d)
         | None \<Rightarrow>
             (case run_services host db_down es d of
                (acts', None, d) \<Rightarrow> (acts @ acts', None, d)
              | (acts', Some r, d) \<Rightarrow> (acts @ acts' @ closing, Some r, d)))"

subsection \<open>Facts\<close>

lemma start_up_spec:
  "start_up fails ss = (acts, r) \<Longrightarrow>
     (case r of None \<Rightarrow> acts = map Did ss \<and> (\<forall>s \<in> set ss. fails s = None)
      | Some e \<Rightarrow> \<exists>pre s post. ss = pre @ s # post \<and> acts = map Did pre \<and> fails s = Some e)"
proof (induction ss arbitrary: acts)
  case (Cons s ss)
  show ?case
  proof (cases "fails s")
    case None
    then obtain acts' where a: "start_up fails ss = (acts', r)" "acts = Did s # acts'"
      using Cons.prems by (auto split: prod.splits)
    show ?thesis
    proof (cases r)
      case (Some e)
      then obtain pre s' post where "ss = pre @ s' # post" "acts' = map Did pre" "fails s' = Some e"
        using Cons.IH [OF a(1)] by auto
      then have "s # ss = (s # pre) @ s' # post \<and> acts = map Did (s # pre) \<and> fails s' = Some e"
        using a(2) by simp
      then show ?thesis
        unfolding Some option.case by blast
    qed (use Cons.IH [OF a(1)] a(2) None in simp)
  next
    case (Some e)
    then have r: "r = Some e" and "s # ss = [] @ s # ss \<and> acts = map Did [] \<and> fails s = Some e"
      using Cons.prems by simp_all
    then show ?thesis
      unfolding r option.case by blast
  qed
qed simp

lemma wait_services_acts:
  "wait_services host stop es d = (acts, r, d') \<Longrightarrow>
     set acts \<subseteq> {StopInput, CancelInput} \<and> (CancelInput \<in> set acts \<longrightarrow> stop \<or> StopInput \<in> set acts) \<and>
     (case r of Some (stop', fin, du) \<Rightarrow> stop' = (stop \<or> StopInput \<in> set acts) \<and> fin \<noteq> [] | None \<Rightarrow> True)"
proof (induction host stop es d arbitrary: acts r d' rule: wait_services.induct)
  case (2 host stop e es d)
  then show ?case
    by (cases e) (auto split: prod.splits if_splits option.splits)
qed simp

lemma offline_now: "r \<in> set (d_hosts (mark_runner_offline host d)) \<Longrightarrow> h_id r = host \<Longrightarrow> h_status r = Offline"
proof -
  assume r: "r \<in> set (d_hosts (mark_runner_offline host d))" "h_id r = host"
  have "d_hosts (mark_runner_offline host d) =
    map (\<lambda>h. if h_id h = host then h\<lparr>h_status := Offline\<rparr> else h) (d_hosts d)"
    by (simp add: mark_runner_offline_def upd_def)
  then have "r \<in> (\<lambda>h. if h_id h = host then h\<lparr>h_status := Offline\<rparr> else h) ` set (d_hosts d)"
    using r(1) by simp
  then obtain q where "r = (if h_id q = host then q\<lparr>h_status := Offline\<rparr> else q)"
    by (rule imageE)
  then show "h_status r = Offline"
    using r(2) by (cases "h_id q = host") simp_all
qed

lemma run_services_done:
  assumes "run_services host db_down es d = (acts, Some r, d')"
  obtains ws stop where "acts = StartServices services # ws @ [ServerExit, CancelServices, MarkOffline, CloseClient]"
    "set ws \<subseteq> {StopInput, CancelInput}" "r = Inr () \<Longrightarrow> StopInput \<in> set ws"
    "\<not> db_down \<Longrightarrow> \<forall>h \<in> set (d_hosts d'). h_id h = host \<longrightarrow> h_status h = Offline"
proof -
  obtain ws w d1 where w: "wait_services host False es d = (ws, w, d1)"
    by (cases "wait_services host False es d") auto
  then obtain stop fin during where s: "w = Some (stop, fin, during)"
    using assms by (auto simp: run_services_def split: option.splits)
  show thesis
  proof (rule that)
    show "acts = StartServices services # ws @ [ServerExit, CancelServices, MarkOffline, CloseClient]"
      using assms w s by (auto simp: run_services_def shut_down_def Let_def)
    show "set ws \<subseteq> {StopInput, CancelInput}"
      using wait_services_acts [OF w] by simp
    show "StopInput \<in> set ws" if "r = Inr ()"
    proof -
      have "run_outcome stop fin = Inr ()"
        using assms w s that by (auto simp: run_services_def shut_down_def Let_def)
      then have "stop"
        by (auto simp: run_outcome_def split: if_splits option.splits)
      then show ?thesis
        using wait_services_acts [OF w] s by simp
    qed
    show "\<forall>h \<in> set (d_hosts d'). h_id h = host \<longrightarrow> h_status h = Offline" if "\<not> db_down"
      using assms w s that offline_now by (auto simp: run_services_def shut_down_def Let_def)
  qed
qed


definition sample_events :: "wakeup list" where
  "sample_events = [Beat 5, Signalled, Beat 6, Completed_Services [(InputJobs, None)], Beat 7]"


end
