(* ===== verification/Reply_Client.thy ===== *)
theory Reply_Client
  imports Runner_Input Control_Api
begin

text \<open>
  \<open>runner/reply_client.py\<close>, which joins the two ends of a reply: the turn of theory \<open>Runner_Input\<close>, which posts it, and
  the endpoint of theory \<open>Control_Api\<close>, which sends it to Discord. The exchange of bytes is a parameter: it fails, or
  the endpoint answers.
\<close>

subsection \<open>The client\<close>

definition reply_url :: "pystr \<Rightarrow> pystr \<Rightarrow> pystr" where
  "reply_url base sid = rstrip_by (\<lambda>c. c = slash) base @ u ''/v1/sessions/'' @ sid @ u ''/reply''"

text \<open>
  The JSON body; a reply without a text (the result of the turn was dropped) is the value \<open>null\<close>.
\<close>

definition request_body :: "pystr option \<Rightarrow> pystr \<Rightarrow> int option \<Rightarrow> payload" where
  "request_body txt key version =
     [(u ''text'', case txt of None \<Rightarrow> JNull | Some t \<Rightarrow> JStr t), (u ''idempotency_key'', JStr key)] @
     (case version of None \<Rightarrow> [] | Some v \<Rightarrow> [(u ''lifecycle_version'', JInt v)])"

text \<open>An answer: its status, the text of its body, and the message id if the body is an object that has one.\<close>

record http_answer =
  ha_status :: int
  ha_detail :: pystr
  ha_message :: "pystr option"

text \<open>\<open>ReplyClient.post_reply\<close> after the exchange; \<open>ReplyError\<close> is the error with a status.\<close>

definition client_result :: "exc + http_answer \<Rightarrow> pystr result" where
  "client_result ans =
     (case ans of
        Inl e \<Rightarrow> Inl e
      | Inr a \<Rightarrow>
          if ha_status a \<noteq> 200 then Inl (HttpErr (ha_status a) (ha_detail a))
          else (case ha_message a of None \<Rightarrow> Inl (KeyErr (u ''message_id'')) | Some i \<Rightarrow> Inr i))"

text \<open>What the turn distinguishes in \<open>run_input_job\<close>.\<close>

definition outcome_of :: "pystr result \<Rightarrow> post_outcome" where
  "outcome_of r = (case r of Inr _ \<Rightarrow> PostOk | Inl (HttpErr c _) \<Rightarrow> PostHttp c | Inl _ \<Rightarrow> PostOther)"

subsection \<open>The endpoint behind it\<close>

text \<open>FastAPI validates the body before the handler runs; an exception of the handler without a status is a 500.\<close>

definition parse_reply_body :: "payload \<Rightarrow> reply_body option" where
  "parse_reply_body p =
     (case (pget ''text'' p, pget ''idempotency_key'' p) of
        (Some (JStr t), Some (JStr k)) \<Rightarrow>
          (case pget ''lifecycle_version'' p of
             None \<Rightarrow> Some \<lparr>rb_text = t, rb_key = k, rb_version = None\<rparr>
           | Some JNull \<Rightarrow> Some \<lparr>rb_text = t, rb_key = k, rb_version = None\<rparr>
           | Some (JInt v) \<Rightarrow> Some \<lparr>rb_text = t, rb_key = k, rb_version = Some v\<rparr>
           | _ \<Rightarrow> None)
      | _ \<Rightarrow> None)"

definition answer_of :: "pystr list result \<Rightarrow> http_answer" where
  "answer_of r =
     (case r of
        Inr ids \<Rightarrow> \<lparr>ha_status = 200, ha_detail = [], ha_message = (case ids of [] \<Rightarrow> None | i # _ \<Rightarrow> Some i)\<rparr>
      | Inl (HttpErr c m) \<Rightarrow> \<lparr>ha_status = c, ha_detail = m, ha_message = None\<rparr>
      | Inl _ \<Rightarrow> \<lparr>ha_status = 500, ha_detail = u ''Internal Server Error'', ha_message = None\<rparr>)"

definition serve_reply ::
  "reply_app \<Rightarrow> int \<Rightarrow> (nat \<Rightarrow> pystr) \<Rightarrow> (nat \<Rightarrow> nat \<Rightarrow> db \<Rightarrow> db) \<Rightarrow> pystr \<Rightarrow> payload \<Rightarrow> db \<Rightarrow> http_answer \<times> pystr list \<times> db" where
  "serve_reply a now owner gap sid p d =
     (case parse_reply_body p of
        None \<Rightarrow> (\<lparr>ha_status = 422, ha_detail = u ''validation'', ha_message = None\<rparr>, [], d)
      | Some b \<Rightarrow> (let (r, sent, d) = post_reply a now owner gap sid b d in (answer_of r, sent, d)))"

text \<open>The post of a turn, served by the endpoint on the database \<open>d\<close>.\<close>

definition served_post ::
  "reply_app \<Rightarrow> int \<Rightarrow> (nat \<Rightarrow> pystr) \<Rightarrow> (nat \<Rightarrow> nat \<Rightarrow> db \<Rightarrow> db) \<Rightarrow> pystr \<Rightarrow> int \<Rightarrow> db \<Rightarrow> pystr \<Rightarrow> pystr option \<Rightarrow> post_outcome" where
  "served_post a now owner gap sid version d key reply =
     outcome_of (client_result (Inr (fst (serve_reply a now owner gap sid (request_body reply key (Some version)) d))))"

lemma request_round_trip [simp]:
  "parse_reply_body (request_body (Some t) k v) = Some \<lparr>rb_text = t, rb_key = k, rb_version = v\<rparr>"
  by (cases v) (simp_all add: parse_reply_body_def request_body_def)

lemma request_without_text [simp]: "parse_reply_body (request_body None k v) = None"
  by (simp add: parse_reply_body_def request_body_def)

subsection \<open>Facts\<close>

lemma outcome_ok: "outcome_of (client_result (Inr (answer_of (Inr (i # ids))))) = PostOk"
  by (simp add: outcome_of_def client_result_def answer_of_def)

lemma outcome_ok_iff: "outcome_of (client_result (Inr (answer_of r))) = PostOk \<Longrightarrow> \<exists>ids. r = Inr ids \<or> (\<exists>m. r = Inl (HttpErr 200 m))"
  by (cases r) (auto simp: outcome_of_def client_result_def answer_of_def split: exc.splits if_splits list.splits)

text \<open>What the tool printed is never refused for its form.\<close>

lemma small_code: "\<bar>code\<bar> < 1000 \<Longrightarrow> length (int_str code) \<le> 4"
proof -
  have "n < 1000 \<Longrightarrow> length (nat_str n) \<le> 3" for n
    by (subst nat_str.simps, subst nat_str.simps, subst nat_str.simps) auto
  then have "length (nat_str (nat \<bar>code\<bar>)) \<le> 3" if "\<bar>code\<bar> < 1000"
    using that by simp
  then show "\<bar>code\<bar> < 1000 \<Longrightarrow> length (int_str code) \<le> 4"
    by (cases "code < 0") (simp_all add: int_str_def)
qed

lemma tool_reply_fits:
  assumes "deliver cfg x run tool cwd token sid prompt d = (sp, Inr (reply, tok))" "1 \<le> length key" "length key \<le> 200" "0 \<le> v"
    "\<And>sp code so se. run sp = Inr (ExecFailed code so se) \<Longrightarrow> \<bar>code\<bar> < 1000"
  shows "reply_body_ok \<lparr>rb_text = reply, rb_key = key, rb_version = Some v\<rparr>"
proof -
  have w: "length (warn s) = length s + 3" for s
    by (simp add: warn_def)
  have r: "length (reply_of eng c out err) \<le> 1000000" for eng c out err
    using reply_of_length [of eng c out err] by simp
  have "length reply \<le> 1000000"
    using assms(1) unfolding deliver_def Let_def
    by (auto simp: w r dest!: assms(5) small_code split: exc.splits sum.splits exec_outcome.splits)
  then show ?thesis
    using assms(2-4) by (simp add: reply_body_ok_def)
qed

lemma plan_repost:
  assumes "session_of i d = Some s" "s_status s \<in> {Running, Idle}" "fstr (s_guild s) = ij_guild j" "fstr (s_host s) = ij_host j"
    "ij_version j \<in> {None, Some (s_version s)}" "earliest_turn i (s_version s) d = Some (ij_key j)"
    "turn_of (ij_key j) d = Some t" "t_session t = i" "t_version t = s_version s" "t_status t = Completed"
  shows "plan_turn cfg rc j i d = PRepost (s_version s) (t_result t)"
  using assms by (auto simp: plan_turn_def)


definition sample_completed :: db where
  "sample_completed = sample_db\<lparr>d_turns := [sample_turn\<lparr>t_status := Completed, t_result := Some (u ''done'')\<rparr>]\<rparr>"


end
