(* ===== verification/Workspace.thy ===== *)
theory Workspace
  imports Policies Runner_Create
begin

text \<open>
  The way of a workspace through the processes: the bot asks the runner (\<open>canonicalize_path\<close> of
  \<open>runner/control_api.py\<close>), checks the answer against the roots (\<open>validate_workspace\<close>), and stores the path; the runner
  checks it again before it creates the session (\<open>revalidate_cwd\<close>). The three agree.
\<close>

definition path_body_ok :: "pystr \<Rightarrow> bool" where
  "path_body_ok p \<longleftrightarrow> 1 \<le> length p \<and> length p \<le> 4096 \<and> nul \<notin> set p"

record canon_answer =
  ca_realpath :: pystr
  ca_exists :: bool
  ca_is_dir :: bool
  ca_verdict :: pystr
  ca_reason :: "deny option"

definition canonicalize_path ::
  "(pystr \<Rightarrow> pystr) \<Rightarrow> (pystr \<Rightarrow> bool) \<Rightarrow> (pystr \<Rightarrow> bool) \<Rightarrow> pystr \<Rightarrow> canon_answer" where
  "canonicalize_path realpath exists isdir path =
     (let (real, deny_reason) = canonicalize realpath path
      in \<lparr>ca_realpath = real, ca_exists = exists real, ca_is_dir = isdir real,
          ca_verdict = (if deny_reason \<noteq> None then u ''deny'' else u ''allow''), ca_reason = deny_reason\<rparr>)"

text \<open>The exchange, as the bot sees it: a body that is not valid, like any failure, is an HTTP error.\<close>

definition ask_runner ::
  "bool \<Rightarrow> (pystr \<Rightarrow> pystr) \<Rightarrow> (pystr \<Rightarrow> bool) \<Rightarrow> (pystr \<Rightarrow> bool) \<Rightarrow> pystr \<Rightarrow> canon_reply" where
  "ask_runner reachable realpath exists isdir cwd =
     (if \<not> reachable \<or> \<not> path_body_ok cwd then CanonUnavailable
      else (let a = canonicalize_path realpath exists isdir cwd
            in CanonReply (ca_realpath a) (Some (ca_verdict a)) (ca_is_dir a)))"

text \<open>C21. What the bot accepts, the runner accepts: a workspace that passed the validation of \<open>/start\<close> is the real path of
  the directory the user named, on no denied place, on a host that is online, under an allowed root of the guild that is
  shared or the owner's; and as long as the roots stay and the path remains its own real path, the runner's check before
  the creation accepts exactly it.\<close>

theorem accepted_workspace_is_kept:
  assumes "validate_workspace (ask_runner reachable realpath exists isdir cwd) g ow h d = Inr p"
  shows "p = realpath cwd \<and> isdir p \<and> deny_reason p = None \<and>
     (\<exists>host. get h_id h (d_hosts d) = Some host \<and> h_status host = Online) \<and>
     (\<exists>r \<in> set (d_roots d). r_guild r = Some g \<and> r_host r = h \<and> r_user r \<in> {[], ow} \<and> is_within_root p (r_realpath r)) \<and>
     (set (d_roots d) \<subseteq> set (d_roots d') \<and> realpath p = p \<longrightarrow> revalidate_cwd realpath p g ow h d' = CwdOk p)"
proof -
  note ok = validate_workspace_ok [OF assms]
  then have p: "p = realpath cwd" "isdir p" "deny_reason p = None"
    by (auto simp: ask_runner_def canonicalize_path_def canonicalize_def Let_def split: if_splits)
  have "revalidate_cwd realpath p g ow h d' = CwdOk p" if "set (d_roots d) \<subseteq> set (d_roots d')" "realpath p = p"
    using ok p(3) that by (auto simp: revalidate_cwd_def canonicalize_def list_ex_iff sel_def)
  then show ?thesis
    using ok p by blast
qed

theorem accepted_workspace_is_kept_witness:
  "revalidate_cwd (\<lambda>p. p) (u ''/srv/p'') (u ''g'') (u ''a'') (u ''h'')
     (empty_db\<lparr>d_hosts := [\<lparr>h_id = u ''h'', h_status = Online, h_heartbeat = None\<rparr>],
        d_roots := [\<lparr>r_guild = Some (u ''g''), r_user = [], r_host = u ''h'', r_path = u ''/srv'', r_realpath = u ''/srv'',
          r_created_by = u ''b''\<rparr>]\<rparr>) = CwdOk (u ''/srv/p'')"
proof -
  have "ask_runner True (\<lambda>p. p) (\<lambda>_. True) (\<lambda>_. True) (u ''/srv/p'') = CanonReply (u ''/srv/p'') (Some (u ''allow'')) True"
    by code_simp
  then show ?thesis
    using accepted_workspace_is_kept [of True "\<lambda>p. p" "\<lambda>_. True" "\<lambda>_. True" "u ''/srv/p''"] sample_workspace by simp
qed

end
