(* ===== verification/Schema.thy ===== *)
theory Schema
  imports Domain
begin

text \<open>
  The schema of the database twice: as the migrations of \<open>alembic/versions\<close> build it, statement by statement, and
  as the classes of \<open>db/models/*.py\<close> declare it. A statement that PostgreSQL refuses (a table that is there
  already, a table others refer to, a column that is not there) has no result. The order of the columns of a table is
  not part of the comparison: a migration can only append.
\<close>

subsection \<open>Tables, constraints and indexes\<close>

datatype sql_type = TText | TVarchar nat | TInteger | TBigInt | TBoolean | TUuid | TTimestamp | TJson

datatype sql_default = NoDefault | DefNow | DefUuid | DefLit string | Serial | IdentityAlways

record sql_column =
  co_name :: string
  co_type :: sql_type
  co_null :: bool
  co_default :: sql_default

text \<open>The conditions of check constraints and partial indexes.\<close>

datatype sql_cond = InList string "string list" | Matches string string | LikePrefix string string
  | IsNull string | NotNull string | CAnd sql_cond sql_cond | COr sql_cond sql_cond | CDiffer sql_cond sql_cond

datatype on_delete = NoAction | Cascade | SetNull

record foreign_key =
  fk_cols :: "string list"
  fk_table :: string
  fk_ref :: "string list"
  fk_delete :: on_delete

record sql_table =
  tb_name :: string
  tb_cols :: "sql_column list"
  tb_key :: "string list"
  tb_unique :: "(string option \<times> string list) list"
  tb_checks :: "(string \<times> sql_cond) list"
  tb_fks :: "foreign_key list"

record sql_index =
  ix_name :: string
  ix_table :: string
  ix_cols :: "string list"
  ix_where :: "sql_cond option"

record schema =
  sc_tables :: "sql_table list"
  sc_indexes :: "sql_index list"

definition column :: "string \<Rightarrow> sql_type \<Rightarrow> sql_column" where
  "column n ty = \<lparr>co_name = n, co_type = ty, co_null = False, co_default = NoDefault\<rparr>"

definition nullable :: "sql_column \<Rightarrow> sql_column" where "nullable c = c\<lparr>co_null := True\<rparr>"

definition server_default :: "sql_default \<Rightarrow> sql_column \<Rightarrow> sql_column" where
  "server_default v c = c\<lparr>co_default := v\<rparr>"

definition fkey :: "string \<Rightarrow> string \<Rightarrow> string \<Rightarrow> on_delete \<Rightarrow> foreign_key" where
  "fkey c t r a = \<lparr>fk_cols = [c], fk_table = t, fk_ref = [r], fk_delete = a\<rparr>"

definition index_on :: "string \<Rightarrow> string \<Rightarrow> string list \<Rightarrow> sql_index" where
  "index_on n t cs = \<lparr>ix_name = n, ix_table = t, ix_cols = cs, ix_where = None\<rparr>"

definition partial :: "sql_cond \<Rightarrow> sql_index \<Rightarrow> sql_index" where "partial c i = i\<lparr>ix_where := Some c\<rparr>"

text \<open>
  The value of a condition on a row in SQL's three-valued logic, \<open>re\<close> the regular expressions of PostgreSQL. A check
  constraint refuses a row only when its condition is false.
\<close>

type_synonym sql_row = "string \<Rightarrow> string option"

fun cond_value :: "(string \<Rightarrow> string \<Rightarrow> bool) \<Rightarrow> sql_row \<Rightarrow> sql_cond \<Rightarrow> bool option" where
  "cond_value re r (InList c vs) = map_option (\<lambda>v. v \<in> set vs) (r c)"
| "cond_value re r (Matches c p) = map_option (re p) (r c)"
| "cond_value re r (LikePrefix c p) = map_option (prefix p) (r c)"
| "cond_value re r (IsNull c) = Some (r c = None)"
| "cond_value re r (NotNull c) = Some (r c \<noteq> None)"
| "cond_value re r (CAnd a b) =
     (case (cond_value re r a, cond_value re r b) of
        (Some False, _) \<Rightarrow> Some False | (_, Some False) \<Rightarrow> Some False
      | (Some True, Some True) \<Rightarrow> Some True | _ \<Rightarrow> None)"
| "cond_value re r (COr a b) =
     (case (cond_value re r a, cond_value re r b) of
        (Some True, _) \<Rightarrow> Some True | (_, Some True) \<Rightarrow> Some True
      | (Some False, Some False) \<Rightarrow> Some False | _ \<Rightarrow> None)"
| "cond_value re r (CDiffer a b) =
     (case (cond_value re r a, cond_value re r b) of (Some x, Some y) \<Rightarrow> Some (x \<noteq> y) | _ \<Rightarrow> None)"

definition check_accepts :: "(string \<Rightarrow> string \<Rightarrow> bool) \<Rightarrow> sql_cond \<Rightarrow> sql_row \<Rightarrow> bool" where
  "check_accepts re c r \<longleftrightarrow> cond_value re r c \<noteq> Some False"

fun cond_cols :: "sql_cond \<Rightarrow> string list" where
  "cond_cols (InList c _) = [c]"
| "cond_cols (Matches c _) = [c]"
| "cond_cols (LikePrefix c _) = [c]"
| "cond_cols (IsNull c) = [c]"
| "cond_cols (NotNull c) = [c]"
| "cond_cols (CAnd a b) = cond_cols a @ cond_cols b"
| "cond_cols (COr a b) = cond_cols a @ cond_cols b"
| "cond_cols (CDiffer a b) = cond_cols a @ cond_cols b"

subsection \<open>Statements\<close>

datatype mig_op = CreateTable sql_table | DropTable string | AddColumn string sql_column | DropColumn string string
  | CreateIndex sql_index | DropIndex string | CreateCheck string string sql_cond | DropCheck string string

definition col_names :: "sql_table \<Rightarrow> string list" where "col_names t = map co_name (tb_cols t)"

definition find_table :: "string \<Rightarrow> schema \<Rightarrow> sql_table option" where
  "find_table n s = find (\<lambda>t. tb_name t = n) (sc_tables s)"

definition subset_list :: "'a list \<Rightarrow> 'a list \<Rightarrow> bool" where
  "subset_list xs ys \<longleftrightarrow> list_all (\<lambda>x. x \<in> set ys) xs"

text \<open>What \<open>CREATE TABLE\<close> asks of a table by itself, and of the tables it refers to.\<close>

definition table_ok :: "sql_table \<Rightarrow> bool" where
  "table_ok t \<longleftrightarrow> distinct (col_names t) \<and> subset_list (tb_key t) (col_names t) \<and>
     list_all (\<lambda>(_, cs). subset_list cs (col_names t)) (tb_unique t) \<and>
     distinct (map fst (tb_checks t)) \<and> list_all (\<lambda>(_, c). subset_list (cond_cols c) (col_names t)) (tb_checks t) \<and>
     list_all (\<lambda>f. subset_list (fk_cols f) (col_names t)) (tb_fks t)"

definition fk_ok :: "sql_table list \<Rightarrow> foreign_key \<Rightarrow> bool" where
  "fk_ok ts f \<longleftrightarrow>
     list_ex (\<lambda>t. tb_name t = fk_table f \<and> (tb_key t = fk_ref f \<or> fk_ref f \<in> snd ` set (tb_unique t))) ts"

definition index_ok :: "sql_table list \<Rightarrow> sql_index \<Rightarrow> bool" where
  "index_ok ts i \<longleftrightarrow>
     list_ex (\<lambda>t. tb_name t = ix_table i \<and>
        subset_list (ix_cols i @ (case ix_where i of None \<Rightarrow> [] | Some c \<Rightarrow> cond_cols c)) (col_names t)) ts"

definition update_table :: "string \<Rightarrow> (sql_table \<Rightarrow> sql_table) \<Rightarrow> schema \<Rightarrow> schema" where
  "update_table n f s = s\<lparr>sc_tables := map (\<lambda>t. if tb_name t = n then f t else t) (sc_tables s)\<rparr>"

text \<open>
  \<open>ADD COLUMN\<close> needs a default for a column that is not nullable, lest it fail on a table with rows. A column that a
  key, a check, a foreign key or an index of the table uses is not dropped here: PostgreSQL would drop these along
  with it, and no migration relies on that.
\<close>

fun apply_op :: "mig_op \<Rightarrow> schema \<Rightarrow> schema option" where
  "apply_op (CreateTable t) s =
     (if find_table (tb_name t) s = None \<and> table_ok t \<and> list_all (fk_ok (t # sc_tables s)) (tb_fks t)
      then Some (s\<lparr>sc_tables := sc_tables s @ [t]\<rparr>) else None)"
| "apply_op (DropTable n) s =
     (if find_table n s \<noteq> None \<and>
         \<not> list_ex (\<lambda>t. tb_name t \<noteq> n \<and> list_ex (\<lambda>f. fk_table f = n) (tb_fks t)) (sc_tables s)
      then Some (s\<lparr>sc_tables := filter (\<lambda>t. tb_name t \<noteq> n) (sc_tables s),
                  sc_indexes := filter (\<lambda>i. ix_table i \<noteq> n) (sc_indexes s)\<rparr>) else None)"
| "apply_op (AddColumn n c) s =
     (case find_table n s of
        None \<Rightarrow> None
      | Some t \<Rightarrow> if co_name c \<in> set (col_names t) \<or> \<not> co_null c \<and> co_default c = NoDefault then None
                  else Some (update_table n (\<lambda>t. t\<lparr>tb_cols := tb_cols t @ [c]\<rparr>) s))"
| "apply_op (DropColumn n c) s =
     (case find_table n s of
        None \<Rightarrow> None
      | Some t \<Rightarrow>
          if c \<in> set (col_names t) \<and> table_ok (t\<lparr>tb_cols := filter (\<lambda>k. co_name k \<noteq> c) (tb_cols t)\<rparr>) \<and>
             list_all (index_ok (sc_tables (update_table n (\<lambda>t. t\<lparr>tb_cols := filter (\<lambda>k. co_name k \<noteq> c) (tb_cols t)\<rparr>) s)))
               (sc_indexes s)
          then Some (update_table n (\<lambda>t. t\<lparr>tb_cols := filter (\<lambda>k. co_name k \<noteq> c) (tb_cols t)\<rparr>) s) else None)"
| "apply_op (CreateIndex i) s =
     (if ix_name i \<notin> set (map ix_name (sc_indexes s)) \<and> index_ok (sc_tables s) i
      then Some (s\<lparr>sc_indexes := sc_indexes s @ [i]\<rparr>) else None)"
| "apply_op (DropIndex n) s =
     (if n \<in> set (map ix_name (sc_indexes s))
      then Some (s\<lparr>sc_indexes := filter (\<lambda>i. ix_name i \<noteq> n) (sc_indexes s)\<rparr>) else None)"
| "apply_op (CreateCheck k n c) s =
     (case find_table n s of
        None \<Rightarrow> None
      | Some t \<Rightarrow> if k \<in> set (map fst (tb_checks t)) \<or> \<not> subset_list (cond_cols c) (col_names t) then None
                  else Some (update_table n (\<lambda>t. t\<lparr>tb_checks := tb_checks t @ [(k, c)]\<rparr>) s))"
| "apply_op (DropCheck k n) s =
     (case find_table n s of
        None \<Rightarrow> None
      | Some t \<Rightarrow> if k \<in> set (map fst (tb_checks t))
                  then Some (update_table n (\<lambda>t. t\<lparr>tb_checks := filter (\<lambda>(j, _). j \<noteq> k) (tb_checks t)\<rparr>) s)
                  else None)"

fun run_ops :: "mig_op list \<Rightarrow> schema \<Rightarrow> schema option" where
  "run_ops [] s = Some s"
| "run_ops (p # ps) s = (case apply_op p s of None \<Rightarrow> None | Some s' \<Rightarrow> run_ops ps s')"

subsection \<open>Well-formed schemas\<close>

text \<open>Names are unique, every table is sound by itself, references and indexes point at what is there.\<close>

definition wf_schema :: "schema \<Rightarrow> bool" where
  "wf_schema s \<longleftrightarrow> distinct (map tb_name (sc_tables s)) \<and> distinct (map ix_name (sc_indexes s)) \<and>
     list_all table_ok (sc_tables s) \<and> list_all (\<lambda>t. list_all (fk_ok (sc_tables s)) (tb_fks t)) (sc_tables s) \<and>
     list_all (index_ok (sc_tables s)) (sc_indexes s)"

lemma find_table_None: "find_table n s = None \<longleftrightarrow> n \<notin> tb_name ` set (sc_tables s)"
  by (auto simp: find_table_def find_None_iff)

lemma find_table_Some:
  assumes "find_table n s = Some t"
  shows "t \<in> set (sc_tables s)" "tb_name t = n"
  using assms by (auto simp: find_table_def find_Some_iff)

lemma subset_list_iff: "subset_list xs ys \<longleftrightarrow> set xs \<subseteq> set ys"
  by (auto simp: subset_list_def list_all_iff)

lemma fk_ok_iff:
  "fk_ok ts f \<longleftrightarrow> (\<exists>t \<in> set ts. tb_name t = fk_table f \<and> (tb_key t = fk_ref f \<or> fk_ref f \<in> snd ` set (tb_unique t)))"
  by (simp add: fk_ok_def list_ex_iff)

definition index_refs :: "sql_index \<Rightarrow> string list" where
  "index_refs i = ix_cols i @ (case ix_where i of None \<Rightarrow> [] | Some c \<Rightarrow> cond_cols c)"

lemma index_ok_iff:
  "index_ok ts i \<longleftrightarrow> (\<exists>t \<in> set ts. tb_name t = ix_table i \<and> set (index_refs i) \<subseteq> set (col_names t))"
  by (simp add: index_ok_def list_ex_iff subset_list_iff index_refs_def)

lemma fk_ok_map:
  assumes "fk_ok ts r"
    and same: "\<And>t. t \<in> set ts \<Longrightarrow> tb_name (g t) = tb_name t \<and> tb_key (g t) = tb_key t \<and> tb_unique (g t) = tb_unique t"
  shows "fk_ok (map g ts) r"
proof -
  obtain t where t: "t \<in> set ts" "tb_name t = fk_table r" "tb_key t = fk_ref r \<or> fk_ref r \<in> snd ` set (tb_unique t)"
    using assms(1) by (auto simp: fk_ok_iff)
  then have "g t \<in> set (map g ts)" "tb_name (g t) = fk_table r"
      "tb_key (g t) = fk_ref r \<or> fk_ref r \<in> snd ` set (tb_unique (g t))"
    using same [OF t(1)] by auto
  then show ?thesis
    unfolding fk_ok_iff by blast
qed

text \<open>
  Changing one table in place keeps the rest sound when the table keeps its name, its keys and its references, and
  every column that an index of it needs.
\<close>

lemma update_table_wf:
  assumes wf: "wf_schema s" and t: "t \<in> set (sc_tables s)" "tb_name t = n"
    and keep: "tb_name (f t) = n" "tb_key (f t) = tb_key t" "tb_unique (f t) = tb_unique t" "tb_fks (f t) = tb_fks t"
    and ok: "table_ok (f t)"
    and ix: "list_all (index_ok (sc_tables (update_table n f s))) (sc_indexes s)"
  shows "wf_schema (update_table n f s)"
proof -
  let ?g = "\<lambda>t. if tb_name t = n then f t else t"
  have uniq: "t' = t" if "t' \<in> set (sc_tables s)" "tb_name t' = n" for t'
    using wf t that by (auto simp: wf_schema_def distinct_map dest: inj_onD)
  have same: "tb_name (?g t') = tb_name t'" "tb_key (?g t') = tb_key t'" "tb_unique (?g t') = tb_unique t'"
      "tb_fks (?g t') = tb_fks t'" if "t' \<in> set (sc_tables s)" for t'
    using uniq [OF that] keep t by auto
  have tables: "sc_tables (update_table n f s) = map ?g (sc_tables s)"
    by (simp add: update_table_def)
  have "map (tb_name \<circ> ?g) (sc_tables s) = map tb_name (sc_tables s)"
    using same(1) by (intro map_cong) auto
  then have names: "map tb_name (map ?g (sc_tables s)) = map tb_name (sc_tables s)"
    by simp
  have fk: "fk_ok (map ?g (sc_tables s)) r" if "fk_ok (sc_tables s) r" for r
    using that by (rule fk_ok_map) (use same in blast)
  have "table_ok (?g t')" if "t' \<in> set (sc_tables s)" for t'
    using wf ok uniq [OF that] that by (auto simp: wf_schema_def list_all_iff)
  then have tabs: "list_all table_ok (map ?g (sc_tables s))"
    by (auto simp only: list_all_iff set_map ball_simps)
  have "list_all (fk_ok (map ?g (sc_tables s))) (tb_fks (?g t'))" if "t' \<in> set (sc_tables s)" for t'
    using wf that fk by (simp only: same(4) [OF that]) (simp add: wf_schema_def list_all_iff)
  then have refs: "list_all (\<lambda>t. list_all (fk_ok (map ?g (sc_tables s))) (tb_fks t)) (map ?g (sc_tables s))"
    by (auto simp only: list_all_iff set_map ball_simps)
  have indexes: "sc_indexes (update_table n f s) = sc_indexes s"
    by (simp add: update_table_def)
  with wf ix tabs refs show ?thesis
    unfolding wf_schema_def tables names indexes by blast
qed

lemma index_ok_map:
  assumes "index_ok ts i"
    and grows: "\<And>t. t \<in> set ts \<Longrightarrow> tb_name (g t) = tb_name t \<and> set (col_names t) \<subseteq> set (col_names (g t))"
  shows "index_ok (map g ts) i"
proof -
  obtain t where "t \<in> set ts" "tb_name t = ix_table i" "set (index_refs i) \<subseteq> set (col_names t)"
    using assms(1) by (auto simp: index_ok_iff)
  then have "g t \<in> set (map g ts)" "tb_name (g t) = ix_table i" "set (index_refs i) \<subseteq> set (col_names (g t))"
    using grows [of t] by auto
  then show ?thesis
    unfolding index_ok_iff by blast
qed

lemma index_ok_grows:
  assumes "list_all (index_ok (sc_tables s)) is"
    "\<And>t. tb_name (f t) = tb_name t \<and> set (col_names t) \<subseteq> set (col_names (f t))"
  shows "list_all (index_ok (sc_tables (update_table n f s))) is"
proof -
  have "sc_tables (update_table n f s) = map (\<lambda>t. if tb_name t = n then f t else t) (sc_tables s)"
    by (simp add: update_table_def)
  then show ?thesis
    using assms by (simp add: list_all_iff index_ok_map)
qed

lemma apply_op_wf:
  assumes "apply_op p s = Some s'" "wf_schema s"
  shows "wf_schema s'"
proof (cases p)
  case (CreateTable t)
  then show ?thesis
    using assms by (auto simp: wf_schema_def find_table_None list_all_iff fk_ok_iff index_ok_iff split: if_splits)
next
  case (DropTable n)
  then show ?thesis
    using assms
    by (auto simp: wf_schema_def list_all_iff list_ex_iff fk_ok_iff index_ok_iff distinct_map_filter split: if_splits) metis+
next
  case (AddColumn n c)
  then obtain t where t: "find_table n s = Some t" "co_name c \<notin> set (col_names t)"
    and s': "s' = update_table n (\<lambda>t. t\<lparr>tb_cols := tb_cols t @ [c]\<rparr>) s"
    using assms by (auto split: option.splits if_splits)
  have "table_ok t"
    using assms(2) find_table_Some [OF t(1)] by (auto simp: wf_schema_def list_all_iff)
  then have "table_ok (t\<lparr>tb_cols := tb_cols t @ [c]\<rparr>)"
    using t(2) by (auto simp: table_ok_def col_names_def subset_list_iff list_all_iff)
  then show ?thesis
    unfolding s' using assms(2) find_table_Some [OF t(1)]
    by (intro update_table_wf [of _ t] index_ok_grows) (auto simp: wf_schema_def col_names_def)
next
  case (DropColumn n c)
  then obtain t where "find_table n s = Some t"
    using assms by (auto split: option.splits)
  with DropColumn show ?thesis
    using assms find_table_Some [of n s t] by (auto intro!: update_table_wf [of _ t] split: if_splits)
next
  case (CreateIndex i)
  then show ?thesis
    using assms by (auto simp: wf_schema_def split: if_splits)
next
  case (DropIndex n)
  then show ?thesis
    using assms by (auto simp: wf_schema_def list_all_iff distinct_map_filter split: if_splits)
next
  case (CreateCheck k n c)
  then obtain t where t: "find_table n s = Some t" "k \<notin> set (map fst (tb_checks t))" "subset_list (cond_cols c) (col_names t)"
    and s': "s' = update_table n (\<lambda>t. t\<lparr>tb_checks := tb_checks t @ [(k, c)]\<rparr>) s"
    using assms by (auto split: option.splits if_splits)
  have "table_ok t"
    using assms(2) find_table_Some [OF t(1)] by (auto simp: wf_schema_def list_all_iff)
  then have "table_ok (t\<lparr>tb_checks := tb_checks t @ [(k, c)]\<rparr>)"
    using t(2,3) by (auto simp: table_ok_def col_names_def)
  then show ?thesis
    unfolding s' using assms(2) find_table_Some [OF t(1)]
    by (intro update_table_wf [of _ t] index_ok_grows) (auto simp: wf_schema_def col_names_def)
next
  case (DropCheck k n)
  then obtain t where t: "find_table n s = Some t"
    and s': "s' = update_table n (\<lambda>t. t\<lparr>tb_checks := filter (\<lambda>(j, _). j \<noteq> k) (tb_checks t)\<rparr>) s"
    using assms by (auto split: option.splits if_splits)
  have "table_ok t"
    using assms(2) find_table_Some [OF t(1)] by (auto simp: wf_schema_def list_all_iff)
  then have "table_ok (t\<lparr>tb_checks := filter (\<lambda>(j, _). j \<noteq> k) (tb_checks t)\<rparr>)"
    by (auto simp: table_ok_def col_names_def list_all_iff distinct_map_filter)
  then show ?thesis
    unfolding s' using assms(2) find_table_Some [OF t(1)]
    by (intro update_table_wf [of _ t] index_ok_grows) (auto simp: wf_schema_def col_names_def)
qed

lemma run_ops_wf:
  assumes "run_ops ps s = Some s'" "wf_schema s"
  shows "wf_schema s'"
  using assms by (induction ps arbitrary: s) (auto split: option.splits dest: apply_op_wf)

lemma run_ops_append: "run_ops (ps @ qs) s = (case run_ops ps s of None \<Rightarrow> None | Some s' \<Rightarrow> run_ops qs s')"
  by (induction ps arbitrary: s) (auto split: option.splits)

end
