(* ===== verification/Migrations.thy ===== *)
theory Migrations
  imports Schema
begin

text \<open>
  The migrations of \<open>alembic/versions\<close>, forwards and backwards, and the schema that \<open>db/models/*.py\<close> declare. The rows
  that revision 0004 corrects are those of theory \<open>Tool_Seeds\<close>; of the rows that the step back from revision 0003
  rewrites the status is modelled.
\<close>

subsection \<open>Revision 0001\<close>

definition ddl_guild_admin_role_policy :: sql_table where
  "ddl_guild_admin_role_policy = \<lparr>tb_name = ''guild_admin_role_policy'',
     tb_cols =
      [server_default Serial (column ''id'' TInteger),
       column ''guild_id'' TText,
       nullable (column ''role_id'' TText),
       nullable (column ''role_name_fallback'' TText),
       column ''updated_by'' TText,
       server_default DefNow (column ''created_at'' TTimestamp),
       server_default DefNow (column ''updated_at'' TTimestamp)],
     tb_key = [''id''],
     tb_unique = [(Some ''guild_admin_role_policy_guild_id_uq'', [''guild_id''])],
     tb_checks = [],
     tb_fks = []\<rparr>"

definition ddl_guild_tool_channel_map :: sql_table where
  "ddl_guild_tool_channel_map = \<lparr>tb_name = ''guild_tool_channel_map'',
     tb_cols =
      [server_default Serial (column ''id'' TInteger),
       column ''guild_id'' TText,
       column ''tool'' TText,
       column ''channel_id'' TText,
       column ''updated_by'' TText,
       server_default DefNow (column ''created_at'' TTimestamp),
       server_default DefNow (column ''updated_at'' TTimestamp)],
     tb_key = [''id''],
     tb_unique = [(Some ''guild_tool_channel_map_guild_tool_uq'', [''guild_id'', ''tool''])],
     tb_checks = [],
     tb_fks = []\<rparr>"

definition ddl_guilds :: sql_table where
  "ddl_guilds = \<lparr>tb_name = ''guilds'',
     tb_cols =
      [column ''id'' TText,
       server_default (DefLit ''active'') (column ''status'' TText),
       column ''name'' TText,
       nullable (server_default DefNow (column ''created_at'' TTimestamp))],
     tb_key = [''id''],
     tb_unique = [],
     tb_checks = [(''guilds_status_check'', InList ''status'' [''active'', ''inactive'', ''draining'', ''blocked''])],
     tb_fks = []\<rparr>"

definition ddl_redis_outbox :: sql_table where
  "ddl_redis_outbox = \<lparr>tb_name = ''redis_outbox'',
     tb_cols =
      [server_default Serial (column ''id'' TBigInt),
       column ''producer'' TText,
       column ''envelope_type'' TText,
       column ''stream_key'' TText,
       column ''payload'' TJson,
       server_default DefNow (column ''created_at'' TTimestamp),
       nullable (column ''published_at'' TTimestamp),
       server_default (DefLit ''0'') (column ''attempts'' TInteger),
       server_default DefNow (column ''next_attempt_at'' TTimestamp),
       nullable (column ''error'' TText)],
     tb_key = [''id''],
     tb_unique = [],
     tb_checks = [],
     tb_fks = []\<rparr>"

definition ddl_runner_hosts :: sql_table where
  "ddl_runner_hosts = \<lparr>tb_name = ''runner_hosts'',
     tb_cols =
      [column ''id'' TText,
       server_default (DefLit ''unknown'') (column ''status'' TText),
       nullable (column ''last_heartbeat_at'' TTimestamp),
       server_default (DefLit ''{}'') (column ''metadata'' TJson)],
     tb_key = [''id''],
     tb_unique = [],
     tb_checks = [(''runner_hosts_id_format_check'', Matches ''id'' ''^[a-z0-9-]{1,40}$''),
       (''runner_hosts_status_check'', InList ''status'' [''online'', ''offline'', ''draining'', ''unknown''])],
     tb_fks = []\<rparr>"

definition ddl_tool_definitions :: sql_table where
  "ddl_tool_definitions = \<lparr>tb_name = ''tool_definitions'',
     tb_cols =
      [column ''name'' (TVarchar 64),
       column ''display_name'' (TVarchar 128),
       column ''argv_prefix'' TJson,
       column ''argv_resume_tokens'' TJson,
       column ''argv_suffix'' TJson,
       column ''uses_pty'' TBoolean,
       column ''resume_token_source'' (TVarchar 16),
       nullable (column ''resume_token_pattern'' (TVarchar 512)),
       column ''reply_extractor'' (TVarchar 32),
       nullable (column ''reply_json_field'' (TVarchar 64)),
       column ''extra_paths'' TJson,
       column ''env_passthrough'' TJson,
       nullable (column ''model_flag'' (TVarchar 64)),
       nullable (column ''api_key_env'' (TVarchar 64)),
       nullable (column ''base_url_env'' (TVarchar 64)),
       column ''enabled'' TBoolean,
       nullable (column ''created_by'' (TVarchar 64)),
       server_default DefNow (column ''created_at'' TTimestamp),
       server_default DefNow (column ''updated_at'' TTimestamp)],
     tb_key = [''name''],
     tb_unique = [],
     tb_checks = [(''tool_definitions_name_format'', Matches ''name'' ''^[a-z][a-z0-9_-]{0,63}$'')],
     tb_fks = []\<rparr>"

definition ddl_users :: sql_table where
  "ddl_users = \<lparr>tb_name = ''users'',
     tb_cols =
      [column ''id'' TText,
       column ''username'' TText,
       nullable (server_default DefNow (column ''created_at'' TTimestamp))],
     tb_key = [''id''],
     tb_unique = [],
     tb_checks = [],
     tb_fks = []\<rparr>"

definition ddl_allowed_roots :: sql_table where
  "ddl_allowed_roots = \<lparr>tb_name = ''allowed_roots'',
     tb_cols =
      [server_default DefUuid (column ''id'' TUuid),
       nullable (column ''guild_id'' TText),
       server_default (DefLit '''') (column ''user_id'' TText),
       column ''runner_host_id'' TText,
       column ''path'' TText,
       column ''realpath'' TText,
       column ''created_by'' TText,
       server_default DefNow (column ''created_at'' TTimestamp)],
     tb_key = [''id''],
     tb_unique = [(Some ''allowed_roots_uq'', [''guild_id'', ''user_id'', ''runner_host_id'', ''realpath''])],
     tb_checks = [(''allowed_roots_realpath_check'', LikePrefix ''realpath'' ''/'')],
     tb_fks = [fkey ''guild_id'' ''guilds'' ''id'' Cascade]\<rparr>"

definition ddl_guild_settings :: sql_table where
  "ddl_guild_settings = \<lparr>tb_name = ''guild_settings'',
     tb_cols =
      [column ''guild_id'' TText,
       server_default (DefLit ''{}'') (column ''settings'' TJson)],
     tb_key = [''guild_id''],
     tb_unique = [],
     tb_checks = [],
     tb_fks = [fkey ''guild_id'' ''guilds'' ''id'' NoAction]\<rparr>"

definition ddl_path_aliases :: sql_table where
  "ddl_path_aliases = \<lparr>tb_name = ''path_aliases'',
     tb_cols =
      [server_default DefUuid (column ''id'' TUuid),
       column ''guild_id'' TText,
       column ''alias'' TText,
       column ''path'' TText,
       column ''realpath'' TText,
       column ''created_by'' TText,
       server_default DefNow (column ''created_at'' TTimestamp)],
     tb_key = [''id''],
     tb_unique = [(Some ''path_aliases_uq'', [''guild_id'', ''alias''])],
     tb_checks = [(''path_aliases_alias_check'', Matches ''alias'' ''^[a-z][a-z0-9_-]{0,63}$''),
       (''path_aliases_realpath_check'', LikePrefix ''realpath'' ''/'')],
     tb_fks = [fkey ''guild_id'' ''guilds'' ''id'' Cascade]\<rparr>"

definition ddl_sessions :: sql_table where
  "ddl_sessions = \<lparr>tb_name = ''sessions'',
     tb_cols =
      [server_default DefUuid (column ''id'' TUuid),
       nullable (column ''guild_id'' TText),
       nullable (column ''owner_id'' TText),
       column ''tool'' TText,
       column ''name'' TText,
       column ''cwd'' TText,
       column ''cwd_realpath'' TText,
       nullable (column ''parent_channel_id'' TText),
       nullable (column ''thread_id'' TText),
       nullable (column ''host_id'' TText),
       column ''hook_secret_hash'' TText,
       nullable (column ''hook_secret_ciphertext'' TText),
       nullable (column ''shim_token_hash'' TText),
       nullable (column ''tool_resume_token'' TText),
       column ''status'' TText,
       nullable (column ''status_reason'' TText),
       server_default DefNow (column ''created_at'' TTimestamp),
       nullable (column ''running_at'' TTimestamp),
       nullable (column ''recovery_checked_at'' TTimestamp),
       server_default DefNow (column ''last_activity_at'' TTimestamp),
       nullable (column ''stopped_at'' TTimestamp),
       nullable (column ''archived_at'' TTimestamp),
       nullable (column ''discord_thread_archived_at'' TTimestamp),
       nullable (column ''thread_archive_requested_at'' TTimestamp),
       nullable (column ''thread_archive_dead_lettered_at'' TTimestamp),
       server_default (DefLit ''0'') (column ''transcript_bytes_used'' TBigInt),
       server_default (DefLit ''0'') (column ''repair_attempts'' TInteger)],
     tb_key = [''id''],
     tb_unique = [(None, [''thread_id''])],
     tb_checks = [(''sessions_status_check'', InList ''status'' [''creating'', ''running'', ''idle'', ''archived'', ''resuming'', ''stopping'', ''stopped'', ''failed'', ''orphaned'']),
       (''sessions_archive_deadletter_check'', COr (IsNull ''thread_archive_dead_lettered_at'') (NotNull ''thread_archive_requested_at''))],
     tb_fks = [fkey ''guild_id'' ''guilds'' ''id'' Cascade, fkey ''owner_id'' ''users'' ''id'' NoAction, fkey ''host_id'' ''runner_hosts'' ''id'' NoAction]\<rparr>"

definition ddl_events :: sql_table where
  "ddl_events = \<lparr>tb_name = ''events'',
     tb_cols =
      [server_default Serial (column ''id'' TBigInt),
       nullable (column ''idempotency_key'' TText),
       nullable (column ''correlation_id'' TText),
       nullable (column ''guild_id'' TText),
       nullable (column ''session_id'' TUuid),
       nullable (column ''actor_id'' TText),
       nullable (column ''tool'' TText),
       nullable (column ''cwd_realpath'' TText),
       column ''type'' TText,
       server_default (DefLit ''{}'') (column ''payload'' TJson),
       server_default DefNow (column ''created_at'' TTimestamp)],
     tb_key = [''id''],
     tb_unique = [(None, [''idempotency_key''])],
     tb_checks = [],
     tb_fks = [fkey ''session_id'' ''sessions'' ''id'' SetNull]\<rparr>"

definition ddl_idempotency_keys :: sql_table where
  "ddl_idempotency_keys = \<lparr>tb_name = ''idempotency_keys'',
     tb_cols =
      [column ''envelope_type'' TText,
       column ''idempotency_key'' TText,
       nullable (column ''session_id'' TUuid),
       server_default DefNow (column ''first_seen_at'' TTimestamp),
       column ''expires_at'' TTimestamp,
       nullable (column ''outcome'' TText),
       nullable (column ''claim_expires_at'' TTimestamp),
       nullable (column ''claim_owner'' TText)],
     tb_key = [''envelope_type'', ''idempotency_key''],
     tb_unique = [],
     tb_checks = [],
     tb_fks = [fkey ''session_id'' ''sessions'' ''id'' Cascade]\<rparr>"

definition ddl_session_config :: sql_table where
  "ddl_session_config = \<lparr>tb_name = ''session_config'',
     tb_cols =
      [column ''session_id'' TUuid,
       column ''key'' (TVarchar 32),
       nullable (column ''value'' TText),
       nullable (column ''value_ciphertext'' TText),
       server_default DefNow (column ''created_at'' TTimestamp),
       server_default DefNow (column ''updated_at'' TTimestamp)],
     tb_key = [''session_id'', ''key''],
     tb_unique = [],
     tb_checks = [(''session_config_one_value'', CDiffer (NotNull ''value'') (NotNull ''value_ciphertext'')),
       (''session_config_key_format'', Matches ''key'' ''^[a-z][a-z0-9_]{0,31}$'')],
     tb_fks = [fkey ''session_id'' ''sessions'' ''id'' Cascade]\<rparr>"

definition ddl_session_members :: sql_table where
  "ddl_session_members = \<lparr>tb_name = ''session_members'',
     tb_cols =
      [column ''session_id'' TUuid,
       column ''user_id'' TText,
       nullable (column ''role'' TText)],
     tb_key = [''session_id'', ''user_id''],
     tb_unique = [],
     tb_checks = [(''session_members_role_check'', InList ''role'' [''owner'', ''operator'', ''viewer''])],
     tb_fks = [fkey ''session_id'' ''sessions'' ''id'' Cascade, fkey ''user_id'' ''users'' ''id'' NoAction]\<rparr>"

definition SCHEMA_DDL :: "mig_op list" where
  "SCHEMA_DDL =
     map CreateTable [ddl_guild_admin_role_policy, ddl_guild_tool_channel_map, ddl_guilds, ddl_redis_outbox,
       ddl_runner_hosts, ddl_tool_definitions, ddl_users, ddl_allowed_roots,
       ddl_guild_settings, ddl_path_aliases, ddl_sessions, ddl_events,
       ddl_idempotency_keys, ddl_session_config, ddl_session_members] @
     [CreateIndex (partial (IsNull ''published_at'') (index_on ''redis_outbox_pending_idx'' ''redis_outbox'' [''producer'', ''published_at'', ''next_attempt_at''])),
      CreateIndex (partial (CAnd (NotNull ''thread_archive_requested_at'') (IsNull ''discord_thread_archived_at'')) (index_on ''sessions_archive_pending_idx'' ''sessions'' [''id''])),
      CreateIndex (index_on ''sessions_guild_status_idx'' ''sessions'' [''guild_id'', ''status'']),
      CreateIndex (index_on ''sessions_host_status_idx'' ''sessions'' [''host_id'', ''status'']),
      CreateIndex (index_on ''sessions_owner_idx'' ''sessions'' [''owner_id''])]"

subsection \<open>The later revisions\<close>

definition upgrade_0002 :: "mig_op list" where
  "upgrade_0002 =
     [AddColumn ''sessions'' (server_default (DefLit ''0'') (column ''lifecycle_version'' TInteger)),
      AddColumn ''sessions'' (server_default DefNow (column ''lifecycle_changed_at'' TTimestamp)),
      CreateTable \<lparr>tb_name = ''input_turns'',
        tb_cols =
         [server_default IdentityAlways (column ''sequence'' TBigInt),
          column ''idempotency_key'' TText,
          column ''session_id'' TUuid,
          column ''lifecycle_version'' TInteger,
          column ''status'' TText,
          nullable (column ''result_text'' TText),
          nullable (column ''resume_token'' TText),
          server_default DefNow (column ''created_at'' TTimestamp),
          server_default DefNow (column ''updated_at'' TTimestamp)],
        tb_key = [''idempotency_key''],
        tb_unique = [(None, [''sequence''])],
        tb_checks = [(''input_turns_status_check'',
          InList ''status'' [''queued'', ''executing'', ''completed'', ''delivered'', ''uncertain''])],
        tb_fks = [fkey ''session_id'' ''sessions'' ''id'' Cascade]\<rparr>,
      CreateIndex (index_on ''input_turns_session_created_idx'' ''input_turns'' [''session_id'', ''created_at'']),
      CreateIndex (index_on ''events_session_type_created_idx'' ''events'' [''session_id'', ''type'', ''created_at'']),
      CreateIndex (partial (InList ''status'' [''delivered''])
        (index_on ''input_turns_delivered_retention_idx'' ''input_turns'' [''updated_at''])),
      CreateIndex (index_on ''events_created_at_idx'' ''events'' [''created_at'']),
      CreateIndex (index_on ''idempotency_expires_at_idx'' ''idempotency_keys'' [''expires_at'']),
      CreateIndex (partial (NotNull ''published_at'') (index_on ''outbox_retention_idx'' ''redis_outbox'' [''created_at'']))]"

definition downgrade_0002 :: "mig_op list" where
  "downgrade_0002 =
     [DropIndex ''outbox_retention_idx'', DropIndex ''idempotency_expires_at_idx'',
      DropIndex ''events_session_type_created_idx'', DropIndex ''events_created_at_idx'',
      DropTable ''input_turns'', DropColumn ''sessions'' ''lifecycle_changed_at'',
      DropColumn ''sessions'' ''lifecycle_version'']"

definition OLD_STATUSES :: sql_cond where
  "OLD_STATUSES = InList ''status'' [''queued'', ''executing'', ''completed'', ''delivered'', ''uncertain'']"

definition NEW_STATUSES :: sql_cond where
  "NEW_STATUSES = InList ''status''
     [''queued'', ''executing'', ''completed'', ''delivered'', ''uncertain'', ''delivery_failed'', ''aborted'']"

definition RETENTION_WHERE :: sql_cond where
  "RETENTION_WHERE =
     CAnd (InList ''status'' [''delivered'', ''delivery_failed''])
       (COr (NotNull ''result_text'') (NotNull ''resume_token''))"

definition upgrade_0003 :: "mig_op list" where
  "upgrade_0003 =
     [DropCheck ''input_turns_status_check'' ''input_turns'',
      CreateCheck ''input_turns_status_check'' ''input_turns'' NEW_STATUSES,
      DropIndex ''input_turns_delivered_retention_idx'',
      CreateIndex (partial RETENTION_WHERE
        (index_on ''input_turns_delivered_retention_idx'' ''input_turns'' [''updated_at''])),
      CreateIndex (index_on ''sessions_status_activity_idx'' ''sessions'' [''status'', ''last_activity_at''])]"

definition downgrade_0003 :: "mig_op list" where
  "downgrade_0003 =
     [DropIndex ''sessions_status_activity_idx'',
      DropIndex ''input_turns_delivered_retention_idx'',
      CreateIndex (partial (InList ''status'' [''delivered''])
        (index_on ''input_turns_delivered_retention_idx'' ''input_turns'' [''updated_at''])),
      DropCheck ''input_turns_status_check'' ''input_turns'',
      CreateCheck ''input_turns_status_check'' ''input_turns'' OLD_STATUSES]"

text \<open>The \<open>UPDATE\<close> of the step back, before the narrower constraint is created.\<close>

definition downgrade_turn :: "input_turn \<Rightarrow> input_turn" where
  "downgrade_turn t = (if t_status t \<in> {DeliveryFailed, Aborted} then t\<lparr>t_status := Delivered\<rparr> else t)"

definition downgrade_0001 :: "mig_op list" where
  "downgrade_0001 =
     map DropTable [''session_members'', ''session_config'', ''idempotency_keys'', ''events'', ''sessions'',
       ''path_aliases'', ''guild_settings'', ''allowed_roots'', ''users'', ''tool_definitions'', ''runner_hosts'',
       ''redis_outbox'', ''guilds'', ''guild_tool_channel_map'', ''guild_admin_role_policy'']"

subsection \<open>The declared classes\<close>

definition orm_guild_admin_role_policy :: sql_table where
  "orm_guild_admin_role_policy = \<lparr>tb_name = ''guild_admin_role_policy'',
     tb_cols =
      [server_default Serial (column ''id'' TInteger),
       column ''guild_id'' TText,
       nullable (column ''role_id'' TText),
       nullable (column ''role_name_fallback'' TText),
       column ''updated_by'' TText,
       server_default DefNow (column ''created_at'' TTimestamp),
       server_default DefNow (column ''updated_at'' TTimestamp)],
     tb_key = [''id''],
     tb_unique = [(Some ''guild_admin_role_policy_guild_id_uq'', [''guild_id''])],
     tb_checks = [],
     tb_fks = []\<rparr>"

definition orm_guild_tool_channel_map :: sql_table where
  "orm_guild_tool_channel_map = \<lparr>tb_name = ''guild_tool_channel_map'',
     tb_cols =
      [server_default Serial (column ''id'' TInteger),
       column ''guild_id'' TText,
       column ''tool'' TText,
       column ''channel_id'' TText,
       column ''updated_by'' TText,
       server_default DefNow (column ''created_at'' TTimestamp),
       server_default DefNow (column ''updated_at'' TTimestamp)],
     tb_key = [''id''],
     tb_unique = [(Some ''guild_tool_channel_map_guild_tool_uq'', [''guild_id'', ''tool''])],
     tb_checks = [],
     tb_fks = []\<rparr>"

definition orm_guilds :: sql_table where
  "orm_guilds = \<lparr>tb_name = ''guilds'',
     tb_cols =
      [column ''id'' TText,
       server_default (DefLit ''active'') (column ''status'' TText),
       column ''name'' TText,
       nullable (server_default DefNow (column ''created_at'' TTimestamp))],
     tb_key = [''id''],
     tb_unique = [],
     tb_checks = [(''guilds_status_check'', InList ''status'' [''active'', ''inactive'', ''draining'', ''blocked''])],
     tb_fks = []\<rparr>"

definition orm_guild_settings :: sql_table where
  "orm_guild_settings = \<lparr>tb_name = ''guild_settings'',
     tb_cols =
      [column ''guild_id'' TText,
       server_default (DefLit ''{}'') (column ''settings'' TJson)],
     tb_key = [''guild_id''],
     tb_unique = [],
     tb_checks = [],
     tb_fks = [fkey ''guild_id'' ''guilds'' ''id'' NoAction]\<rparr>"

definition orm_users :: sql_table where
  "orm_users = \<lparr>tb_name = ''users'',
     tb_cols =
      [column ''id'' TText,
       column ''username'' TText,
       nullable (server_default DefNow (column ''created_at'' TTimestamp))],
     tb_key = [''id''],
     tb_unique = [],
     tb_checks = [],
     tb_fks = []\<rparr>"

definition orm_redis_outbox :: sql_table where
  "orm_redis_outbox = \<lparr>tb_name = ''redis_outbox'',
     tb_cols =
      [server_default Serial (column ''id'' TBigInt),
       column ''producer'' TText,
       column ''envelope_type'' TText,
       column ''stream_key'' TText,
       column ''payload'' TJson,
       server_default DefNow (column ''created_at'' TTimestamp),
       nullable (column ''published_at'' TTimestamp),
       server_default (DefLit ''0'') (column ''attempts'' TInteger),
       server_default DefNow (column ''next_attempt_at'' TTimestamp),
       nullable (column ''error'' TText)],
     tb_key = [''id''],
     tb_unique = [],
     tb_checks = [],
     tb_fks = []\<rparr>"

definition orm_runner_hosts :: sql_table where
  "orm_runner_hosts = \<lparr>tb_name = ''runner_hosts'',
     tb_cols =
      [column ''id'' TText,
       server_default (DefLit ''unknown'') (column ''status'' TText),
       nullable (column ''last_heartbeat_at'' TTimestamp),
       server_default (DefLit ''{}'') (column ''metadata'' TJson)],
     tb_key = [''id''],
     tb_unique = [],
     tb_checks = [(''runner_hosts_id_format_check'', Matches ''id'' ''^[a-z0-9-]{1,40}$''),
       (''runner_hosts_status_check'', InList ''status'' [''online'', ''offline'', ''draining'', ''unknown''])],
     tb_fks = []\<rparr>"

definition orm_tool_definitions :: sql_table where
  "orm_tool_definitions = \<lparr>tb_name = ''tool_definitions'',
     tb_cols =
      [column ''name'' (TVarchar 64),
       column ''display_name'' (TVarchar 128),
       column ''argv_prefix'' TJson,
       column ''argv_resume_tokens'' TJson,
       column ''argv_suffix'' TJson,
       column ''uses_pty'' TBoolean,
       column ''resume_token_source'' (TVarchar 16),
       nullable (column ''resume_token_pattern'' (TVarchar 512)),
       column ''reply_extractor'' (TVarchar 32),
       nullable (column ''reply_json_field'' (TVarchar 64)),
       column ''extra_paths'' TJson,
       column ''env_passthrough'' TJson,
       nullable (column ''model_flag'' (TVarchar 64)),
       nullable (column ''api_key_env'' (TVarchar 64)),
       nullable (column ''base_url_env'' (TVarchar 64)),
       column ''enabled'' TBoolean,
       nullable (column ''created_by'' (TVarchar 64)),
       server_default DefNow (column ''created_at'' TTimestamp),
       server_default DefNow (column ''updated_at'' TTimestamp)],
     tb_key = [''name''],
     tb_unique = [],
     tb_checks = [(''tool_definitions_name_format'', Matches ''name'' ''^[a-z][a-z0-9_-]{0,63}$'')],
     tb_fks = []\<rparr>"

definition orm_allowed_roots :: sql_table where
  "orm_allowed_roots = \<lparr>tb_name = ''allowed_roots'',
     tb_cols =
      [server_default DefUuid (column ''id'' TUuid),
       nullable (column ''guild_id'' TText),
       server_default (DefLit '''') (column ''user_id'' TText),
       column ''runner_host_id'' TText,
       column ''path'' TText,
       column ''realpath'' TText,
       column ''created_by'' TText,
       server_default DefNow (column ''created_at'' TTimestamp)],
     tb_key = [''id''],
     tb_unique = [(Some ''allowed_roots_uq'', [''guild_id'', ''user_id'', ''runner_host_id'', ''realpath''])],
     tb_checks = [(''allowed_roots_realpath_check'', LikePrefix ''realpath'' ''/'')],
     tb_fks = [fkey ''guild_id'' ''guilds'' ''id'' Cascade]\<rparr>"

definition orm_path_aliases :: sql_table where
  "orm_path_aliases = \<lparr>tb_name = ''path_aliases'',
     tb_cols =
      [server_default DefUuid (column ''id'' TUuid),
       column ''guild_id'' TText,
       column ''alias'' TText,
       column ''path'' TText,
       column ''realpath'' TText,
       column ''created_by'' TText,
       server_default DefNow (column ''created_at'' TTimestamp)],
     tb_key = [''id''],
     tb_unique = [(Some ''path_aliases_uq'', [''guild_id'', ''alias''])],
     tb_checks = [(''path_aliases_alias_check'', Matches ''alias'' ''^[a-z][a-z0-9_-]{0,63}$''),
       (''path_aliases_realpath_check'', LikePrefix ''realpath'' ''/'')],
     tb_fks = [fkey ''guild_id'' ''guilds'' ''id'' Cascade]\<rparr>"

definition orm_sessions :: sql_table where
  "orm_sessions = \<lparr>tb_name = ''sessions'',
     tb_cols =
      [server_default DefUuid (column ''id'' TUuid),
       nullable (column ''guild_id'' TText),
       nullable (column ''owner_id'' TText),
       column ''tool'' TText,
       column ''name'' TText,
       column ''cwd'' TText,
       column ''cwd_realpath'' TText,
       nullable (column ''parent_channel_id'' TText),
       nullable (column ''thread_id'' TText),
       nullable (column ''host_id'' TText),
       column ''hook_secret_hash'' TText,
       nullable (column ''hook_secret_ciphertext'' TText),
       nullable (column ''shim_token_hash'' TText),
       nullable (column ''tool_resume_token'' TText),
       column ''status'' TText,
       server_default (DefLit ''0'') (column ''lifecycle_version'' TInteger),
       server_default DefNow (column ''lifecycle_changed_at'' TTimestamp),
       nullable (column ''status_reason'' TText),
       server_default DefNow (column ''created_at'' TTimestamp),
       nullable (column ''running_at'' TTimestamp),
       nullable (column ''recovery_checked_at'' TTimestamp),
       server_default DefNow (column ''last_activity_at'' TTimestamp),
       nullable (column ''stopped_at'' TTimestamp),
       nullable (column ''archived_at'' TTimestamp),
       nullable (column ''discord_thread_archived_at'' TTimestamp),
       nullable (column ''thread_archive_requested_at'' TTimestamp),
       nullable (column ''thread_archive_dead_lettered_at'' TTimestamp),
       server_default (DefLit ''0'') (column ''transcript_bytes_used'' TBigInt),
       server_default (DefLit ''0'') (column ''repair_attempts'' TInteger)],
     tb_key = [''id''],
     tb_unique = [(None, [''thread_id''])],
     tb_checks = [(''sessions_status_check'', InList ''status'' [''creating'', ''running'', ''idle'', ''archived'', ''resuming'', ''stopping'', ''stopped'', ''failed'', ''orphaned'']),
       (''sessions_archive_deadletter_check'', COr (IsNull ''thread_archive_dead_lettered_at'') (NotNull ''thread_archive_requested_at''))],
     tb_fks = [fkey ''guild_id'' ''guilds'' ''id'' Cascade, fkey ''owner_id'' ''users'' ''id'' NoAction, fkey ''host_id'' ''runner_hosts'' ''id'' NoAction]\<rparr>"

definition orm_session_members :: sql_table where
  "orm_session_members = \<lparr>tb_name = ''session_members'',
     tb_cols =
      [column ''session_id'' TUuid,
       column ''user_id'' TText,
       nullable (column ''role'' TText)],
     tb_key = [''session_id'', ''user_id''],
     tb_unique = [],
     tb_checks = [(''session_members_role_check'', InList ''role'' [''owner'', ''operator'', ''viewer''])],
     tb_fks = [fkey ''session_id'' ''sessions'' ''id'' Cascade, fkey ''user_id'' ''users'' ''id'' NoAction]\<rparr>"

definition orm_events :: sql_table where
  "orm_events = \<lparr>tb_name = ''events'',
     tb_cols =
      [server_default Serial (column ''id'' TBigInt),
       nullable (column ''idempotency_key'' TText),
       nullable (column ''correlation_id'' TText),
       nullable (column ''guild_id'' TText),
       nullable (column ''session_id'' TUuid),
       nullable (column ''actor_id'' TText),
       nullable (column ''tool'' TText),
       nullable (column ''cwd_realpath'' TText),
       column ''type'' TText,
       server_default (DefLit ''{}'') (column ''payload'' TJson),
       server_default DefNow (column ''created_at'' TTimestamp)],
     tb_key = [''id''],
     tb_unique = [(None, [''idempotency_key''])],
     tb_checks = [],
     tb_fks = [fkey ''session_id'' ''sessions'' ''id'' SetNull]\<rparr>"

definition orm_idempotency_keys :: sql_table where
  "orm_idempotency_keys = \<lparr>tb_name = ''idempotency_keys'',
     tb_cols =
      [column ''envelope_type'' TText,
       column ''idempotency_key'' TText,
       nullable (column ''session_id'' TUuid),
       server_default DefNow (column ''first_seen_at'' TTimestamp),
       column ''expires_at'' TTimestamp,
       nullable (column ''outcome'' TText),
       nullable (column ''claim_expires_at'' TTimestamp),
       nullable (column ''claim_owner'' TText)],
     tb_key = [''envelope_type'', ''idempotency_key''],
     tb_unique = [],
     tb_checks = [],
     tb_fks = [fkey ''session_id'' ''sessions'' ''id'' Cascade]\<rparr>"

definition orm_session_config :: sql_table where
  "orm_session_config = \<lparr>tb_name = ''session_config'',
     tb_cols =
      [column ''session_id'' TUuid,
       column ''key'' (TVarchar 32),
       nullable (column ''value'' TText),
       nullable (column ''value_ciphertext'' TText),
       server_default DefNow (column ''created_at'' TTimestamp),
       server_default DefNow (column ''updated_at'' TTimestamp)],
     tb_key = [''session_id'', ''key''],
     tb_unique = [],
     tb_checks = [(''session_config_one_value'', CDiffer (NotNull ''value'') (NotNull ''value_ciphertext'')),
       (''session_config_key_format'', Matches ''key'' ''^[a-z][a-z0-9_]{0,31}$'')],
     tb_fks = [fkey ''session_id'' ''sessions'' ''id'' Cascade]\<rparr>"

definition orm_input_turns :: sql_table where
  "orm_input_turns = \<lparr>tb_name = ''input_turns'',
     tb_cols =
      [server_default IdentityAlways (column ''sequence'' TBigInt),
       column ''idempotency_key'' TText,
       column ''session_id'' TUuid,
       column ''lifecycle_version'' TInteger,
       column ''status'' TText,
       nullable (column ''result_text'' TText),
       nullable (column ''resume_token'' TText),
       server_default DefNow (column ''created_at'' TTimestamp),
       server_default DefNow (column ''updated_at'' TTimestamp)],
     tb_key = [''idempotency_key''],
     tb_unique = [(None, [''sequence''])],
     tb_checks = [(''input_turns_status_check'', InList ''status'' [''queued'', ''executing'', ''completed'', ''delivered'', ''uncertain'', ''delivery_failed'', ''aborted''])],
     tb_fks = [fkey ''session_id'' ''sessions'' ''id'' Cascade]\<rparr>"

definition ORM_SCHEMA :: schema where
  "ORM_SCHEMA = \<lparr>sc_tables =
      [orm_guild_admin_role_policy, orm_guild_tool_channel_map, orm_guilds, orm_redis_outbox,
       orm_runner_hosts, orm_tool_definitions, orm_users, orm_allowed_roots,
       orm_guild_settings, orm_path_aliases, orm_sessions, orm_events,
       orm_idempotency_keys, orm_session_config, orm_session_members, orm_input_turns],
    sc_indexes =
      [partial (NotNull ''published_at'') (index_on ''outbox_retention_idx'' ''redis_outbox'' [''created_at'']),
       partial (IsNull ''published_at'') (index_on ''redis_outbox_pending_idx'' ''redis_outbox'' [''producer'', ''published_at'', ''next_attempt_at'']),
       index_on ''sessions_guild_status_idx'' ''sessions'' [''guild_id'', ''status''],
       index_on ''sessions_host_status_idx'' ''sessions'' [''host_id'', ''status''],
       index_on ''sessions_owner_idx'' ''sessions'' [''owner_id''],
       index_on ''sessions_status_activity_idx'' ''sessions'' [''status'', ''last_activity_at''],
       partial (CAnd (NotNull ''thread_archive_requested_at'') (IsNull ''discord_thread_archived_at'')) (index_on ''sessions_archive_pending_idx'' ''sessions'' [''id'']),
       index_on ''events_created_at_idx'' ''events'' [''created_at''],
       index_on ''events_session_type_created_idx'' ''events'' [''session_id'', ''type'', ''created_at''],
       index_on ''idempotency_expires_at_idx'' ''idempotency_keys'' [''expires_at''],
       partial (CAnd (InList ''status'' [''delivered'', ''delivery_failed'']) (COr (NotNull ''result_text'') (NotNull ''resume_token''))) (index_on ''input_turns_delivered_retention_idx'' ''input_turns'' [''updated_at'']),
       index_on ''input_turns_session_created_idx'' ''input_turns'' [''session_id'', ''created_at'']]\<rparr>"

subsection \<open>The migrations build what the classes declare\<close>

definition EMPTY_SCHEMA :: schema where "EMPTY_SCHEMA = \<lparr>sc_tables = [], sc_indexes = []\<rparr>"

text \<open>Equality up to the order of columns, constraints and indexes; the tables are listed in the order of their creation.\<close>

definition same_set :: "'a list \<Rightarrow> 'a list \<Rightarrow> bool" where
  "same_set xs ys \<longleftrightarrow> length xs = length ys \<and> subset_list xs ys \<and> subset_list ys xs"

lemma same_set_code [code]:
  "same_set xs ys = (if xs = ys then True else length xs = length ys \<and> subset_list xs ys \<and> subset_list ys xs)"
  by (auto simp: same_set_def subset_list_iff)

definition same_table :: "sql_table \<Rightarrow> sql_table \<Rightarrow> bool" where
  "same_table t t' \<longleftrightarrow> tb_name t = tb_name t' \<and> same_set (tb_cols t) (tb_cols t') \<and> tb_key t = tb_key t' \<and>
     same_set (tb_unique t) (tb_unique t') \<and> same_set (tb_checks t) (tb_checks t') \<and> same_set (tb_fks t) (tb_fks t')"

definition same_schema :: "schema \<Rightarrow> schema \<Rightarrow> bool" where
  "same_schema s s' \<longleftrightarrow>
     list_all2 same_table (sc_tables s) (sc_tables s') \<and> same_set (sc_indexes s) (sc_indexes s')"

text \<open>The whole chain, forwards to the last revision and back.\<close>

definition chain_ok :: bool where
  "chain_ok =
     (case run_ops SCHEMA_DDL EMPTY_SCHEMA of None \<Rightarrow> False | Some s1 \<Rightarrow>
     (case run_ops upgrade_0002 s1 of None \<Rightarrow> False | Some s2 \<Rightarrow>
     (case run_ops upgrade_0003 s2 of None \<Rightarrow> False | Some s3 \<Rightarrow>
        same_schema s3 ORM_SCHEMA \<and>
     (case run_ops downgrade_0003 s3 of None \<Rightarrow> False | Some b2 \<Rightarrow> same_schema b2 s2 \<and>
     (case run_ops downgrade_0002 b2 of None \<Rightarrow> False | Some b1 \<Rightarrow> same_schema b1 s1 \<and>
        run_ops downgrade_0001 b1 = Some EMPTY_SCHEMA)))))"

lemma chain_ok: chain_ok
  by code_simp

text \<open>The check constraints of the statuses accept exactly the values of the datatypes of theory \<open>Domain\<close>.\<close>

definition turn_status_str :: "turn_status \<Rightarrow> string" where
  "turn_status_str s =
     (case s of Queued \<Rightarrow> ''queued'' | Executing \<Rightarrow> ''executing'' | Completed \<Rightarrow> ''completed'' | Delivered \<Rightarrow> ''delivered''
      | Uncertain \<Rightarrow> ''uncertain'' | DeliveryFailed \<Rightarrow> ''delivery_failed'' | Aborted \<Rightarrow> ''aborted'')"

definition turn_row :: "input_turn \<Rightarrow> sql_row" where
  "turn_row t c = (if c = ''status'' then Some (turn_status_str (t_status t)) else None)"

lemma new_statuses_exact:
  "check_accepts re NEW_STATUSES r \<longleftrightarrow> (case r ''status'' of None \<Rightarrow> True | Some v \<Rightarrow> v \<in> range turn_status_str)"
proof -
  have all: "(UNIV :: turn_status set) = {Queued, Executing, Completed, Delivered, Uncertain, DeliveryFailed, Aborted}"
    by (auto intro: turn_status.exhaust)
  have "range turn_status_str =
      {''queued'', ''executing'', ''completed'', ''delivered'', ''uncertain'', ''delivery_failed'', ''aborted''}"
    unfolding all by (simp add: turn_status_str_def)
  then show ?thesis
    by (simp add: check_accepts_def NEW_STATUSES_def split: option.split)
qed

text \<open>The narrower constraint of revision 0002 holds of every turn the step back leaves, and not without it.\<close>

lemma downgrade_turn_accepted: "check_accepts re OLD_STATUSES (turn_row (downgrade_turn t))"
  by (cases "t_status t")
    (simp_all add: check_accepts_def OLD_STATUSES_def turn_row_def downgrade_turn_def turn_status_str_def)

lemma downgrade_needs_update:
  "t_status t = Aborted \<Longrightarrow> \<not> check_accepts re OLD_STATUSES (turn_row t)"
  by (simp add: check_accepts_def OLD_STATUSES_def turn_row_def turn_status_str_def)


end
