(* ===== verification/Metrics.thy ===== *)
theory Metrics
  imports Url "HOL-Library.AList"
begin

text \<open>
  \<open>metrics.py\<close>: the registry of counters and gauges, its text in the format of Prometheus, and the exporter that
  serves it on a loopback address. A Python dict is an association list in the order of insertion; the type of the
  values and their \<open>str\<close> are parameters, as are the parsing of IPv6 addresses and of numbers.
\<close>

subsection \<open>The registry\<close>

record 'v registry =
  counters :: "(pystr \<times> 'v) list"
  gauges :: "(pystr \<times> 'v) list"

abbreviation (input) equals_sign :: nat where "equals_sign \<equiv> 61"
abbreviation (input) comma_sign :: nat where "comma_sign \<equiv> 44"

definition get_counter :: "pystr \<Rightarrow> 'v::zero registry \<Rightarrow> 'v" where
  "get_counter name r = (case map_of (counters r) name of None \<Rightarrow> 0 | Some v \<Rightarrow> v)"

definition get_gauge :: "pystr \<Rightarrow> 'v::zero registry \<Rightarrow> 'v" where
  "get_gauge name r = (case map_of (gauges r) name of None \<Rightarrow> 0 | Some v \<Rightarrow> v)"

definition increment :: "pystr \<Rightarrow> 'v::{zero, plus} \<Rightarrow> 'v registry \<Rightarrow> 'v registry" where
  "increment name v r = r\<lparr>counters := AList.update name (get_counter name r + v) (counters r)\<rparr>"

definition set_gauge :: "pystr \<Rightarrow> 'v \<Rightarrow> 'v registry \<Rightarrow> 'v registry" where
  "set_gauge name v r = r\<lparr>gauges := AList.update name v (gauges r)\<rparr>"

text \<open>The key of a labelled metric, and what \<open>_Counter.inc\<close> and \<open>_Gauge.set\<close> do with it.\<close>

definition metric_key :: "pystr \<Rightarrow> (pystr \<times> pystr) list \<Rightarrow> pystr" where
  "metric_key name labels = name @ colon # join_with comma_sign (map (\<lambda>(k, v). k @ equals_sign # v) labels)"

definition counter_inc :: "pystr \<Rightarrow> (pystr \<times> pystr) list \<Rightarrow> 'v::{zero, plus} \<Rightarrow> 'v registry \<Rightarrow> 'v registry" where
  "counter_inc name labels amount r = increment (metric_key name labels) amount r"

definition gauge_set :: "pystr \<Rightarrow> (pystr \<times> pystr) list \<Rightarrow> 'v \<Rightarrow> 'v registry \<Rightarrow> 'v registry" where
  "gauge_set name labels v r = set_gauge (metric_key name labels) v r"

definition OUTBOX_PUBLISH_TOTAL :: pystr where "OUTBOX_PUBLISH_TOTAL = u ''dab_outbox_publish_total''"
definition OUTBOX_LAG_ENTRIES :: pystr where "OUTBOX_LAG_ENTRIES = u ''dab_outbox_lag_entries''"
definition OUTBOX_OLDEST_PENDING_SECONDS :: pystr where
  "OUTBOX_OLDEST_PENDING_SECONDS = u ''dab_outbox_oldest_pending_seconds''"

definition record_outbox_publish :: "pystr \<Rightarrow> 'v::{zero, one, plus} registry \<Rightarrow> 'v registry" where
  "record_outbox_publish producer r = increment (OUTBOX_PUBLISH_TOTAL @ u '':producer='' @ producer) 1 r"

definition record_outbox_lag :: "'v \<Rightarrow> 'v \<Rightarrow> 'v registry \<Rightarrow> 'v registry" where
  "record_outbox_lag pending oldest r =
     set_gauge OUTBOX_OLDEST_PENDING_SECONDS oldest (set_gauge OUTBOX_LAG_ENTRIES pending r)"

subsection \<open>The text\<close>

text \<open>\<open>json.dumps\<close> of a string: ASCII only, with surrogate pairs above the basic plane.\<close>

definition hex_digit :: "nat \<Rightarrow> nat" where
  "hex_digit n = (if n < 10 then 48 + n else 87 + n)"

definition json_escape :: "nat \<Rightarrow> pystr" where
  "json_escape n = u [CHR 0x5C, CHR ''u''] @
     [hex_digit (n div 4096 mod 16), hex_digit (n div 256 mod 16), hex_digit (n div 16 mod 16), hex_digit (n mod 16)]"

definition json_char :: "nat \<Rightarrow> pystr" where
  "json_char c =
     (if c = 34 \<or> c = 92 then [92, c]
      else if c = 10 then [92, 110] else if c = 13 then [92, 114] else if c = 9 then [92, 116]
      else if c = 8 then [92, 98] else if c = 12 then [92, 102]
      else if 32 \<le> c \<and> c \<le> 126 then [c]
      else if c < 65536 then json_escape c
      else json_escape (55296 + (c - 65536) div 1024) @ json_escape (56320 + (c - 65536) mod 1024))"

definition json_text :: "pystr \<Rightarrow> pystr" where
  "json_text s = 34 # concat (map json_char s) @ [34]"

text \<open>One label: \<open>part.split("=", 1)\<close> unpacked into two, and the labels of a key.\<close>

fun render_labels :: "pystr list \<Rightarrow> pystr list result" where
  "render_labels [] = Inr []"
| "render_labels (p # ps) =
     (case after_first equals_sign p of
        None \<Rightarrow> Inl (ValueErr (u ''not enough values to unpack (expected 2, got 1)''))
      | Some v \<Rightarrow>
          (case render_labels ps of
             Inl e \<Rightarrow> Inl e
           | Inr rest \<Rightarrow> Inr ((before_first equals_sign p @ equals_sign # json_text v) # rest)))"

definition render_key :: "pystr \<Rightarrow> pystr result" where
  "render_key key =
     (case after_first colon key of
        None \<Rightarrow> Inr (before_first colon key)
      | Some labels \<Rightarrow>
          if labels = [] then Inr (before_first colon key)
          else (case render_labels (split_on comma_sign labels) of
                  Inl e \<Rightarrow> Inl e
                | Inr parts \<Rightarrow> Inr (before_first colon key @ u ''{'' @ join_with comma_sign parts @ u ''}'')))"

fun render_lines :: "('v \<Rightarrow> pystr) \<Rightarrow> (pystr \<times> 'v) list \<Rightarrow> pystr list result" where
  "render_lines shw [] = Inr []"
| "render_lines shw ((key, v) # rest) =
     (case render_key key of
        Inl e \<Rightarrow> Inl e
      | Inr k \<Rightarrow> (case render_lines shw rest of
                   Inl e \<Rightarrow> Inl e
                 | Inr ls \<Rightarrow> Inr ((k @ space # shw v @ [nl]) # ls)))"

definition render_metrics :: "('v \<Rightarrow> pystr) \<Rightarrow> 'v registry \<Rightarrow> pystr result" where
  "render_metrics shw r =
     (case render_lines shw (counters r @ gauges r) of Inl e \<Rightarrow> Inl e | Inr ls \<Rightarrow> Inr (concat ls))"

subsection \<open>The exporter\<close>

text \<open>The answers of \<open>do_GET\<close>: a body with its content type, or the status of an error.\<close>

datatype http_answer = Body pystr pystr | HttpStatus nat

definition do_GET :: "('v \<Rightarrow> pystr) \<Rightarrow> pystr \<Rightarrow> 'v registry \<Rightarrow> http_answer result" where
  "do_GET shw path r =
     (if path = u ''/healthz'' then Inr (Body (u ''ok'' @ [nl]) (u ''text/plain''))
      else if path = u ''/metrics'' then
        (case render_metrics shw r of
           Inl e \<Rightarrow> Inl e | Inr t \<Rightarrow> Inr (Body t (u ''text/plain; version=0.0.4'')))
      else Inr (HttpStatus 404))"

text \<open>
  \<open>start_metrics_server\<close> up to the listening socket: the address family, host and port. \<open>loop6\<close> is
  \<open>ipaddress.ip_address(s).is_loopback\<close> of an IPv6 address, \<open>None\<close> for a text that is none; \<open>num\<close> is \<open>int(s)\<close>.
\<close>

definition is_loopback :: "(pystr \<Rightarrow> bool option) \<Rightarrow> pystr \<Rightarrow> bool option" where
  "is_loopback loop6 host = (case ipv4_of host of Some ip \<Rightarrow> Some (in_net (quad 127 0 0 0) 8 ip) | None \<Rightarrow> loop6 host)"

definition start_metrics_server ::
  "(pystr \<Rightarrow> bool option) \<Rightarrow> (pystr \<Rightarrow> int option) \<Rightarrow> pystr \<Rightarrow> (bool \<times> pystr \<times> int) result" where
  "start_metrics_server loop6 num bind =
     (case before_last colon bind of
        None \<Rightarrow> Inl (ValueErr (u ''not enough values to unpack (expected 2, got 1)''))
      | Some h \<Rightarrow>
          (let host = strip_by (\<lambda>c. c = 91 \<or> c = 93) h;
               serve = (case num (after_last colon bind) of
                          None \<Rightarrow> Inl (ValueErr (u ''invalid literal for int()''))
                        | Some port \<Rightarrow> Inr (colon \<in> set host, host, port))
           in if host = u ''localhost'' then serve
              else (case is_loopback loop6 host of
                      None \<Rightarrow> Inl (ValueErr (host @ u '' does not appear to be an IPv4 or IPv6 address''))
                    | Some False \<Rightarrow>
                        Inl (ValueErr (u ''Metrics bind must be loopback; use an authenticated proxy remotely''))
                    | Some True \<Rightarrow> serve)))"

subsection \<open>Counting\<close>

lemma get_counter_increment [simp]:
  "get_counter n (increment m v r) = (if n = m then get_counter n r + v else get_counter n r)"
  by (simp add: get_counter_def increment_def update_conv')

lemma get_gauge_set [simp]: "get_gauge n (set_gauge m v r) = (if n = m then v else get_gauge n r)"
  by (simp add: get_gauge_def set_gauge_def update_conv')

lemma kinds_apart [simp]:
  "get_gauge n (increment m v r) = get_gauge n r" "get_counter n (set_gauge m v r) = get_counter n r"
  by (simp_all add: get_counter_def get_gauge_def increment_def set_gauge_def)

subsection \<open>Rendering\<close>

lemma before_after_first:
  assumes "c \<notin> set a"
  shows "before_first c (a @ c # b) = a" "after_first c (a @ c # b) = Some b"
proof -
  have "takeWhile (\<lambda>x. x \<noteq> c) (a @ c # b) = a" "dropWhile (\<lambda>x. x \<noteq> c) (a @ c # b) = c # b"
    using assms by (induction a) auto
  then show "before_first c (a @ c # b) = a" "after_first c (a @ c # b) = Some b"
    by (simp_all add: before_first_def after_first_def)
qed

lemma split_on_join_with:
  "parts \<noteq> [] \<Longrightarrow> list_all (\<lambda>p. c \<notin> set p) parts \<Longrightarrow> split_on c (join_with c parts) = parts"
  by (induction parts rule: join_with.induct) (auto simp: split_on_append split_on_no_sep_id)

text \<open>Labels whose name has no separator and whose value has no comma are rendered one by one.\<close>

definition label_ok :: "pystr \<times> pystr \<Rightarrow> bool" where
  "label_ok l \<longleftrightarrow> set (fst l) \<inter> {comma_sign, equals_sign, nl} = {} \<and> comma_sign \<notin> set (snd l)"

definition label_text :: "pystr \<times> pystr \<Rightarrow> pystr" where
  "label_text l = fst l @ equals_sign # json_text (snd l)"

lemma render_labels_ok:
  "list_all label_ok labels \<Longrightarrow>
   render_labels (map (\<lambda>(k, v). k @ equals_sign # v) labels) = Inr (map label_text labels)"
  by (induction labels) (auto simp: label_ok_def label_text_def before_after_first)

lemma render_labelled:
  assumes "colon \<notin> set name" "labels \<noteq> []" "list_all label_ok labels"
  shows "render_key (metric_key name labels) =
    Inr (name @ u ''{'' @ join_with comma_sign (map label_text labels) @ u ''}'')"
proof -
  let ?parts = "map (\<lambda>(k, v). k @ equals_sign # v) labels"
  have "list_all (\<lambda>p. comma_sign \<notin> set p) ?parts"
    using assms(3) by (auto simp: list_all_iff label_ok_def)
  then have "split_on comma_sign (join_with comma_sign ?parts) = ?parts"
    using assms(2) by (intro split_on_join_with) simp_all
  moreover have "join_with comma_sign ?parts \<noteq> []"
    using assms(2) by (cases labels; cases "tl labels") auto
  ultimately show ?thesis
    using assms by (simp add: render_key_def metric_key_def before_after_first render_labels_ok)
qed

lemma render_plain:
  assumes "colon \<notin> set name"
  shows "render_key name = Inr name"
proof -
  have "after_first colon name = None" "before_first colon name = name"
    unfolding after_first_def before_first_def using assms by (induction name) auto
  then show ?thesis
    by (simp add: render_key_def)
qed

text \<open>The keys the exporter can render: a name, or a name with labels.\<close>

definition key_ok :: "pystr \<Rightarrow> bool" where
  "key_ok key \<longleftrightarrow> (\<exists>name labels. set name \<inter> {colon, nl} = {} \<and> list_all label_ok labels \<and>
     key = (if labels = [] then name else metric_key name labels))"

lemma json_no_newline: "nl \<notin> set (json_text s)"
proof -
  have "hex_digit n \<noteq> 10" for n
    by (simp add: hex_digit_def)
  then have "nl \<notin> set (json_char c)" for c
    by (auto simp: json_char_def json_escape_def u_def)
  then show ?thesis
    by (auto simp: json_text_def)
qed

lemma set_join_with: "set (join_with c parts) \<subseteq> insert c (\<Union> (set ` set parts))"
  by (induction parts rule: join_with.induct) auto

lemma render_key_ok:
  assumes "key_ok key"
  obtains out where "render_key key = Inr out" "nl \<notin> set out"
proof -
  obtain name labels where k: "set name \<inter> {colon, nl} = {}" "list_all label_ok labels"
      "key = (if labels = [] then name else metric_key name labels)"
    using assms by (auto simp: key_ok_def)
  show ?thesis
  proof (cases "labels = []")
    case True
    then show ?thesis
      using that [of name] k render_plain [of name] by simp
  next
    case False
    have "nl \<notin> set (label_text l)" if "l \<in> set labels" for l
      using k(2) that json_no_newline [of "snd l"] by (auto simp: list_all_iff label_ok_def label_text_def)
    then have "nl \<notin> set (join_with comma_sign (map label_text labels))"
      using set_join_with [of comma_sign "map label_text labels"] by auto
    moreover have "render_key key = Inr (name @ u ''{'' @ join_with comma_sign (map label_text labels) @ u ''}'')"
      using render_labelled [of name labels] k False by simp
    ultimately show ?thesis
      using that k(1) by (simp add: u_def)
  qed
qed

definition registry_ok :: "'v registry \<Rightarrow> bool" where
  "registry_ok r \<longleftrightarrow> list_all key_ok (map fst (counters r @ gauges r))"

lemma render_lines_ok:
  assumes "list_all key_ok (map fst ms)" "\<And>v. nl \<notin> set (shw v)"
  obtains ls where "render_lines shw ms = Inr ls" "length ls = length ms" "count_list (concat ls) nl = length ms"
  using assms(1)
proof (induction ms arbitrary: thesis)
  case (Cons m ms)
  obtain key v where m: "m = (key, v)"
    by fastforce
  obtain ls where ls: "render_lines shw ms = Inr ls" "length ls = length ms" "count_list (concat ls) nl = length ms"
    using Cons.IH Cons.prems(2) by auto
  obtain out where t: "render_key key = Inr out" "nl \<notin> set out"
    using render_key_ok [of key] Cons.prems(2) m by auto
  show ?case
    by (rule Cons.prems(1) [of "(out @ space # shw v @ [nl]) # ls"])
      (use ls t m assms(2) [of v] in \<open>simp_all add: count_list_append count_notin\<close>)
qed simp

lemma increment_ok: "key_ok k \<Longrightarrow> registry_ok r \<Longrightarrow> registry_ok (increment k v r)"
  by (auto simp: registry_ok_def increment_def list_all_iff dom_update)

lemma set_gauge_ok: "key_ok k \<Longrightarrow> registry_ok r \<Longrightarrow> registry_ok (set_gauge k v r)"
  by (auto simp: registry_ok_def set_gauge_def list_all_iff dom_update)

lemma plain_key_ok: "set name \<inter> {colon, nl} = {} \<Longrightarrow> key_ok name"
  unfolding key_ok_def by (intro exI [of _ name] exI [of _ "[]"]) simp

lemma labelled_key_ok:
  "set name \<inter> {colon, nl} = {} \<Longrightarrow> list_all label_ok labels \<Longrightarrow> labels \<noteq> [] \<Longrightarrow> key_ok (metric_key name labels)"
  unfolding key_ok_def by (intro exI [of _ name] exI [of _ labels]) simp

lemma counter_inc_ok:
  "set name \<inter> {colon, nl} = {} \<Longrightarrow> list_all label_ok labels \<Longrightarrow> labels \<noteq> [] \<Longrightarrow> registry_ok r \<Longrightarrow>
   registry_ok (counter_inc name labels v r)"
  by (simp add: counter_inc_def increment_ok labelled_key_ok)

lemma record_outbox_ok:
  "comma_sign \<notin> set producer \<Longrightarrow> registry_ok r \<Longrightarrow> registry_ok (record_outbox_publish producer r)"
  "registry_ok r \<Longrightarrow> registry_ok (record_outbox_lag p m r)"
proof -
  have key: "OUTBOX_PUBLISH_TOTAL @ u '':producer='' @ producer = metric_key OUTBOX_PUBLISH_TOTAL [(u ''producer'', producer)]"
    by (simp add: metric_key_def u_def)
  have "key_ok (metric_key OUTBOX_PUBLISH_TOTAL [(u ''producer'', producer)])" if "comma_sign \<notin> set producer"
    using that by (intro labelled_key_ok) (simp_all add: label_ok_def OUTBOX_PUBLISH_TOTAL_def u_def)
  then show "comma_sign \<notin> set producer \<Longrightarrow> registry_ok r \<Longrightarrow> registry_ok (record_outbox_publish producer r)"
    unfolding record_outbox_publish_def key by (rule increment_ok)
  have "key_ok OUTBOX_LAG_ENTRIES" "key_ok OUTBOX_OLDEST_PENDING_SECONDS"
    by (rule plain_key_ok, simp add: OUTBOX_LAG_ENTRIES_def OUTBOX_OLDEST_PENDING_SECONDS_def u_def)+
  then show "registry_ok r \<Longrightarrow> registry_ok (record_outbox_lag p m r)"
    by (simp add: record_outbox_lag_def set_gauge_ok)
qed

text \<open>
  Whatever the program records, the exporter answers, with one line for each metric: a newline of a label value is
  escaped. A comma in a label value is not, and the exporter fails from then on.
\<close>

theorem exporter_serves_all:
  assumes "registry_ok r" "\<And>v. nl \<notin> set (shw v)"
  shows "\<exists>t. do_GET shw (u ''/metrics'') r = Inr (Body t (u ''text/plain; version=0.0.4'')) \<and>
     count_list t nl = length (counters r) + length (gauges r)"
proof -
  obtain ls where "render_lines shw (counters r @ gauges r) = Inr ls"
      "count_list (concat ls) nl = length (counters r @ gauges r)"
    by (rule render_lines_ok [OF assms(1) [unfolded registry_ok_def] assms(2)])
  then show ?thesis
    by (simp add: do_GET_def render_metrics_def)
qed

lemma comma_breaks_exporter:
  "render_metrics shw (record_outbox_publish (u ''a,b'') \<lparr>counters = [], gauges = []\<rparr>) =
     Inl (ValueErr (u ''not enough values to unpack (expected 2, got 1)''))"
proof -
  have "render_key (OUTBOX_PUBLISH_TOTAL @ u '':producer='' @ u ''a,b'') =
      Inl (ValueErr (u ''not enough values to unpack (expected 2, got 1)''))"
    by code_simp
  then show ?thesis
    by (simp add: render_metrics_def record_outbox_publish_def increment_def)
qed

text \<open>The exporter listens on this host only.\<close>

lemma metrics_bind_is_local:
  "start_metrics_server loop6 num bind = Inr (v6, host, port) \<Longrightarrow>
     host = u ''localhost'' \<or> is_loopback loop6 host = Some True"
  by (auto simp: start_metrics_server_def Let_def split: option.splits if_splits bool.splits)

lemma wildcard_is_refused:
  "start_metrics_server loop6 num (u ''0.0.0.0:9101'') =
     Inl (ValueErr (u ''Metrics bind must be loopback; use an authenticated proxy remotely''))"
proof -
  have "before_last colon (u ''0.0.0.0:9101'') = Some (u ''0.0.0.0'')" "strip_by (\<lambda>c. c = 91 \<or> c = 93) (u ''0.0.0.0'') = u ''0.0.0.0''"
      "ipv4_of (u ''0.0.0.0'') = Some 0"
    by code_simp+
  moreover have "\<not> in_net (quad 127 0 0 0) 8 0"
    by (simp add: in_net_def quad_def)
  ultimately show ?thesis
    by (simp add: start_metrics_server_def is_loopback_def)
qed

end
