(* ===== verification/Dispatcher_Loop.thy ===== *)
theory Dispatcher_Loop
  imports Metrics Streams
begin

text \<open>
  \<open>_consume_dispatcher_stream\<close> of \<open>dispatcher/main.py\<close> over \<open>DispatcherConsumer\<close> of \<open>dispatcher/consumer.py\<close>: idle
  messages are claimed first, new ones are read only when there are none, and no error ends the loop. What a round
  meets is a record: which messages are idle, where Redis fails, and what the handlers answer.
\<close>

subsection \<open>A round\<close>

record 'f weather =
  w_idle :: "nat \<Rightarrow> bool"
  w_claim_fails :: bool
  w_read_fails :: bool
  w_handled :: "nat \<Rightarrow> 'f \<Rightarrow> bool result"
  w_count_ok :: "nat \<Rightarrow> bool"
  w_settles :: "nat \<Rightarrow> bool"

definition READ_ERRORS :: pystr where "READ_ERRORS = u ''discode_dispatcher_read_errors_total''"
definition DELIVERED :: pystr where "DELIVERED = u ''discode_dispatcher_delivered_total''"
definition DEADLETTERS :: pystr where "DEADLETTERS = u ''discode_dispatcher_deadletters_total''"

text \<open>
  One message: the acknowledgement and the dead letter may fail (\<open>w_settles\<close>), which leaves the message pending and
  is counted; a count of deliveries that fails is 0.
\<close>

definition dispatch_one ::
  "nat \<Rightarrow> 'f weather \<Rightarrow> nat \<times> 'f \<Rightarrow> 'f cgroup \<times> int registry \<Rightarrow> 'f cgroup \<times> int registry" where
  "dispatch_one max_deliveries w mf st =
     (let (m, f) = mf; (g, r) = st; handled = w_handled w m f;
          settled = process_dispatcher max_deliveries (w_count_ok w m) m f handled g;
          exhausted = max_deliveries \<le> delivery_count (w_count_ok w m) m g
      in if handled \<noteq> Inr True \<and> \<not> exhausted then (g, r)
         else if \<not> w_settles w m then (g, increment READ_ERRORS 1 r)
         else (settled, increment (if handled = Inr True then DELIVERED else DEADLETTERS) 1 r))"

definition dispatcher_round ::
  "nat \<Rightarrow> 'f weather \<Rightarrow> 'f cgroup \<times> int registry \<Rightarrow> 'f cgroup \<times> int registry" where
  "dispatcher_round max_deliveries w st =
     (let (g, r) = st in
      if w_claim_fails w then (g, increment READ_ERRORS 1 r)
      else
        (case claim_pending (w_idle w) g of
           (m # ms, g1) \<Rightarrow> fold (dispatch_one max_deliveries w) (m # ms) (g1, r)
         | ([], g1) \<Rightarrow>
             if w_read_fails w then (g1, increment READ_ERRORS 1 r)
             else (let (ms, g2) = read_new 10 g1 in fold (dispatch_one max_deliveries w) ms (g2, r))))"

definition dispatcher_loop :: "nat \<Rightarrow> 'f weather list \<Rightarrow> 'f cgroup \<times> int registry \<Rightarrow> 'f cgroup \<times> int registry" where
  "dispatcher_loop max_deliveries ws st = fold (dispatcher_round max_deliveries) ws st"

subsection \<open>Nothing is lost\<close>

lemma known_dispatch_one [simp]: "known (fst (dispatch_one n w mf st)) = known (fst st)"
  by (auto simp: dispatch_one_def Let_def process_dispatcher_def split: prod.split sum.split bool.split)

lemma known_dispatch_all [simp]: "known (fst (fold (dispatch_one n w) ms st)) = known (fst st)"
  by (induction ms arbitrary: st) simp_all

lemma known_round: "known (fst (dispatcher_round n w st)) = known (fst st)"
proof (cases st)
  case (Pair g r)
  obtain ms g1 where c: "claim_pending (w_idle w) g = (ms, g1)"
    by fastforce
  obtain ns g2 where r: "read_new 10 g1 = (ns, g2)"
    by fastforce
  have "known g1 = known g" "known g2 = known g1"
    using known_claim [of "w_idle w" g] known_read [of 10 g1] c r by simp_all
  then show ?thesis
    by (cases ms) (simp_all add: dispatcher_round_def Pair c r del: fold_simps)
qed

lemma known_loop: "known (fst (dispatcher_loop n ws st)) = known (fst st)"
  unfolding dispatcher_loop_def by (induction ws arbitrary: st) (simp_all add: known_round)

subsection \<open>Rounds in which everything works\<close>

definition healthy :: "'f weather \<Rightarrow> bool" where
  "healthy w \<longleftrightarrow> \<not> w_claim_fails w \<and> \<not> w_read_fails w \<and> (\<forall>m f. w_handled w m f = Inr True) \<and>
     (\<forall>m. w_settles w m) \<and> (\<forall>m. w_idle w m)"

definition backlog :: "'f cgroup \<Rightarrow> nat" where
  "backlog g = length (g_pending g) + length (g_new g)"

lemma dispatch_healthy:
  "healthy w \<Longrightarrow> dispatch_one n w (m, f) (g, r) = (ack m g, increment DELIVERED 1 r)"
  by (simp add: healthy_def dispatch_one_def process_dispatcher_def)

lemma fold_healthy:
  "healthy w \<Longrightarrow> fst (fold (dispatch_one n w) ms (g, r)) = fold (\<lambda>(m, f). ack m) ms g"
  by (induction ms arbitrary: g r) (auto simp: dispatch_healthy)

lemma backlog_ack: "backlog (ack m g) \<le> backlog g"
  by (simp add: backlog_def ack_def length_filter_le)

lemma backlog_ack_less: "m \<in> pending_ids g \<Longrightarrow> backlog (ack m g) < backlog g"
  by (force simp: backlog_def ack_def pending_ids_def intro!: length_filter_less)

lemma backlog_acks: "backlog (fold (\<lambda>(m, f). ack m) ms g) \<le> backlog g"
proof (induction ms arbitrary: g)
  case (Cons x ms)
  then show ?case
    using backlog_ack [of "fst x" g] by (auto simp: case_prod_beta intro: order_trans)
qed simp

lemma backlog_acks_less:
  assumes "ms \<noteq> []" "fst (hd ms) \<in> pending_ids g"
  shows "backlog (fold (\<lambda>(m, f). ack m) ms g) < backlog g"
proof (cases ms)
  case (Cons x xs)
  then show ?thesis
    using backlog_acks [of xs "ack (fst x) g"] backlog_ack_less [of "fst x" g] assms by (simp add: case_prod_beta)
qed (use assms in simp)

lemma healthy_round_progress:
  assumes "healthy w" "0 < backlog g"
  shows "backlog (fst (dispatcher_round n w (g, r))) < backlog g"
proof (cases "g_pending g")
  case Nil
  let ?g2 = "snd (read_new 10 g)"
  have claim: "claim_pending (w_idle w) g = ([], g)"
    using Nil by (simp add: claim_pending_def)
  obtain x xs where new: "g_new g = x # xs"
    using assms(2) Nil by (cases "g_new g") (auto simp: backlog_def)
  have "backlog ?g2 = backlog g"
    by (simp add: backlog_def read_new_def)
  moreover have "fst (read_new 10 g) \<noteq> []" "fst (hd (fst (read_new 10 g))) \<in> pending_ids ?g2"
    using new by (auto simp: read_new_def pending_ids_def case_prod_beta)
  ultimately show ?thesis
    using assms(1) backlog_acks_less [of "fst (read_new 10 g)" ?g2]
    by (simp add: dispatcher_round_def claim fold_healthy case_prod_beta) (simp add: healthy_def)
next
  case (Cons p ps)
  obtain m ms where taken: "fst (claim_pending (w_idle w) g) = m # ms" "fst m = fst p"
    using Cons assms(1) by (auto simp: claim_pending_def healthy_def Let_def case_prod_beta)
  obtain g1 where claim: "claim_pending (w_idle w) g = (m # ms, g1)"
    using taken(1) by (cases "claim_pending (w_idle w) g") simp
  have "backlog (snd (claim_pending (w_idle w) g)) = backlog g"
      "pending_ids (snd (claim_pending (w_idle w) g)) = pending_ids g"
    by (simp_all add: backlog_def claim_pending_def pending_ids_def Let_def image_image case_prod_beta)
  then have "backlog g1 = backlog g" "fst m \<in> pending_ids g1"
    using taken(2) Cons by (simp_all add: claim pending_ids_def)
  then have "backlog (fst (fold (dispatch_one n w) (m # ms) (g1, r))) < backlog g"
    using backlog_acks_less [of "m # ms" g1] fold_healthy [OF assms(1), of n "m # ms" g1 r] by (metis list.distinct(1) list.sel(1))
  moreover have "\<not> w_claim_fails w"
    using assms(1) by (simp add: healthy_def)
  ultimately show ?thesis
    by (simp add: dispatcher_round_def claim del: fold_simps)
qed

lemma backlog_step:
  assumes "healthy w"
  shows "backlog (fst (dispatcher_round n w (g, r))) \<le> backlog g - 1"
proof (cases "backlog g = 0")
  case True
  then have empty: "g_pending g = []" "g_new g = []"
    by (simp_all add: backlog_def)
  then have "claim_pending (w_idle w) g = ([], g)" "read_new 10 g = ([], g)"
    by (simp_all add: claim_pending_def read_new_def)
  then have "fst (dispatcher_round n w (g, r)) = g"
    using assms by (simp add: dispatcher_round_def healthy_def)
  then show ?thesis
    using True by simp
next
  case False
  then show ?thesis
    using healthy_round_progress [OF assms, of g n r] by simp
qed

lemma backlog_loop:
  "list_all healthy ws \<Longrightarrow> backlog (fst (dispatcher_loop n ws (g, r))) \<le> backlog g - length ws"
proof (induction ws arbitrary: g r)
  case (Cons w ws)
  obtain g' r' where round: "dispatcher_round n w (g, r) = (g', r')"
    by fastforce
  have "backlog g' \<le> backlog g - 1"
    using backlog_step [of w n g r] Cons.prems round by simp
  moreover have "backlog (fst (dispatcher_loop n ws (g', r'))) \<le> backlog g' - length ws"
    using Cons by simp
  ultimately show ?case
    by (simp add: dispatcher_loop_def round)
qed (simp add: dispatcher_loop_def)

text \<open>C11. The dispatcher recovers: whatever a storm of failing reads, claims, handlers and acknowledgements has done, the
  loop is still there, and as many working rounds as messages are left leave no message new or pending; every message
  the group knew at the beginning is then acknowledged (delivered, or retained as a dead letter).\<close>

theorem dispatcher_loop_recovers:
  assumes "list_all healthy ws" "backlog (fst (dispatcher_loop n storm st)) \<le> length ws"
  shows "g_new (fst (dispatcher_loop n (storm @ ws) st)) = [] \<and> g_pending (fst (dispatcher_loop n (storm @ ws) st)) = [] \<and>
    known (fst st) = set (g_acked (fst (dispatcher_loop n (storm @ ws) st)))"
proof -
  let ?g = "fst (dispatcher_loop n (storm @ ws) st)"
  have "dispatcher_loop n (storm @ ws) st = dispatcher_loop n ws (dispatcher_loop n storm st)"
    by (simp add: dispatcher_loop_def)
  then have "backlog ?g = 0"
    using backlog_loop [OF assms(1), of n "fst (dispatcher_loop n storm st)" "snd (dispatcher_loop n storm st)"] assms(2)
    by simp
  then have "g_new ?g = []" "g_pending ?g = []"
    by (simp_all add: backlog_def)
  moreover have "known ?g = known (fst st)"
    by (rule known_loop)
  ultimately show ?thesis
    by (simp add: known_def pending_ids_def)
qed

definition calm :: "nat weather" where
  "calm = \<lparr>w_idle = (\<lambda>_. True), w_claim_fails = False, w_read_fails = False, w_handled = (\<lambda>_ _. Inr True),
     w_count_ok = (\<lambda>_. True), w_settles = (\<lambda>_. True)\<rparr>"

definition sample_storm :: "nat weather list" where
  "sample_storm = [calm\<lparr>w_claim_fails := True\<rparr>, calm\<lparr>w_settles := (\<lambda>_. False)\<rparr>]"

theorem dispatcher_loop_recovers_witness:
  "g_pending (fst (dispatcher_loop 5 (sample_storm @ [calm]) (sample_group, \<lparr>counters = [], gauges = []\<rparr>))) = []"
proof -
  have "dispatcher_loop 5 sample_storm (sample_group, \<lparr>counters = [], gauges = []\<rparr>) =
      (sample_group\<lparr>g_pending := [(7, 0, 2)]\<rparr>, \<lparr>counters = [(READ_ERRORS, 2)], gauges = []\<rparr>)"
    by (simp add: dispatcher_loop_def sample_storm_def dispatcher_round_def calm_def claim_pending_def sample_group_def
        dispatch_one_def increment_def get_counter_def)
  then have "backlog (fst (dispatcher_loop 5 sample_storm (sample_group, \<lparr>counters = [], gauges = []\<rparr>))) \<le> length [calm]"
    by (simp add: backlog_def sample_group_def)
  moreover have "list_all healthy [calm]"
    by (simp add: healthy_def calm_def)
  ultimately show ?thesis
    using dispatcher_loop_recovers [of "[calm]" 5 sample_storm] by blast
qed

end
