(* ===== verification/Spec2Isabelle.thy ===== *)
theory Spec2Isabelle
  imports Message_Builder Rate_Limiter Discord_Rest Redaction Outbox Policies Turn_System Delivery
    Runner_Create Bot_Sagas Session_Config Control_Api Dispatcher World
    Setup_Service Tool_Service Typing_Tracker Command_Sync Bot_Reads
    Bot_Gate Bot_Events Help_Text Input_Admission Tool_Seeds Exec_Supervision Protocol
    Outbound Tool_Probe Runner_Process Reply_Client Workspace
    Migrations Dispatcher_Loop
begin

text \<open>
  A verification library of Discode, a bot that runs command-line coding assistants for Discord threads. Four processes
  share a PostgreSQL database and Redis streams. The bot (\<open>discode/bot\<close>) turns slash commands and thread messages into
  transactions that change sessions and queue jobs in the table \<open>redis_outbox\<close>; a relay in every process
  (\<open>discode/queues\<close>) publishes those rows to the streams. The runner (\<open>discode/runner\<close>, \<open>discode/tools\<close>) starts,
  resumes and stops sessions, runs one tool process per message, and posts the replies through its control API.
  The dispatcher (\<open>discode/dispatcher\<close>) sends notices and archives threads; the janitor (\<open>discode/janitor\<close>) enforces
  time limits, repairs drift and deletes what has expired.

  \<^bold>\<open>How the code is modelled.\<close> Text is a list of code points (\<open>pystr\<close>), a UUID a 128-bit word, time an
  integer of milliseconds. A table is a list of rows, the database the record \<open>db\<close>; a transaction is a function of
  \<open>db\<close>, an error a value of a sum, so that every early return and every exception of the code is a branch. What a
  computation meets is an argument: the clock, fresh keys, whether a call fails, what Discord, git or a tool answers,
  and, between two transactions of one job, the commits of the others (\<open>gap\<close>). Third-party code is a parameter too:
  Fernet, the regular expressions of tool definitions, the JSON parser, \<open>realpath\<close>, the HTTP client, pydantic. Where a
  theorem needs something of it, the hypothesis is named in its statement and its witness supplies a concrete function.

  \<^bold>\<open>Foundations.\<close>
  \<^item> \<open>Prelude\<close>: strings and exceptions. \<open>Uuid\<close>: the text of a UUID and its parser. \<open>Url\<close>: \<open>urllib.parse\<close> and IPv4.
    \<open>Regex\<close>: Python's backtracking matcher for the constructs the redaction rules use, proved equal to the
    declarative meaning of expressions; the fuel of a repetition is the remaining length plus one, which is enough because
    an iteration that consumes nothing ends the repetition.
  \<^item> \<open>Tables\<close>: \<open>SELECT\<close>, \<open>UPDATE\<close>, \<open>DELETE\<close> and the two forms of \<open>ON CONFLICT\<close> over keyed rows, with the locale
    \<open>row_table\<close>. \<open>Domain\<close>: the rows of \<open>db/models\<close> and the record \<open>db\<close>; an interpretation per table.
  \<^item> \<open>Config\<close> (\<open>config.py\<close>, \<open>security/quotas.py\<close>), \<open>Security\<close> (\<open>security/*.py\<close>), \<open>Redaction\<close>
    (\<open>security/redaction.py\<close>): settings and their validation, the environment and path policies, the secrets.
  \<^item> \<open>Schema\<close> and \<open>Migrations\<close>: \<open>alembic/versions\<close> statement by statement, forwards and back, against the declared
    classes. \<open>Samples\<close>: the values on which the properties are applied.

  \<^bold>\<open>The bot.\<close>
  \<^item> \<open>Session_Service\<close>, \<open>Bot_Sagas\<close>: the transactions behind the commands (stop, archive, resume, restart, invite,
    create, input). \<open>Session_Config\<close>, \<open>Policies\<close>, \<open>Setup_Service\<close>, \<open>Tool_Service\<close>, \<open>Bot_Reads\<close>: per-session
    overrides, who may do what, roots and aliases, the tool registry, listings. \<open>Tool_Seeds\<close>: the shipped tools.
  \<^item> \<open>Bot_Commands\<close>, \<open>Start_Command\<close>, \<open>Help_Text\<close>, \<open>Bot_Events\<close>, \<open>Command_Sync\<close>, \<open>Typing_Tracker\<close>: \<open>bot/main.py\<close> and
    its helpers; an interaction is a record of what a handler reads, and its calls to Discord are a list of effects.
    \<open>Bot_Gate\<close> joins all of them in one datatype of requests.

  \<^bold>\<open>The runner.\<close>
  \<^item> \<open>Runner_Create\<close>, \<open>Runner_Resume\<close>: the jobs and the recovery at start. \<open>Exec_Build\<close>, \<open>Runner_Input\<close>: one turn,
    from its command to the delivery of its reply. \<open>Runner_Main\<close>, \<open>Input_Admission\<close>, \<open>Runner_Process\<close>: dispatch of
    jobs, admission of input in the order of the stream, start and end of the process.
  \<^item> \<open>Tools\<close>, \<open>Exec_Session\<close>, \<open>Exec_Supervision\<close>, \<open>Tool_Probe\<close>: adapters, bounded output, the supervision of a process
    group as steps over events, and the conformance probe.
  \<^item> \<open>Control_Api\<close>, \<open>Delivery\<close>, \<open>Reply_Client\<close>: the endpoints, the claims that make a delivery idempotent, and the
    client joined with the endpoint that serves it. \<open>Workspace\<close>: a path on its way through the bot and the runner.

  \<^bold>\<open>Dispatcher, janitor and queues.\<close>
  \<^item> \<open>Outbox\<close> (relay, dead letters, trimming), \<open>Streams\<close> (consumer groups; the locale \<open>stream_worker\<close> is the contract
    of both workers), \<open>Dispatcher_Loop\<close> (the rounds of the dispatcher, with what it counts), \<open>Dispatcher\<close>,
    \<open>Outbound\<close>, \<open>Message_Builder\<close>, \<open>Rate_Limiter\<close>, \<open>Discord_Rest\<close>. \<open>Metrics\<close>: the registry and its exporter.
  \<^item> \<open>Janitor_Timeouts\<close>, \<open>Janitor_Lifecycle\<close>, \<open>Janitor_Retention\<close>, \<open>Janitor_Main\<close>: the sweeps and one pass.

  \<^bold>\<open>Across the components.\<close>
  \<^item> \<open>Turn_System\<close>: workers, redelivery, crashes and the operations of the others as a step relation; a ghost counter
    shows that the tool runs at most once for a turn. The locale \<open>ledger_op\<close> is what an operation of another process
    owes the ledger of turns.
  \<^item> \<open>Lifecycle\<close>, \<open>World\<close>: the locales \<open>session_op\<close> and \<open>lifecycle_op\<close>, interpreted for every operation of the bot,
    the janitor and the runner: sessions only move forward. \<open>Protocol\<close>: every message of every process is one its
    reader can read. \<open>Turn_Command\<close>: what holds of the command of every turn.

  \<^bold>\<open>What the groups of lemmas show.\<close> Invariants are stated once per locale and inherited by every interpretation; the
  functional behaviour of a transaction is proved on each of its branches; the limits (message size, quota, rate, output,
  retries, leases) are proved as bounds. A loop that retries is a recursion over its fuel: \<open>send_message\<close> is
  given its retries, a repetition of a regular expression the remaining text, the relay and the workers the list of what
  they meet. Lemmas whose text says so show where the code departs from its documentation or its intent.

  \<^bold>\<open>Not modelled.\<close> The bytes of Fernet tokens (\<open>security/fernet.py\<close> calls the cryptography package); engines, pools
  and the start of alembic (\<open>db/engine.py\<close>, \<open>alembic/env.py\<close>); logging, the check of gateway intents, the embed
  of \<open>dispatcher/heartbeat.py\<close>, which nothing starts, the construction of the collaborators
  (\<open>runtime.py\<close>) and the \<open>main\<close> functions; the ASGI server, sockets and system calls, whose results are arguments; the
  envelope classes of \<open>specs/redis_envelopes.py\<close>, which no code uses; \<open>scripts/diag.py\<close>, which only prints; and
  what the processes other than the dispatcher count, which no decision of the program reads.
\<close>

end
